(* ===== verification/Prelude.thy ===== *)
theory Prelude
  imports Main
begin

text \<open>
  The JavaScript runtime the model rests on: strings, \<open>split\<close>/\<open>join\<close>/\<open>trim\<close>/\<open>includes\<close>,
  decimal printing and \<open>parseInt\<close>, \<open>encodeURIComponent\<close>, and the generic list lemmas the
  components share.

  A JavaScript string is a \<open>string\<close> that holds its UTF-8 bytes, one \<open>char\<close> per byte.
  Concatenation, equality, substring search and splitting at an ASCII character agree with
  the UTF-16 operations of the language on this representation; \<open>toLowerCase\<close> is the
  ASCII one (container, image, volume and network names are ASCII by the engine's grammar).
\<close>

named_theorems js_defs \<open>definitions of the JavaScript runtime, for evaluation\<close>

section \<open>Strings\<close>

text \<open>Non-ASCII characters of the source, as their UTF-8 bytes.\<close>

abbreviation ellipsis :: string where
  "ellipsis \<equiv> [CHR 0xE2, CHR 0x80, CHR 0xA6]"

abbreviation em_dash :: string where
  "em_dash \<equiv> [CHR 0xE2, CHR 0x80, CHR 0x94]"

abbreviation newline :: string where
  "newline \<equiv> [CHR 0x0A]"

abbreviation dquote :: string where
  "dquote \<equiv> [CHR 0x22]"

abbreviation squote :: string where
  "squote \<equiv> [CHR 0x27]"

definition lower_char :: "char \<Rightarrow> char" where
  "lower_char c = (let n = (of_char c :: nat) in if 65 \<le> n \<and> n \<le> 90 then char_of (n + 32) else c)"

definition to_lower :: "string \<Rightarrow> string" where
  "to_lower s = map lower_char s"

fun starts_with :: "string \<Rightarrow> string \<Rightarrow> bool" where
  "starts_with [] s = True"
| "starts_with (p # ps) [] = False"
| "starts_with (p # ps) (c # s) = (p = c \<and> starts_with ps s)"

text \<open>\<open>s.includes(q)\<close>, also written \<open>s.indexOf(q) !== -1\<close> in the source.\<close>

fun has_sub :: "string \<Rightarrow> string \<Rightarrow> bool" where
  "has_sub [] q = (q = [])"
| "has_sub (c # s) q = (starts_with q (c # s) \<or> has_sub s q)"

text \<open>\<open>s.split(c)\<close> for a one-character separator, and \<open>xs.join(sep)\<close>.\<close>

fun split_on :: "char \<Rightarrow> string \<Rightarrow> string list" where
  "split_on c [] = [[]]"
| "split_on c (x # xs) =
     (if x = c then [] # split_on c xs
      else (case split_on c xs of [] \<Rightarrow> [[x]] | y # ys \<Rightarrow> (x # y) # ys))"

fun join :: "string \<Rightarrow> string list \<Rightarrow> string" where
  "join sep [] = []"
| "join sep [x] = x"
| "join sep (x # y # ys) = x @ sep @ join sep (y # ys)"

definition is_space :: "char \<Rightarrow> bool" where
  "is_space c = (let n = (of_char c :: nat) in n = 32 \<or> (9 \<le> n \<and> n \<le> 13))"

definition trim :: "string \<Rightarrow> string" where
  "trim s = rev (dropWhile is_space (rev (dropWhile is_space s)))"

text \<open>\<open>xs.filter(Boolean)\<close> on a list of strings drops the empty ones.\<close>

definition nonempty :: "string list \<Rightarrow> string list" where
  "nonempty xs = filter (\<lambda>s. s \<noteq> []) xs"

text \<open>\<open>a || b\<close> on strings: the empty string is falsy.\<close>

definition or_str :: "string \<Rightarrow> string \<Rightarrow> string" where
  "or_str a b = (if a = [] then b else a)"

text \<open>\<open>s.split(p).join(v)\<close>: every occurrence of a non-empty literal \<open>p\<close>, left to right.\<close>

function replace_all :: "string \<Rightarrow> string \<Rightarrow> string \<Rightarrow> string" where
  "replace_all p v [] = []"
| "replace_all p v (c # s) =
     (if p \<noteq> [] \<and> starts_with p (c # s) then v @ replace_all p v (drop (length p) (c # s))
      else c # replace_all p v s)"
  by pat_completeness auto
termination
  by (relation "measure (\<lambda>(p, v, s). length s)") (auto simp: length_Cons)

lemmas [js_defs] = lower_char_def to_lower_def is_space_def trim_def nonempty_def or_str_def

lemma starts_with_iff: "starts_with p s \<longleftrightarrow> (\<exists>t. s = p @ t)"
  by (induction p s rule: starts_with.induct) auto

lemma starts_with_append [simp]: "starts_with p (p @ t)"
  by (simp add: starts_with_iff)

lemma includes_iff: "has_sub s q \<longleftrightarrow> (\<exists>a b. s = a @ q @ b)"
proof (induction s)
  case Nil
  then show ?case by auto
next
  case (Cons c s)
  have "(\<exists>a b. c # s = a @ q @ b) \<longleftrightarrow> (\<exists>b. c # s = q @ b) \<or> (\<exists>a b. s = a @ q @ b)"
    by (metis append_Cons append_Nil list.exhaust list.inject)
  with Cons show ?case by (auto simp: starts_with_iff)
qed

lemma has_sub_empty [simp]: "has_sub s []"
  by (cases s) auto

lemma split_on_not_Nil [simp]: "split_on c s \<noteq> []"
  by (cases s) (auto split: list.splits)

lemma join_split_on [simp]: "join [c] (split_on c s) = s"
proof (induction s)
  case Nil
  then show ?case by simp
next
  case (Cons x xs)
  obtain y ys where "split_on c xs = y # ys"
    using split_on_not_Nil [of c xs] by (cases "split_on c xs") auto
  with Cons show ?case by (cases ys) auto
qed

lemma split_on_no_sep: "c \<notin> set s \<Longrightarrow> split_on c s = [s]"
  by (induction s) auto

lemma split_on_append_sep: "c \<notin> set s \<Longrightarrow> split_on c (s @ c # t) = s # split_on c t"
  by (induction s) auto

lemma split_on_join:
  "xs \<noteq> [] \<Longrightarrow> \<forall>x \<in> set xs. c \<notin> set x \<Longrightarrow> split_on c (join [c] xs) = xs"
  by (induction "[c]" xs rule: join.induct) (auto simp: split_on_no_sep split_on_append_sep)

lemma split_on_parts: "x \<in> set (split_on c s) \<Longrightarrow> c \<notin> set x"
  by (induction s arbitrary: x) (auto split: if_splits list.splits)

lemma or_str_Nil [simp]: "or_str [] b = b"
  by (simp add: or_str_def)

lemma or_str_Cons [simp]: "or_str (x # xs) b = x # xs"
  by (simp add: or_str_def)

lemma nonempty_id: "\<forall>x \<in> set xs. x \<noteq> [] \<Longrightarrow> nonempty xs = xs"
  by (simp add: nonempty_def)

lemma nonempty_Nil [simp]: "nonempty [] = []"
  by (simp add: nonempty_def)

lemma trim_id:
  assumes "s \<noteq> []" and "\<not> is_space (hd s)" and "\<not> is_space (last s)"
  shows "trim s = s"
proof -
  have "dropWhile is_space s = s" and "dropWhile is_space (rev s) = rev s"
    using assms by (simp_all add: dropWhile_eq_self_iff hd_rev)
  then show ?thesis by (simp add: trim_def)
qed

section \<open>Numbers\<close>

definition digit_char :: "nat \<Rightarrow> char" where
  "digit_char d = char_of (48 + d)"

fun show_nat :: "nat \<Rightarrow> string" where
  "show_nat n = (if n < 10 then [digit_char n] else show_nat (n div 10) @ [digit_char (n mod 10)])"

declare show_nat.simps [simp del]

definition show_int :: "int \<Rightarrow> string" where
  "show_int i = (if i < 0 then ''-'' @ show_nat (nat (- i)) else show_nat (nat i))"

definition is_digit :: "char \<Rightarrow> bool" where
  "is_digit c = (let n = (of_char c :: nat) in 48 \<le> n \<and> n \<le> 57)"

definition digit_val :: "char \<Rightarrow> nat" where
  "digit_val c = of_char c - 48"

definition digits_val :: "string \<Rightarrow> nat" where
  "digits_val s = foldl (\<lambda>acc c. 10 * acc + digit_val c) 0 s"

text \<open>\<open>parseInt(s, 10)\<close>: leading white space, a sign, the longest digit prefix; \<open>None\<close> is NaN.\<close>

definition parse_digits :: "string \<Rightarrow> nat option" where
  "parse_digits s = (let ds = takeWhile is_digit s in if ds = [] then None else Some (digits_val ds))"

definition parse_int :: "string \<Rightarrow> int option" where
  "parse_int s = (case dropWhile is_space s of
      [] \<Rightarrow> None
    | c # r \<Rightarrow> (if c = CHR ''-'' then map_option (\<lambda>n. - int n) (parse_digits r)
               else if c = CHR ''+'' then map_option int (parse_digits r)
               else map_option int (parse_digits (c # r))))"

lemmas [js_defs] = digit_char_def show_int_def is_digit_def digit_val_def digits_val_def
  parse_digits_def parse_int_def

lemma of_char_digit [simp]: "d < 10 \<Longrightarrow> (of_char (digit_char d) :: nat) = 48 + d"
  by (simp add: digit_char_def)

lemma is_digit_digit_char [simp]: "d < 10 \<Longrightarrow> is_digit (digit_char d)"
  by (simp add: is_digit_def)

lemma digit_val_digit_char [simp]: "d < 10 \<Longrightarrow> digit_val (digit_char d) = d"
  by (simp add: digit_val_def)

lemma show_nat_digits: "c \<in> set (show_nat n) \<Longrightarrow> is_digit c"
proof (induction n rule: show_nat.induct)
  case (1 n)
  then show ?case by (subst (asm) (2) show_nat.simps) (auto split: if_splits)
qed

lemma show_nat_not_Nil [simp]: "show_nat n \<noteq> []"
  by (subst show_nat.simps) simp

lemma digits_val_snoc: "digits_val (s @ [c]) = 10 * digits_val s + digit_val c"
  by (simp add: digits_val_def)

lemma digits_val_show_nat [simp]: "digits_val (show_nat n) = n"
proof (induction n rule: show_nat.induct)
  case (1 n)
  show ?case
  proof (cases "n < 10")
    case True
    then show ?thesis by (subst show_nat.simps) (simp add: digits_val_def)
  next
    case False
    with 1 have "digits_val (show_nat (n div 10)) = n div 10" by simp
    with False show ?thesis by (subst show_nat.simps) (simp add: digits_val_snoc)
  qed
qed

lemma parse_digits_show_nat [simp]: "parse_digits (show_nat n) = Some n"
proof -
  have "takeWhile is_digit (show_nat n) = show_nat n"
    by (rule takeWhile_eq_all_conv [THEN iffD2]) (auto dest: show_nat_digits)
  then show ?thesis unfolding parse_digits_def Let_def by (simp del: takeWhile_eq_all_conv)
qed

lemma parse_int_show_nat [simp]: "parse_int (show_nat n) = Some (int n)"
proof -
  obtain c r where cr: "show_nat n = c # r"
    by (cases "show_nat n") auto
  then have d: "is_digit c" using show_nat_digits [of c n] by simp
  then have ns: "\<not> is_space c" and "c \<noteq> CHR ''-''" and "c \<noteq> CHR ''+''"
    by (auto simp: is_digit_def is_space_def Let_def)
  then show ?thesis using parse_digits_show_nat [of n] cr by (simp add: parse_int_def)
qed

lemma show_nat_inject: "show_nat m = show_nat n \<longleftrightarrow> m = n"
  by (metis digits_val_show_nat)

section \<open>encodeURIComponent\<close>

definition unreserved :: "char \<Rightarrow> bool" where
  "unreserved c = (let n = (of_char c :: nat) in
     (48 \<le> n \<and> n \<le> 57) \<or> (65 \<le> n \<and> n \<le> 90) \<or> (97 \<le> n \<and> n \<le> 122) \<or>
     n = 45 \<or> n = 95 \<or> n = 46 \<or> n = 33 \<or> n = 126 \<or> n = 42 \<or> n = 39 \<or> n = 40 \<or> n = 41)"

definition hex_digit :: "nat \<Rightarrow> char" where
  "hex_digit d = (if d < 10 then char_of (48 + d) else char_of (55 + d))"

definition hex_val :: "char \<Rightarrow> nat" where
  "hex_val c = (let n = of_char c in if n \<le> 57 then n - 48 else n - 55)"

definition encode_char :: "char \<Rightarrow> string" where
  "encode_char c = (if unreserved c then [c]
     else let n = of_char c in [CHR ''%'', hex_digit (n div 16), hex_digit (n mod 16)])"

definition encode_uri :: "string \<Rightarrow> string" where
  "encode_uri s = concat (map encode_char s)"

text \<open>What the server does with a path segment or a query value it receives.\<close>

fun decode_uri :: "string \<Rightarrow> string" where
  "decode_uri [] = []"
| "decode_uri (c # s) =
     (if c = CHR ''%'' then (case s of a # b # t \<Rightarrow> char_of (16 * hex_val a + hex_val b) # decode_uri t
                            | _ \<Rightarrow> c # decode_uri s)
      else c # decode_uri s)"

lemmas [js_defs] = unreserved_def hex_digit_def encode_char_def encode_uri_def

lemma hex_val_digit: "d < 16 \<Longrightarrow> hex_val (hex_digit d) = d"
  by (auto simp: hex_val_def hex_digit_def Let_def)

lemma percent_reserved [simp]: "\<not> unreserved (CHR ''%'')"
  by (simp add: unreserved_def)

lemma of_char_lt_256: "(of_char c :: nat) < 256"
  by (metis char_of_eq_iff of_char_mod_256 mod_less_divisor zero_less_numeral)

lemma decode_encode_char: "decode_uri (encode_char c @ s) = c # decode_uri s"
proof (cases "unreserved c")
  case True
  then have "c \<noteq> CHR ''%''" by auto
  with True show ?thesis by (simp add: encode_char_def)
next
  case False
  have lt: "(of_char c :: nat) < 256" by (rule of_char_lt_256)
  then have "(of_char c :: nat) div 16 < 16" by arith
  with False lt show ?thesis by (simp add: encode_char_def Let_def hex_val_digit)
qed

lemma decode_encode_uri [simp]: "decode_uri (encode_uri s) = s"
  by (induction s) (simp_all add: encode_uri_def decode_encode_char)

lemma encode_uri_inject: "encode_uri s = encode_uri t \<longleftrightarrow> s = t"
  by (metis decode_encode_uri)

lemma hex_digit_unreserved: "d < 16 \<Longrightarrow> unreserved (hex_digit d)"
  by (auto simp: hex_digit_def unreserved_def Let_def)

lemma encode_uri_chars: "c \<in> set (encode_uri s) \<Longrightarrow> unreserved c \<or> c = CHR ''%''"
proof (induction s)
  case (Cons x s)
  have "(of_char x :: nat) div 16 < 16" using of_char_lt_256 [of x] by arith
  with Cons show ?case
    by (auto simp: encode_uri_def encode_char_def Let_def hex_digit_unreserved split: if_splits)
qed (simp add: encode_uri_def)

text \<open>No URL delimiter survives the encoding.\<close>

lemma encode_uri_no_delim [simp]:
  "CHR ''/'' \<notin> set (encode_uri s)" "CHR ''?'' \<notin> set (encode_uri s)"
  "CHR ''&'' \<notin> set (encode_uri s)" "CHR ''#'' \<notin> set (encode_uri s)"
  "CHR ''='' \<notin> set (encode_uri s)"
  by (auto dest!: encode_uri_chars simp: unreserved_def)

section \<open>Lists\<close>

text \<open>The last \<open>n\<close> elements: what \<open>xs.splice(0, xs.length - n)\<close> leaves.\<close>

definition last_n :: "nat \<Rightarrow> 'a list \<Rightarrow> 'a list" where
  "last_n n xs = drop (length xs - n) xs"

lemma length_last_n [simp]: "length (last_n n xs) = min n (length xs)"
  by (simp add: last_n_def)

lemma last_n_all [simp]: "length xs \<le> n \<Longrightarrow> last_n n xs = xs"
  by (simp add: last_n_def)

lemma set_last_n: "set (last_n n xs) \<subseteq> set xs"
  by (simp add: last_n_def set_drop_subset)

lemma last_n_last_n: "n \<le> m \<Longrightarrow> last_n n (last_n m xs @ ys) = last_n n (xs @ ys)"
  by (cases "length xs \<le> m") (auto simp: last_n_def add.commute)

lemma filter_length_le [simp]: "length (filter P xs) \<le> length xs"
  by (rule length_filter_le)

section \<open>Results that may throw\<close>

text \<open>Sequencing on \<open>error + 'a\<close>: the first thrown error ends the computation.\<close>

definition res_bind :: "'e + 'a \<Rightarrow> ('a \<Rightarrow> 'e + 'b) \<Rightarrow> 'e + 'b" where
  "res_bind r f = (case r of Inl e \<Rightarrow> Inl e | Inr x \<Rightarrow> f x)"

fun res_map :: "('a \<Rightarrow> 'e + 'b) \<Rightarrow> 'a list \<Rightarrow> 'e + 'b list" where
  "res_map f [] = Inr []"
| "res_map f (x # xs) = res_bind (f x) (\<lambda>y. res_bind (res_map f xs) (\<lambda>ys. Inr (y # ys)))"

lemma res_bind_simps [simp]: "res_bind (Inl e) f = Inl e" "res_bind (Inr x) f = f x"
  by (simp_all add: res_bind_def)

lemma res_bind_Inr_iff: "res_bind r f = Inr y \<longleftrightarrow> (\<exists>x. r = Inr x \<and> f x = Inr y)"
  by (cases r) simp_all

lemma res_bind_Inl: "(\<And>x. r = Inr x \<Longrightarrow> \<exists>e. f x = Inl e) \<Longrightarrow> \<exists>e. res_bind r f = Inl e"
  by (cases r) simp_all

lemma res_map_length: "res_map f xs = Inr ys \<Longrightarrow> length ys = length xs"
  by (induction xs arbitrary: ys) (auto simp: res_bind_Inr_iff)

lemma res_map_ball:
  assumes "res_map f xs = Inr ys" and "\<And>x y. x \<in> set xs \<Longrightarrow> f x = Inr y \<Longrightarrow> P y"
  shows "list_all P ys"
  using assms
proof (induction xs arbitrary: ys)
  case (Cons x xs)
  then obtain z zs where "f x = Inr z" "res_map f xs = Inr zs" "ys = z # zs"
    by (auto simp: res_bind_Inr_iff)
  moreover from this Cons have "P z" and "list_all P zs" by force+
  ultimately show ?case by simp
qed simp

lemma res_map_total: "(\<And>x. x \<in> set xs \<Longrightarrow> \<exists>y. f x = Inr y) \<Longrightarrow> \<exists>ys. res_map f xs = Inr ys"
  by (induction xs) (fastforce simp: res_bind_def)+

end
