(* ===== verification/I18n.thy ===== *)
theory I18n
  imports Prelude
begin

text \<open>
  The string bundle \<open>window.SKIFF_STRINGS\<close> of strings.en.js and its lookup helper \<open>t\<close> of
  ui.js. The bundle is the nested object literal as the file writes it, in order and with its
  duplicate property; \<open>t\<close> walks a dotted key through it and substitutes placeholders.
\<close>

section \<open>The lookup helper\<close>

datatype i18n = Leaf string | Dict "(string \<times> i18n) list"

text \<open>In an object literal a later property replaces an earlier one of the same name.\<close>

definition get_prop :: "(string \<times> 'a) list \<Rightarrow> string \<Rightarrow> 'a option" where
  "get_prop kvs k = map_of (rev kvs) k"

fun walk :: "i18n \<Rightarrow> string list \<Rightarrow> i18n option" where
  "walk node [] = Some node"
| "walk (Dict kvs) (p # ps) = (case get_prop kvs p of None \<Rightarrow> None | Some n \<Rightarrow> walk n ps)"
| "walk (Leaf s) (p # ps) = None"

definition is_word_char :: "char \<Rightarrow> bool" where
  "is_word_char c = (let n = (of_char c :: nat) in
     (48 \<le> n \<and> n \<le> 57) \<or> (65 \<le> n \<and> n \<le> 90) \<or> (97 \<le> n \<and> n \<le> 122) \<or> n = 95)"

text \<open>
  \<open>node.replace(/\{(\w+)\}/g, ...)\<close>: a placeholder whose name is an own property of \<open>vars\<close>
  is replaced by its value, any other match is kept, and inserted values are not scanned again.
\<close>

lemma tl_dropWhile_le [simp]: "length (dropWhile P s) - Suc 0 \<le> length s"
  using length_dropWhile_le [of P s] by linarith

function substitute :: "(string \<times> string) list \<Rightarrow> string \<Rightarrow> string" where
  "substitute vars [] = []"
| "substitute vars (c # s) =
     (if c \<noteq> CHR ''{'' then c # substitute vars s
      else let w = takeWhile is_word_char s; r = dropWhile is_word_char s in
        if w \<noteq> [] \<and> r \<noteq> [] \<and> hd r = CHR ''}''
        then (case get_prop vars w of Some v \<Rightarrow> v | None \<Rightarrow> c # w @ [CHR ''}'']) @ substitute vars (tl r)
        else c # substitute vars s)"
  by pat_completeness auto
termination
  by (relation "measure (\<lambda>(vars, s). length s)")
    (auto simp: less_Suc_eq_le intro: tl_dropWhile_le)

declare substitute.simps(2) [simp del]

definition t :: "i18n \<Rightarrow> string \<Rightarrow> (string \<times> string) list option \<Rightarrow> string" where
  "t dict key vars = (case walk dict (split_on CHR ''.'' key) of
      Some (Leaf s) \<Rightarrow> (case vars of None \<Rightarrow> s | Some vs \<Rightarrow> substitute vs s)
    | _ \<Rightarrow> key)"

text \<open>A template as the list of its literal and placeholder segments: the reference reading.\<close>

datatype seg = Lit char | Var string

function segments :: "string \<Rightarrow> seg list" where
  "segments [] = []"
| "segments (c # s) =
     (if c \<noteq> CHR ''{'' then Lit c # segments s
      else let w = takeWhile is_word_char s; r = dropWhile is_word_char s in
        if w \<noteq> [] \<and> r \<noteq> [] \<and> hd r = CHR ''}''
        then Var w # segments (tl r) else Lit c # segments s)"
  by pat_completeness auto
termination
  by (relation "measure length")
    (auto simp: less_Suc_eq_le intro: tl_dropWhile_le)

declare segments.simps(2) [simp del]

fun seg_text :: "(string \<Rightarrow> string option) \<Rightarrow> seg \<Rightarrow> string" where
  "seg_text f (Lit c) = [c]"
| "seg_text f (Var w) = (case f w of Some v \<Rightarrow> v | None \<Rightarrow> CHR ''{'' # w @ [CHR ''}''])"

definition placeholders :: "string \<Rightarrow> string list" where
  "placeholders s = concat (map (\<lambda>g. case g of Var w \<Rightarrow> [w] | Lit _ \<Rightarrow> []) (segments s))"

lemma substitute_segments: "substitute vars s = concat (map (seg_text (get_prop vars)) (segments s))"
proof (induction vars s rule: substitute.induct)
  case (2 vars c s)
  then show ?case
    by (subst substitute.simps, subst segments.simps) (simp add: Let_def split: option.splits)
qed simp

lemma concat_segments: "concat (map (seg_text (\<lambda>_. None)) (segments s)) = s"
proof (induction s rule: segments.induct)
  case (2 c s)
  let ?w = "takeWhile is_word_char s" and ?r = "dropWhile is_word_char s"
  have "?r \<noteq> [] \<Longrightarrow> hd ?r = CHR ''}'' \<Longrightarrow> ?w @ CHR ''}'' # tl ?r = s"
    by (metis hd_Cons_tl takeWhile_dropWhile_id)
  with 2 show ?case by (subst segments.simps) (auto simp: Let_def)
qed simp

text \<open>A property to be looked up that is not there leaves the template as it is.\<close>

lemma substitute_Nil [simp]: "substitute [] s = s"
proof -
  have "get_prop ([] :: (string \<times> string) list) = (\<lambda>_. None)"
    by (simp add: get_prop_def fun_eq_iff)
  then show ?thesis by (simp add: substitute_segments concat_segments)
qed

lemma substitute_plain: "CHR ''{'' \<notin> set s \<Longrightarrow> substitute vars s = s"
  by (induction s) (auto simp: substitute.simps(2) Let_def)

lemma t_missing: "walk dict (split_on CHR ''.'' key) = None \<Longrightarrow> t dict key vars = key"
  by (simp add: t_def)

lemma t_object: "walk dict (split_on CHR ''.'' key) = Some (Dict kvs) \<Longrightarrow> t dict key vars = key"
  by (simp add: t_def)

section \<open>The English bundle\<close>

definition str_common :: i18n where
  "str_common = Dict
    [ (''cancel'', Leaf ''Cancel''),
      (''confirm'', Leaf ''Confirm''),
      (''close'', Leaf ''Close''),
      (''copy'', Leaf ''Copy''),
      (''copied'', Leaf ''Copied''),
      (''save'', Leaf ''Save''),
      (''delete'', Leaf ''Delete''),
      (''refresh'', Leaf ''Refresh''),
      (''loading'', Leaf (''Loading'' @ ellipsis)),
      (''none'', Leaf ''None''),
      (''unknown'', Leaf ''unknown''),
      (''search'', Leaf ''Search''),
      (''submit'', Leaf ''Submit''),
      (''yes'', Leaf ''Yes''),
      (''no'', Leaf ''No''),
      (''error'', Leaf ''Error''),
      (''success'', Leaf ''Success''),
      (''sign_out'', Leaf ''Sign out''),
      (''sign_in'', Leaf ''Sign in'') ]"

definition str_nav :: i18n where
  "str_nav = Dict
    [ (''containers'', Leaf ''Containers''),
      (''images'', Leaf ''Images''),
      (''volumes'', Leaf ''Volumes''),
      (''networks'', Leaf ''Networks''),
      (''compose'', Leaf ''Compose''),
      (''system'', Leaf ''System'') ]"

definition str_auth :: i18n where
  "str_auth = Dict
    [ (''insecure_banner'', Leaf (''Insecure mode '' @ em_dash @ '' bound to {bindHost} without an API token. Anyone with network access to this port has full control.'')),
      (''session_expired'', Leaf (''Session expired '' @ em_dash @ '' please sign in again.'')),
      (''reconnect'', Leaf ''Reconnect''),
      (''token_label'', Leaf ''API token''),
      (''token_placeholder'', Leaf ''Paste your API_TOKEN'') ]"

definition str_ws :: i18n where
  "str_ws = Dict
    [ (''disconnected'', Leaf ''Disconnected''),
      (''reconnecting'', Leaf (''Reconnecting'' @ ellipsis)),
      (''idle_timeout'', Leaf (''Session idle '' @ em_dash @ '' no new log output; server closed the stream.'')),
      (''exec_idle_timeout'', Leaf (''Exec session closed '' @ em_dash @ '' idle past the configured timeout.'')) ]"

definition str_containers :: i18n where
  "str_containers = Dict
    [ (''title'', Leaf ''Containers''),
      (''empty'', Leaf ''No containers yet. Click Run to create one.''),
      (''columns'', Dict
         [ (''name'', Leaf ''Name''),
           (''image'', Leaf ''Image''),
           (''status'', Leaf ''Status''),
           (''ports'', Leaf ''Ports''),
           (''created'', Leaf ''Created''),
           (''actions'', Leaf ''Actions'') ]),
      (''actions'', Dict
         [ (''run'', Leaf ''Run''),
           (''start'', Leaf ''Start''),
           (''stop'', Leaf ''Stop''),
           (''restart'', Leaf ''Restart''),
           (''pause'', Leaf ''Pause''),
           (''unpause'', Leaf ''Unpause''),
           (''kill'', Leaf ''Kill''),
           (''rename'', Leaf ''Rename''),
           (''remove'', Leaf ''Remove''),
           (''inspect'', Leaf ''Inspect''),
           (''logs'', Leaf ''Logs''),
           (''exec'', Leaf ''Exec''),
           (''stats'', Leaf ''Stats''),
           (''top'', Leaf ''Top''),
           (''diff'', Leaf ''Diff'') ]),
      (''confirm'', Dict
         [ (''remove'', Leaf ''Remove container {name}? This cannot be undone after the undo window expires.''),
           (''force_remove'', Leaf ''Force-remove running container {name}?''),
           (''kill'', Leaf ''Send {signal} to container {name}?'') ]),
      (''toast'', Dict
         [ (''started'', Leaf ''Container started.''),
           (''stopped'', Leaf ''Container stopped.''),
           (''restarted'', Leaf ''Container restarted.''),
           (''paused'', Leaf ''Container paused.''),
           (''unpaused'', Leaf ''Container unpaused.''),
           (''killed'', Leaf ''Container killed.''),
           (''renamed'', Leaf ''Container renamed.''),
           (''removed'', Leaf ''Container removed.''),
           (''remove_undo'', Leaf (''Container will be removed in {seconds}s '' @ em_dash @ '' click to undo.'')) ]),
      (''stats'', Dict
         [ (''cpu'', Leaf ''CPU''),
           (''memory'', Leaf ''Memory''),
           (''mem_limit'', Leaf ''Mem limit''),
           (''mem_percent'', Leaf ''Mem %''),
           (''net_rx'', Leaf ''Net RX''),
           (''net_tx'', Leaf ''Net TX''),
           (''disk_read'', Leaf ''Disk read''),
           (''disk_write'', Leaf ''Disk write'') ]) ]"

definition str_images :: i18n where
  "str_images = Dict
    [ (''title'', Leaf ''Images''),
      (''empty'', Leaf ''No images yet. Pull one to get started.''),
      (''actions'', Dict
         [ (''pull'', Leaf ''Pull''),
           (''push'', Leaf ''Push''),
           (''tag'', Leaf ''Tag''),
           (''remove'', Leaf ''Remove''),
           (''inspect'', Leaf ''Inspect'') ]),
      (''toast'', Dict
         [ (''pulled'', Leaf ''Image pulled.''),
           (''pushed'', Leaf ''Image pushed.''),
           (''tagged'', Leaf ''Image tagged.''),
           (''removed'', Leaf ''Image removed.'') ]) ]"

definition str_volumes :: i18n where
  "str_volumes = Dict
    [ (''title'', Leaf ''Volumes''),
      (''empty'', Leaf ''No volumes yet.''),
      (''in_use'', Leaf ''In use''),
      (''unused'', Leaf ''Unused''),
      (''description'', Leaf ''Named volumes persist data across container restarts. Host-path mounts are not permitted. Volumes live on the Docker engine.''),
      (''columns'', Dict
         [ (''name'', Leaf ''Name''),
           (''driver'', Leaf ''Driver''),
           (''mountpoint'', Leaf ''Mountpoint''),
           (''created'', Leaf ''Created''),
           (''actions'', Leaf ''Actions'') ]),
      (''inspect'', Dict
         [ (''scope'', Leaf ''Scope''),
           (''usage_bytes'', Leaf ''Usage (bytes)''),
           (''ref_count'', Leaf ''Ref count''),
           (''labels'', Leaf ''Labels''),
           (''options'', Leaf ''Options''),
           (''status'', Leaf ''Status''),
           (''used_by'', Leaf ''Used by''),
           (''local_default'', Leaf ''(local)''),
           (''driver_not_reported'', Leaf ''(not reported by driver)'') ]),
      (''actions'', Dict
         [ (''create'', Leaf ''Create''),
           (''remove'', Leaf ''Remove''),
           (''prune'', Leaf ''Prune''),
           (''inspect'', Leaf ''Inspect'') ]),
      (''modal'', Dict
         [ (''create_title'', Leaf ''Create volume''),
           (''inspect_title'', Leaf ''Volume: {name}'') ]),
      (''create_placeholder'', Leaf ''volume-name''),
      (''confirm'', Dict
         [ (''remove'', Leaf ''Remove volume {name}? Data on this volume will be permanently lost.''),
           (''prune'', Leaf ''Prune all unused volumes? This permanently deletes volume data.'') ]),
      (''toast'', Dict
         [ (''created'', Leaf ''Volume created.''),
           (''removed'', Leaf ''Volume removed.''),
           (''pruned'', Leaf ''Pruned {count} volumes, reclaimed {size}.'') ]) ]"

definition str_networks :: i18n where
  "str_networks = Dict
    [ (''title'', Leaf ''Networks''),
      (''empty'', Leaf ''No networks yet.''),
      (''actions'', Dict
         [ (''create'', Leaf ''Create''),
           (''remove'', Leaf ''Remove''),
           (''connect'', Leaf ''Connect''),
           (''disconnect'', Leaf ''Disconnect''),
           (''inspect'', Leaf ''Inspect'') ]),
      (''toast'', Dict
         [ (''created'', Leaf ''Network created.''),
           (''removed'', Leaf ''Network removed.''),
           (''connected'', Leaf ''Container connected.''),
           (''disconnected'', Leaf ''Container disconnected.'') ]) ]"

definition str_compose :: i18n where
  "str_compose = Dict
    [ (''title'', Leaf ''Compose''),
      (''upload_label'', Leaf ''Upload docker-compose.yml''),
      (''project_label'', Leaf ''Project name''),
      (''actions'', Dict
         [ (''up'', Leaf ''Deploy''),
           (''down'', Leaf ''Tear down''),
           (''logs'', Leaf ''Logs''),
           (''restart_service'', Leaf ''Restart service'') ]),
      (''toast'', Dict
         [ (''up'', Leaf ''Stack deployed.''),
           (''down'', Leaf ''Stack torn down.''),
           (''restarted'', Leaf ''Service restarted.'') ]) ]"

definition str_system :: i18n where
  "str_system = Dict
    [ (''title'', Leaf ''System''),
      (''info_label'', Leaf ''Engine info''),
      (''df_label'', Leaf ''Disk usage''),
      (''prune_all_label'', Leaf ''Prune everything''),
      (''confirm'', Dict
         [ (''prune_all'', Leaf ''Prune all unused containers, images, volumes, networks, and build cache?'') ]),
      (''connect'', Dict
         [ (''header'', Leaf ''Connect an external tool''),
           (''copy_hint'', Leaf ''Copy the snippet into your tool's config.'') ]),
      (''account'', Dict
         [ (''rotate_token_label'', Leaf ''Rotate API token''),
           (''new_token_placeholder'', Leaf ''New token (min 16 chars)''),
           (''reset_config_label'', Leaf ''Reset configuration''),
           (''reset_confirm'', Leaf ''Reset config? This clears the token, Docker host, and registry list, and reopens the 5-minute setup window.'') ]) ]"

definition str_wizard :: i18n where
  "str_wizard = Dict
    [ (''title'', Leaf ''Welcome to SKIFF''),
      (''subtitle'', Leaf ''Configure a Docker host to get started.''),
      (''local_tab'', Leaf ''Local socket''),
      (''ssh_tab'', Leaf ''SSH tunnel''),
      (''ssh_label'', Leaf ''SSH target''),
      (''ssh_placeholder'', Leaf ''user@docker-host.example.com''),
      (''connect_button'', Leaf ''Connect''),
      (''token_label'', Leaf ''API token''),
      (''token_min_hint'', Leaf ''Minimum 16 characters.''),
      (''generate_token'', Leaf ''Generate''),
      (''copy_token'', Leaf ''Copy''),
      (''finish_button'', Leaf ''Finish setup''),
      (''toast'', Dict
         [ (''tunnel_ok'', Leaf ''Tunnel connected.''),
           (''config_saved'', Leaf ''Configuration saved.'') ]) ]"

definition str_reviewer :: i18n where
  "str_reviewer = Dict
    [ (''banner'', Leaf (''Reviewer profile '' @ em_dash @ '' mutations are disabled server-side. Destructive buttons are hidden; read-only actions still work.'')),
      (''confirm_enter'', Leaf ''Enter reviewer mode? All mutations will be rejected until the server is restarted. This cannot be undone from the UI.'') ]"

definition str_undo :: i18n where
  "str_undo = Dict
    [ (''toast'', Leaf ''Operation undone.''),
      (''confirm_toast'', Leaf ''Click to undo.''),
      (''expired'', Leaf ''Undo window expired.''),
      (''button'', Leaf ''Undo''),
      (''window_passed'', Leaf ''Undo window has passed''),
      (''deleted_suffix'', Leaf '' deleted''),
      (''action_in_progress'', Leaf ''Action already in progress''),
      (''pending_label'', Leaf ''{kind} will be deleted in {seconds}s''),
      (''pending_finalizing'', Leaf (''{kind}: finalizing delete'' @ ellipsis)) ]"

definition str_banner :: i18n where
  "str_banner = Dict
    [ (''setup_window_expired'', Leaf (''Setup window expired '' @ em_dash @ '' restart the server to try again.'')),
      (''setup_lockout'', Leaf (''Too many failed setup attempts '' @ em_dash @ '' try again in {seconds}s.'')),
      (''session_near_expiry'', Leaf ''Signing you out in {seconds}s for inactivity.''),
      (''session_absolute_near_expiry'', Leaf ''Session ends in {seconds}s. Save your work.''),
      (''stay_signed_in'', Leaf ''Stay signed in''),
      (''ws_auth_lockout'', Leaf (''WebSocket locked out '' @ em_dash @ '' try again in {seconds}s.'')),
      (''rate_limited'', Leaf (''Rate limited '' @ em_dash @ '' retry in {seconds}s.'')) ]"

definition str_wizard_2 :: i18n where
  "str_wizard_2 = Dict
    [ (''countdown'', Leaf ''{remaining} left'') ]"

definition skiff_strings :: i18n where
  "skiff_strings = Dict
    [ (''common'', str_common),
      (''nav'', str_nav),
      (''auth'', str_auth),
      (''ws'', str_ws),
      (''containers'', str_containers),
      (''images'', str_images),
      (''volumes'', str_volumes),
      (''networks'', str_networks),
      (''compose'', str_compose),
      (''system'', str_system),
      (''wizard'', str_wizard),
      (''reviewer'', str_reviewer),
      (''undo'', str_undo),
      (''banner'', str_banner),
      (''wizard'', str_wizard_2) ]"

lemmas bundle_defs = skiff_strings_def str_common_def str_nav_def str_auth_def str_ws_def
  str_containers_def str_images_def str_volumes_def str_networks_def str_compose_def
  str_system_def str_wizard_def str_reviewer_def str_undo_def str_banner_def str_wizard_2_def

section \<open>The keys the pages look up\<close>

text \<open>
  Every literal key of a \<open>t(...)\<close> call in app.js, pages/volumes.js and pages/wizard.js, with
  the names of the properties of its \<open>vars\<close> argument (none for a call without one).
\<close>

definition call_sites :: "(string \<times> string list) list" where
  "call_sites =
    [ (''undo.pending_label'', [''kind'', ''seconds'']), (''undo.button'', []), (''undo.toast'', []),
      (''undo.window_passed'', []), (''undo.pending_finalizing'', [''kind'']),
      (''undo.deleted_suffix'', []), (''undo.action_in_progress'', []),
      (''banner.session_near_expiry'', []), (''banner.stay_signed_in'', []),
      (''banner.session_absolute_near_expiry'', []), (''banner.ws_auth_lockout'', []),
      (''banner.rate_limited'', []), (''reviewer.confirm_enter'', []), (''reviewer.banner'', []),
      (''banner.setup_window_expired'', []), (''banner.setup_lockout'', [''seconds'']),
      (''common.loading'', []), (''volumes.modal.inspect_title'', [''name'']), (''common.close'', []),
      (''common.none'', []), (''volumes.columns.name'', []), (''volumes.columns.driver'', []),
      (''volumes.inspect.scope'', []), (''volumes.inspect.local_default'', []),
      (''volumes.columns.mountpoint'', []), (''volumes.columns.created'', []),
      (''volumes.inspect.usage_bytes'', []), (''volumes.inspect.ref_count'', []),
      (''volumes.inspect.labels'', []), (''volumes.inspect.options'', []),
      (''volumes.inspect.status'', []), (''volumes.inspect.used_by'', []), (''common.error'', []),
      (''volumes.title'', []), (''volumes.actions.create'', []), (''volumes.actions.prune'', []),
      (''volumes.confirm.prune'', []), (''volumes.description'', []),
      (''volumes.search_placeholder'', []), (''volumes.in_use'', []),
      (''volumes.columns.actions'', []), (''common.no_matches'', []), (''volumes.empty'', []),
      (''volumes.unused'', []), (''volumes.actions.inspect'', []), (''common.delete'', []),
      (''volumes.confirm.remove'', [''name'']), (''volumes.modal.create_title'', []),
      (''volumes.create_placeholder'', []), (''volumes.toast.created'', []),
      (''volumes.toast.pruned'', [''count'', ''size'']) ]"

text \<open>The template a key resolves to, if it resolves to a string.\<close>

definition template_of :: "i18n \<Rightarrow> string \<Rightarrow> string option" where
  "template_of dict key = (case walk dict (split_on CHR ''.'' key) of Some (Leaf s) \<Rightarrow> Some s | _ \<Rightarrow> None)"

definition unresolved :: "i18n \<Rightarrow> (string \<times> string list) list \<Rightarrow> string list" where
  "unresolved dict sites = filter (\<lambda>k. template_of dict k = None) (map fst sites)"

text \<open>
  A call site covers its template when every placeholder has a value among the call's \<open>vars\<close>,
  or is the \<open>seconds\<close> that the status banner itself fills in on every tick.
\<close>

definition covered :: "i18n \<Rightarrow> string \<times> string list \<Rightarrow> bool" where
  "covered dict site = (case template_of dict (fst site) of None \<Rightarrow> True
     | Some s \<Rightarrow> list_all (\<lambda>w. w \<in> set (snd site) \<or>
         (w = ''seconds'' \<and> starts_with ''banner.'' (fst site))) (placeholders s))"

lemma t_template: "template_of dict key = Some s \<Longrightarrow> t dict key (Some vs) = substitute vs s"
  by (auto simp: template_of_def t_def split: option.splits i18n.splits)

text \<open>
  Of the keys the pages pass to \<open>t\<close>, all resolve to a string of the English bundle except
  two, \<open>volumes.search_placeholder\<close> and \<open>common.no_matches\<close>, which the volumes page shows raw.
\<close>

theorem call_sites_resolve:
  "unresolved skiff_strings call_sites = [''volumes.search_placeholder'', ''common.no_matches'']"
  by code_simp

text \<open>
  The bundle declares \<open>wizard\<close> twice, so the second object hides the first: every key of the
  first one is looked up as itself, and only \<open>wizard.countdown\<close> resolves.
\<close>

theorem wizard_strings_shadowed:
  "t skiff_strings ''wizard.title'' None = ''wizard.title'' \<and>
   t skiff_strings ''wizard.toast.tunnel_ok'' None = ''wizard.toast.tunnel_ok'' \<and>
   unresolved skiff_strings
     (map (\<lambda>(k, v). (''wizard.'' @ k, [])) (case str_wizard of Dict kvs \<Rightarrow> kvs | Leaf _ \<Rightarrow> []))
     = map (\<lambda>(k, v). ''wizard.'' @ k) (case str_wizard of Dict kvs \<Rightarrow> kvs | Leaf _ \<Rightarrow> []) \<and>
   t skiff_strings ''wizard.countdown'' (Some [(''remaining'', ''4m 05s'')]) = ''4m 05s left''"
  by code_simp

text \<open>
  C20: placeholder substitution equals its reference reading: the template is cut once into
  literal characters and placeholders, each placeholder is replaced by its own value or kept,
  and the values are never scanned again; with no values the template is unchanged.
\<close>

theorem t_substitutes_once:
  assumes "template_of dict key = Some s"
  shows "t dict key (Some vars) = concat (map (seg_text (get_prop vars)) (segments s))
    \<and> t dict key (Some []) = t dict key None"
proof -
  have "t dict key None = s"
    using assms by (auto simp: template_of_def t_def split: option.splits i18n.splits)
  then show ?thesis
    using t_template [OF assms] by (simp add: substitute_segments [symmetric])
qed

theorem t_substitutes_once_witness:
  "t skiff_strings ''volumes.toast.pruned'' (Some [(''count'', ''{size}''), (''size'', ''3 MB'')])
    = ''Pruned {size} volumes, reclaimed 3 MB.''"
proof -
  have h: "template_of skiff_strings ''volumes.toast.pruned'' = Some ''Pruned {count} volumes, reclaimed {size}.''"
    by code_simp
  show ?thesis
    by (subst t_substitutes_once [OF h, THEN conjunct1]) code_simp
qed

text \<open>
  Every \<open>t\<close> call passes a value for each placeholder of the template it names (the status
  banner supplies \<open>seconds\<close> for the banner templates), so no raw placeholder reaches the user.
\<close>

theorem call_sites_covered: "list_all (covered skiff_strings) call_sites"
  by code_simp

end
