(* ===== verification/Json.thy ===== *)
theory Json
  imports Prelude
begin

text \<open>
  JSON values and the two shapes of \<open>JSON.stringify\<close> the pages use: compact for request bodies
  and with an indent of two for the inspect views. Numbers are integers.
\<close>

datatype json = JNull | JBool bool | JNum int | JStr string | JArr "json list"
  | JObj "(string \<times> json) list"

definition json_escape :: "char \<Rightarrow> string" where
  "json_escape c = (let n = (of_char c :: nat) in
     if n = 34 then [CHR 0x5C, CHR 0x22] else if n = 92 then [CHR 0x5C, CHR 0x5C]
     else if n = 10 then [CHR 0x5C, CHR ''n''] else if n = 13 then [CHR 0x5C, CHR ''r'']
     else if n = 9 then [CHR 0x5C, CHR ''t''] else if n = 8 then [CHR 0x5C, CHR ''b'']
     else if n = 12 then [CHR 0x5C, CHR ''f'']
     else if n < 32 then [CHR 0x5C, CHR ''u'', CHR ''0'', CHR ''0'', digit_char (n div 16),
       (if n mod 16 < 10 then digit_char (n mod 16) else char_of (87 + n mod 16))]
     else [c])"

definition json_quote :: "string \<Rightarrow> string" where
  "json_quote s = dquote @ concat (map json_escape s) @ dquote"

text \<open>\<open>JSON.stringify(v)\<close>\<close>

fun json_compact :: "json \<Rightarrow> string" where
  "json_compact JNull = ''null''"
| "json_compact (JBool b) = (if b then ''true'' else ''false'')"
| "json_compact (JNum i) = show_int i"
| "json_compact (JStr s) = json_quote s"
| "json_compact (JArr xs) = ''['' @ join '','' (map json_compact xs) @ '']''"
| "json_compact (JObj kvs) =
     ''{'' @ join '','' (map (\<lambda>(k, v). json_quote k @ '':'' @ json_compact v) kvs) @ ''}''"

definition spaces :: "nat \<Rightarrow> string" where
  "spaces n = replicate n CHR '' ''"

text \<open>\<open>JSON.stringify(v, null, 2)\<close>; the first argument is the current indentation.\<close>

fun json_pretty :: "nat \<Rightarrow> json \<Rightarrow> string" where
  "json_pretty i JNull = ''null''"
| "json_pretty i (JBool b) = (if b then ''true'' else ''false'')"
| "json_pretty i (JNum n) = show_int n"
| "json_pretty i (JStr s) = json_quote s"
| "json_pretty i (JArr xs) = (if xs = [] then ''[]''
     else ''['' @ newline @ join ('','' @ newline) (map (\<lambda>x. spaces (i + 2) @ json_pretty (i + 2) x) xs)
       @ newline @ spaces i @ '']'')"
| "json_pretty i (JObj kvs) = (if kvs = [] then ''{}''
     else ''{'' @ newline @ join ('','' @ newline)
         (map (\<lambda>(k, v). spaces (i + 2) @ json_quote k @ '': '' @ json_pretty (i + 2) v) kvs)
       @ newline @ spaces i @ ''}'')"

text \<open>Reading a property of a response object; a missing one is \<open>undefined\<close>, \<open>None\<close>.\<close>

fun json_get :: "json \<Rightarrow> string \<Rightarrow> json option" where
  "json_get (JObj kvs) k = map_of (rev kvs) k"
| "json_get _ k = None"

text \<open>JavaScript truthiness of a value read from a response.\<close>

fun truthy :: "json option \<Rightarrow> bool" where
  "truthy None = False"
| "truthy (Some JNull) = False"
| "truthy (Some (JBool b)) = b"
| "truthy (Some (JNum i)) = (i \<noteq> 0)"
| "truthy (Some (JStr s)) = (s \<noteq> [])"
| "truthy (Some (JArr _)) = True"
| "truthy (Some (JObj _)) = True"

lemma truthy_obj_or_arr [simp]: "truthy (Some (JObj kvs))" "truthy (Some (JArr xs))"
  by simp_all

end
