(* ===== verification/SingleFlight.thy ===== *)
theory SingleFlight
  imports Prelude
begin

text \<open>
  The contract several components share: an operation that is refused while an earlier one is
  under way. A client (the user clicking) sends events; the provider keeps a busy flag and the
  number of operations that are out. The contract is proved once for any run of events and
  interpreted where it is provided: the form modal, the action buttons, \<open>guardedAction\<close>, the
  detail polls.
\<close>

fun run_events :: "('s \<Rightarrow> 'e \<Rightarrow> 's) \<Rightarrow> 's \<Rightarrow> 'e list \<Rightarrow> 's" where
  "run_events step s [] = s"
| "run_events step s (e # es) = run_events step (step s e) es"

lemma run_events_append [simp]:
  "run_events step s (xs @ ys) = run_events step (run_events step s xs) ys"
  by (induction xs arbitrary: s) simp_all

lemma run_events_invariant:
  "P s \<Longrightarrow> (\<And>s e. P s \<Longrightarrow> P (step s e)) \<Longrightarrow> P (run_events step s es)"
  by (induction es arbitrary: s) simp_all

locale single_flight =
  fixes step :: "'s \<Rightarrow> 'e \<Rightarrow> 's"
    and busy :: "'s \<Rightarrow> bool"
    and out :: "'s \<Rightarrow> nat"
  assumes step_busy: "busy s \<Longrightarrow> out s = 1 \<Longrightarrow>
      (busy (step s e) \<and> out (step s e) = 1) \<or> (\<not> busy (step s e) \<and> out (step s e) = 0)"
    and step_idle: "\<not> busy s \<Longrightarrow> out s = 0 \<Longrightarrow>
      (busy (step s e) \<and> out (step s e) = 1) \<or> (\<not> busy (step s e) \<and> out (step s e) = 0)"
begin

lemma run_flag: "out s = (if busy s then 1 else 0) \<Longrightarrow>
    out (run_events step s es) = (if busy (run_events step s es) then 1 else 0)"
proof (rule run_events_invariant [where P = "\<lambda>s. out s = (if busy s then 1 else 0)"])
  fix s e
  assume "out s = (if busy s then 1 else 0)"
  then show "out (step s e) = (if busy (step s e) then 1 else 0)"
    using step_busy [of s e] step_idle [of s e] by (cases "busy s") auto
qed

lemma run_at_most_one: "out s = (if busy s then 1 else 0) \<Longrightarrow> out (run_events step s es) \<le> 1"
  using run_flag [of s es] by simp

end

end
