(* ===== verification/Store.thy ===== *)
theory Store
  imports SingleFlight
begin

text \<open>
  The contract of the keyed tables of the program, each a JavaScript \<open>Map\<close> or object used as one:
  the status banner's entries, the terminal frames by container, the page registry. Clients write and
  delete under their own key; the laws say each sees its own last write and nobody else's. The
  refinement lemma relates any run of writes to the same run on a plain map.
\<close>

section \<open>Insertion-ordered tables\<close>

text \<open>\<open>Map.prototype.set\<close>: a present key keeps its position, a new one goes to the end.\<close>

definition alist_set :: "'a \<Rightarrow> 'b \<Rightarrow> ('a \<times> 'b) list \<Rightarrow> ('a \<times> 'b) list" where
  "alist_set k v kvs = (if k \<in> fst ` set kvs then map (\<lambda>(a, b). if a = k then (a, v) else (a, b)) kvs
     else kvs @ [(k, v)])"

definition alist_del :: "'a \<Rightarrow> ('a \<times> 'b) list \<Rightarrow> ('a \<times> 'b) list" where
  "alist_del k kvs = filter (\<lambda>kv. fst kv \<noteq> k) kvs"

lemma map_of_alist_set_present:
  "k \<in> fst ` set kvs \<Longrightarrow>
   map_of (map (\<lambda>(a, b). if a = k then (a, v) else (a, b)) kvs) = (map_of kvs)(k \<mapsto> v)"
proof (induction kvs)
  case (Cons kv kvs)
  show ?case
  proof (cases "k \<in> fst ` set kvs")
    case True
    with Cons show ?thesis by (cases kv) (auto simp: fun_eq_iff)
  next
    case False
    then have "map (\<lambda>(a, b). if a = k then (a, v) else (a, b)) kvs = kvs"
      by (intro map_idI) force
    with Cons False show ?thesis by (cases kv) auto
  qed
qed simp

lemma map_of_alist_set: "map_of (alist_set k v kvs) = (map_of kvs)(k \<mapsto> v)"
proof (cases "k \<in> fst ` set kvs")
  case True
  then show ?thesis by (simp add: alist_set_def map_of_alist_set_present)
next
  case False
  then have "map_of kvs k = None" by (simp add: map_of_eq_None_iff)
  with False show ?thesis by (auto simp: alist_set_def fun_eq_iff map_add_def split: option.splits)
qed

lemma map_of_alist_del: "map_of (alist_del k kvs) = (map_of kvs)(k := None)"
  by (induction kvs) (auto simp: alist_del_def fun_eq_iff)

lemma fst_alist_set: "map fst (alist_set k v kvs) =
    (if k \<in> fst ` set kvs then map fst kvs else map fst kvs @ [k])"
  by (auto simp: alist_set_def split: prod.splits)

lemma distinct_alist_set: "distinct (map fst kvs) \<Longrightarrow> distinct (map fst (alist_set k v kvs))"
  by (auto simp: fst_alist_set)

lemma distinct_alist_del: "distinct (map fst kvs) \<Longrightarrow> distinct (map fst (alist_del k kvs))"
  by (simp add: alist_del_def distinct_map_filter)

lemma set_alist_set:
  assumes "distinct (map fst kvs)"
  shows "set (alist_set k v kvs) = insert (k, v) {kv \<in> set kvs. fst kv \<noteq> k}"
proof (rule set_eqI)
  fix kv
  have "kv \<in> set (alist_set k v kvs) \<longleftrightarrow> map_of (alist_set k v kvs) (fst kv) = Some (snd kv)"
    using map_of_eq_Some_iff [OF distinct_alist_set [OF assms], of k v "fst kv" "snd kv"] by simp
  also have "\<dots> \<longleftrightarrow> kv = (k, v) \<or> fst kv \<noteq> k \<and> kv \<in> set kvs"
    using map_of_eq_Some_iff [OF assms, of "fst kv" "snd kv"]
    by (cases kv) (auto simp: map_of_alist_set)
  finally show "kv \<in> set (alist_set k v kvs) \<longleftrightarrow> kv \<in> insert (k, v) {kv \<in> set kvs. fst kv \<noteq> k}"
    by auto
qed

lemma set_alist_del [simp]: "set (alist_del k kvs) = {kv \<in> set kvs. fst kv \<noteq> k}"
  by (simp add: alist_del_def)

section \<open>The contract\<close>

datatype 'v store_op = Put string 'v | Del string

fun op_key :: "'v store_op \<Rightarrow> string" where
  "op_key (Put k v) = k"
| "op_key (Del k) = k"

fun map_op :: "(string \<rightharpoonup> 'v) \<Rightarrow> 'v store_op \<Rightarrow> (string \<rightharpoonup> 'v)" where
  "map_op m (Put k v) = m(k \<mapsto> v)"
| "map_op m (Del k) = m(k := None)"

locale keyed_store =
  fixes lookup :: "'s \<Rightarrow> string \<Rightarrow> 'v option"
    and put :: "string \<Rightarrow> 'v \<Rightarrow> 's \<Rightarrow> 's"
    and del :: "string \<Rightarrow> 's \<Rightarrow> 's"
  assumes lookup_put: "lookup (put k v s) k' = (if k' = k then Some v else lookup s k')"
    and lookup_del: "lookup (del k s) k' = (if k' = k then None else lookup s k')"
begin

fun store_step :: "'s \<Rightarrow> 'v store_op \<Rightarrow> 's" where
  "store_step s (Put k v) = put k v s"
| "store_step s (Del k) = del k s"

lemma store_step_refines: "lookup (store_step s e) = map_op (lookup s) e"
  by (cases e) (auto simp: lookup_put lookup_del)

lemma store_refines_map: "lookup (run_events store_step s es) = run_events map_op (lookup s) es"
  by (induction es arbitrary: s) (simp_all add: store_step_refines)

lemma other_keys_untouched:
  "k \<notin> op_key ` set es \<Longrightarrow> lookup (run_events store_step s es) k = lookup s k"
proof (induction es arbitrary: s)
  case (Cons e es)
  then have "op_key e \<noteq> k" and "k \<notin> op_key ` set es" by auto
  moreover have "lookup (store_step s e) k = lookup s k"
    using \<open>op_key e \<noteq> k\<close> by (cases e) (auto simp: lookup_put lookup_del)
  ultimately show ?case using Cons by simp
qed simp

lemma last_put_wins:
  "k \<notin> op_key ` set es \<Longrightarrow> lookup (run_events store_step s (Put k v # es)) k = Some v"
  by (simp add: other_keys_untouched lookup_put)

end

interpretation alist_store: keyed_store map_of alist_set alist_del
  by unfold_locales (simp_all add: map_of_alist_set map_of_alist_del)

end
