(* ===== verification/Dom.thy ===== *)
theory Dom
  imports Json Store
begin

text \<open>
  The DOM builder \<open>UI.el\<close> of ui.js and the widgets made of it. A node is a tree: text set
  through \<open>textContent\<close> or \<open>createTextNode\<close>, markup parsed from a string assigned to
  \<open>innerHTML\<close> (\<open>Raw\<close>), or an element. Listeners are values of a type \<open>'h\<close> that each use
  instantiates with the actions its handlers perform. The text given as \<open>style\<close> is kept with the
  element; CspStyle models the stylesheet rule it is routed through.
\<close>

section \<open>Nodes\<close>

record 'h elem =
  tag :: string
  class_name :: string
  attributes :: "(string \<times> string) list"
  data_set :: "(string \<times> string) list"
  css :: "string option"
  listeners :: "(string \<times> 'h) list"

datatype 'h node = Text string | Raw string | Elem "'h elem" "'h node list"

text \<open>Attribute values and children as the callers of \<open>el\<close> pass them.\<close>

datatype 'h aval = ANull | ABool bool | ANum int | AStr string
  | ADict "(string \<times> string) list" | AOn "(string \<times> 'h) list"

datatype 'h child = CNull | CBool bool | CNum int | CStr string | CNode "'h node"
  | CList "'h child list"

text \<open>
  The second argument of \<open>el\<close> is meant to be an object or null. It is read with
  \<open>Object.keys\<close>: a DOM node passed there has no own enumerable keys, an array has its indices.
\<close>

datatype 'h attr_arg = NoAttrs | Attrs "(string \<times> 'h aval) list" | NodeArg "'h node"
  | ListArg "'h child list"

datatype dom_error = InvalidCharacterError string | TypeError string

section \<open>\<open>UI.el\<close>\<close>

fun aval_text :: "'h aval \<Rightarrow> string" where
  "aval_text ANull = ''null''"
| "aval_text (ABool b) = (if b then ''true'' else ''false'')"
| "aval_text (ANum i) = show_int i"
| "aval_text (AStr s) = s"
| "aval_text (ADict _) = ''[object Object]''"
| "aval_text (AOn _) = ''[object Object]''"

definition text_nodes :: "string \<Rightarrow> 'h node list" where
  "text_nodes s = (if s = [] then [] else [Text s])"

text \<open>\<open>valid\<close> says which attribute names \<open>setAttribute\<close> accepts; it throws on the others.\<close>

definition set_attribute ::
  "(string \<Rightarrow> bool) \<Rightarrow> string \<Rightarrow> string \<Rightarrow> 'h elem \<Rightarrow> dom_error + 'h elem" where
  "set_attribute valid k v e = (if valid k then Inr (e\<lparr>attributes := alist_set k v (attributes e)\<rparr>)
     else Inl (InvalidCharacterError k))"

fun apply_attr ::
  "(string \<Rightarrow> bool) \<Rightarrow> 'h elem \<times> 'h node list \<Rightarrow> string \<times> 'h aval \<Rightarrow> dom_error + 'h elem \<times> 'h node list"
where
  "apply_attr valid (e, kids) (k, v) =
     (if k = ''class'' then Inr (e, kids)
      else if v = ANull \<or> v = ABool False then Inr (e, kids)
      else if k = ''style'' then Inr (e\<lparr>css := Some (aval_text v)\<rparr>, kids)
      else if k = ''text'' then Inr (e, text_nodes (aval_text v))
      else if k = ''html'' then Inr (e, [Raw (aval_text v)])
      else if k = ''dataset'' then
        (case v of ADict kvs \<Rightarrow> Inr (e\<lparr>data_set := data_set e @ kvs\<rparr>, kids) | _ \<Rightarrow> Inr (e, kids))
      else if k = ''on'' then
        (case v of AOn hs \<Rightarrow> Inr (e\<lparr>listeners := listeners e @ hs\<rparr>, kids) | _ \<Rightarrow> Inr (e, kids))
      else (case set_attribute valid k (aval_text v) e of Inl x \<Rightarrow> Inl x | Inr e' \<Rightarrow> Inr (e', kids)))"

fun apply_attrs ::
  "(string \<Rightarrow> bool) \<Rightarrow> 'h elem \<times> 'h node list \<Rightarrow> (string \<times> 'h aval) list \<Rightarrow> dom_error + 'h elem \<times> 'h node list"
where
  "apply_attrs valid st [] = Inr st"
| "apply_attrs valid st (kv # kvs) =
     (case apply_attr valid st kv of Inl x \<Rightarrow> Inl x | Inr st' \<Rightarrow> apply_attrs valid st' kvs)"

text \<open>\<open>children.flat(Infinity)\<close>, with the skipping of null and false.\<close>

fun child_nodes :: "'h child \<Rightarrow> dom_error + 'h node list" where
  "child_nodes CNull = Inr []"
| "child_nodes (CBool b) = (if b then Inl (TypeError ''appendChild'') else Inr [])"
| "child_nodes (CNum i) = Inr [Text (show_int i)]"
| "child_nodes (CStr s) = Inr [Text s]"
| "child_nodes (CNode n) = Inr [n]"
| "child_nodes (CList []) = Inr []"
| "child_nodes (CList (c # cs)) =
     (case child_nodes c of Inl x \<Rightarrow> Inl x
      | Inr ns \<Rightarrow> (case child_nodes (CList cs) of Inl x \<Rightarrow> Inl x | Inr ms \<Rightarrow> Inr (ns @ ms)))"

definition new_elem :: "string \<Rightarrow> 'h elem" where
  "new_elem tg = \<lparr>tag = tg, class_name = [], attributes = [], data_set = [], css = None, listeners = []\<rparr>"

definition class_of :: "(string \<times> 'h aval) list \<Rightarrow> string" where
  "class_of kvs = (case map_of kvs ''class'' of Some (AStr s) \<Rightarrow> s | _ \<Rightarrow> [])"

fun child_text :: "'h child \<Rightarrow> string" where
  "child_text (CStr s) = s"
| "child_text (CNum i) = show_int i"
| "child_text _ = ''[object HTMLElement]''"

fun own_keys :: "'h attr_arg \<Rightarrow> (string \<times> 'h aval) list" where
  "own_keys NoAttrs = []"
| "own_keys (Attrs kvs) = kvs"
| "own_keys (NodeArg n) = []"
| "own_keys (ListArg cs) = map (\<lambda>(i, c). (show_nat i, AStr (child_text c))) (enumerate 0 cs)"

definition el :: "(string \<Rightarrow> bool) \<Rightarrow> string \<Rightarrow> 'h attr_arg \<Rightarrow> 'h child list \<Rightarrow> dom_error + 'h node" where
  "el valid tg attrs children =
     (case apply_attrs valid ((new_elem tg)\<lparr>class_name := class_of (own_keys attrs)\<rparr>, []) (own_keys attrs) of
        Inl x \<Rightarrow> Inl x
      | Inr (e, kids) \<Rightarrow> (case child_nodes (CList children) of
          Inl x \<Rightarrow> Inl x | Inr ns \<Rightarrow> Inr (Elem e (kids @ ns))))"

text \<open>No markup parsed from a string anywhere in the tree.\<close>

fun raw_free :: "'h node \<Rightarrow> bool" where
  "raw_free (Text s) = True"
| "raw_free (Raw s) = False"
| "raw_free (Elem e ns) = list_all raw_free ns"

fun child_raw_free :: "'h child \<Rightarrow> bool" where
  "child_raw_free (CNode n) = raw_free n"
| "child_raw_free (CList cs) = list_all child_raw_free cs"
| "child_raw_free _ = True"

lemma text_nodes_raw_free [simp]: "list_all raw_free (text_nodes s)"
  by (simp add: text_nodes_def)

lemma apply_attr_kids:
  assumes "apply_attr valid (e, kids) (k, v) = Inr (e', kids')" and "k \<noteq> ''html''"
  shows "kids' = kids \<or> kids' = text_nodes (aval_text v)"
proof (cases "k = ''text''")
  case True
  with assms show ?thesis by (simp split: if_split_asm)
next
  case False
  then show ?thesis using assms
    by (simp only: apply_attr.simps if_False) (cases v; simp split: if_split_asm sum.split_asm)
qed

declare apply_attr.simps [simp del]

lemma apply_attr_raw_free:
  "apply_attr valid st (k, v) = Inr st' \<Longrightarrow> k \<noteq> ''html'' \<Longrightarrow> list_all raw_free (snd st) \<Longrightarrow>
   list_all raw_free (snd st')"
  using apply_attr_kids [of valid "fst st" "snd st" k v "fst st'" "snd st'"] by auto

lemma apply_attrs_raw_free:
  "apply_attrs valid st kvs = Inr st' \<Longrightarrow> ''html'' \<notin> fst ` set kvs \<Longrightarrow> list_all raw_free (snd st) \<Longrightarrow>
   list_all raw_free (snd st')"
proof (induction kvs arbitrary: st)
  case (Cons kv kvs)
  obtain k v where kv: "kv = (k, v)" by (cases kv)
  with Cons.prems(2) have k: "k \<noteq> ''html''" and rest: "''html'' \<notin> fst ` set kvs" by auto
  from Cons.prems(1) obtain st1 where st1: "apply_attr valid st (k, v) = Inr st1"
    and more: "apply_attrs valid st1 kvs = Inr st'"
    unfolding kv by (auto split: sum.splits)
  from st1 k Cons.prems(3) have "list_all raw_free (snd st1)" by (rule apply_attr_raw_free)
  with more rest show ?case by (rule Cons.IH)
qed simp

lemma child_nodes_raw_free:
  "child_nodes c = Inr ns \<Longrightarrow> child_raw_free c \<Longrightarrow> list_all raw_free ns"
  by (induction c arbitrary: ns rule: child_nodes.induct) (auto split: if_splits sum.splits)

lemma el_raw_free:
  assumes "el valid tg attrs children = Inr n" and "''html'' \<notin> fst ` set (own_keys attrs)"
    and "list_all child_raw_free children"
  shows "raw_free n"
  using assms apply_attrs_raw_free [of valid _ "own_keys attrs"]
    child_nodes_raw_free [of "CList children"]
  by (fastforce simp: el_def split: sum.splits prod.splits)

text \<open>Elements of a call whose attributes are all accepted: what the widgets below produce.\<close>

lemma el_NoAttrs [simp]: "el valid tg NoAttrs cs =
    (case child_nodes (CList cs) of Inl x \<Rightarrow> Inl x | Inr ns \<Rightarrow> Inr (Elem (new_elem tg) ns))"
  by (simp add: el_def class_of_def new_elem_def split: sum.splits)

lemma el_NodeArg [simp]: "el valid tg (NodeArg n) cs = el valid tg NoAttrs cs"
  by (simp add: el_def)

section \<open>\<open>esc\<close>\<close>

text \<open>
  \<open>esc\<close> reads back through \<open>innerHTML\<close> what it wrote through \<open>textContent\<close>, which escapes the
  ampersand, the angle brackets and the no-break space (two bytes in UTF-8).
\<close>

fun esc :: "string \<Rightarrow> string" where
  "esc [] = []"
| "esc (c # s) =
     (if c = CHR ''&'' then ''&amp;'' @ esc s
      else if c = CHR ''<'' then ''&lt;'' @ esc s
      else if c = CHR ''>'' then ''&gt;'' @ esc s
      else (case s of d # s' \<Rightarrow> if c = CHR 0xC2 \<and> d = CHR 0xA0 then ''&nbsp;'' @ esc s' else c # esc s
            | [] \<Rightarrow> [c]))"

lemma esc_no_angle: "CHR ''<'' \<notin> set (esc s) \<and> CHR ''>'' \<notin> set (esc s)"
  by (induction s rule: esc.induct) (auto split: list.splits)

end
