(* ===== verification/Widgets.thy ===== *)
theory Widgets
  imports Dom
begin

text \<open>
  The display widgets of ui.js built on \<open>el\<close>: key/value rows and sections, the inspect panel, the
  help icon, the copy blocks and the declarative table. Each is written with the calls of \<open>el\<close> the
  code makes, so an argument passed in the wrong position behaves as it does there.
\<close>

section \<open>Inspect rows\<close>

text \<open>The value of a row: an object or array, a DOM node, null or undefined, or a primitive.\<close>

datatype 'h kv_value = KvObj json | KvNode "'h node" | KvNullish | KvPrim string

definition kv_row :: "(string \<Rightarrow> bool) \<Rightarrow> string \<Rightarrow> 'h kv_value \<Rightarrow> dom_error + 'h node" where
  "kv_row valid label value =
     res_bind
       (case value of
          KvObj j \<Rightarrow> el valid ''div'' (Attrs [(''class'', AStr ''v mono''), (''text'', AStr (json_pretty 0 j))]) []
        | KvNode n \<Rightarrow> el valid ''div'' (Attrs [(''class'', AStr ''v'')]) [CNode n]
        | KvNullish \<Rightarrow> el valid ''div'' (Attrs [(''class'', AStr ''v mono''), (''text'', AStr [])]) []
        | KvPrim s \<Rightarrow> el valid ''div'' (Attrs [(''class'', AStr ''v mono''), (''text'', AStr s)]) [])
       (\<lambda>v. res_bind (el valid ''div'' (Attrs [(''class'', AStr ''k''), (''text'', AStr label)]) [])
         (\<lambda>k. el valid ''div'' (Attrs [(''class'', AStr ''inspect-kv'')]) [CNode k, CNode v]))"

text \<open>\<open>sec.appendChild(node)\<close>\<close>

fun append_children :: "'h node \<Rightarrow> 'h node list \<Rightarrow> 'h node" where
  "append_children (Elem e ns) ms = Elem e (ns @ ms)"
| "append_children n ms = n"

definition kv_section ::
  "(string \<Rightarrow> bool) \<Rightarrow> string \<Rightarrow> (string \<times> 'h kv_value) list \<Rightarrow> dom_error + 'h node" where
  "kv_section valid title entries =
     res_bind (el valid ''h4'' (Attrs [(''text'', AStr title)]) []) (\<lambda>h.
     res_bind (el valid ''div'' (Attrs [(''class'', AStr ''inspect-section'')]) [CNode h]) (\<lambda>sec.
     res_bind (res_map (\<lambda>(l, v). kv_row valid l v) entries) (\<lambda>rows.
     Inr (append_children sec rows))))"

text \<open>\<open>inspect({sections, actions})\<close>; \<open>actions\<close> is \<open>None\<close> when it is not an array.\<close>

definition inspect ::
  "(string \<Rightarrow> bool) \<Rightarrow> (string \<times> (string \<times> 'h kv_value) list) list \<Rightarrow> 'h child list option \<Rightarrow>
   dom_error + 'h node" where
  "inspect valid sections actions =
     res_bind (el valid ''div'' (Attrs [(''class'', AStr ''inspect-panel'')]) []) (\<lambda>panel.
     res_bind (res_map (\<lambda>(t, es). kv_section valid t es) sections) (\<lambda>secs.
     (case actions of
        Some (a # as) \<Rightarrow>
          res_bind (el valid ''div'' (Attrs [(''class'', AStr ''inspect-actions'')]) [CList (a # as)])
            (\<lambda>bar. Inr (append_children panel (secs @ [bar])))
      | _ \<Rightarrow> Inr (append_children panel secs))))"

definition help_icon :: "(string \<Rightarrow> bool) \<Rightarrow> string \<Rightarrow> dom_error + 'h node" where
  "help_icon valid tooltip = el valid ''span'' (Attrs
     [(''class'', AStr ''inline-help''), (''role'', AStr ''img''), (''aria-label'', AStr tooltip),
      (''title'', AStr tooltip), (''text'', AStr ''i'')]) []"

section \<open>Copy blocks\<close>

text \<open>
  \<open>copy\<close>: the clipboard API when it is there (it may still reject), else a hidden text area and
  \<open>execCommand\<close>, which may throw. Exactly one of the two callbacks is due.
\<close>

record copy_env =
  has_clipboard :: bool
  clipboard_resolves :: bool
  exec_throws :: bool

datatype copy_result = CopySuccess | CopyFallback

definition copy_fallback :: "copy_env \<Rightarrow> copy_result" where
  "copy_fallback env = (if exec_throws env then CopyFallback else CopySuccess)"

definition copy_text :: "copy_env \<Rightarrow> copy_result" where
  "copy_text env = (if has_clipboard env then (if clipboard_resolves env then CopySuccess else copy_fallback env)
     else copy_fallback env)"

text \<open>The button's label right after the click and 1500 ms later.\<close>

definition select_label :: string where
  "select_label = ''Select '' @ [CHR 0xE2, CHR 0x8C, CHR 0x98, CHR ''C'']"

definition copy_label :: "copy_result \<Rightarrow> string \<times> string" where
  "copy_label r = (case r of CopySuccess \<Rightarrow> (''Copied!'', ''Copy'') | CopyFallback \<Rightarrow> (select_label, select_label))"

datatype copy_action = CopyClick string

definition label_child :: "(string \<Rightarrow> bool) \<Rightarrow> string option \<Rightarrow> dom_error + 'h child" where
  "label_child valid label = (case label of None \<Rightarrow> Inr CNull
     | Some l \<Rightarrow> (if l = [] then Inr (CStr [])
         else map_sum id CNode (el valid ''div'' (Attrs
           [(''style'', AStr ''font-size:11px;color:var(--muted);margin-bottom:3px;font-weight:500''),
            (''text'', AStr l)]) [])))"

definition copy_cmd :: "(string \<Rightarrow> bool) \<Rightarrow> string \<Rightarrow> string option \<Rightarrow> dom_error + copy_action node" where
  "copy_cmd valid text label =
     res_bind (el valid ''button'' (Attrs [(''class'', AStr ''btn small''), (''type'', AStr ''button''),
         (''text'', AStr ''Copy''), (''on'', AOn [(''click'', CopyClick text)])]) []) (\<lambda>btn.
     res_bind (el valid ''code'' (Attrs
        [(''style'', AStr (''flex:1;background:var(--bg-elevated);color:var(--text);border:1px solid var(--border);''
           @ ''border-radius:6px;padding:6px 10px;font-size:12px;font-family:inherit;''
           @ ''white-space:nowrap;overflow-x:auto'')),
         (''text'', AStr text)]) []) (\<lambda>code.
     res_bind (label_child valid label) (\<lambda>lc.
     res_bind (el valid ''div'' (Attrs [(''style'', AStr ''display:flex;gap:6px;align-items:center'')])
         [CNode code, CNode btn]) (\<lambda>row.
     el valid ''div'' (Attrs [(''style'', AStr ''margin:4px 0'')]) [lc, CNode row]))))"

definition copy_block :: "(string \<Rightarrow> bool) \<Rightarrow> string \<Rightarrow> string option \<Rightarrow> dom_error + copy_action node" where
  "copy_block valid text label =
     res_bind (el valid ''button'' (Attrs [(''class'', AStr ''btn small''), (''type'', AStr ''button''),
         (''text'', AStr ''Copy''), (''style'', AStr ''position:absolute;top:6px;right:6px''),
         (''on'', AOn [(''click'', CopyClick text)])]) []) (\<lambda>btn.
     res_bind (el valid ''pre'' (Attrs
        [(''style'', AStr (''background:var(--bg-elevated);color:var(--text);border:1px solid var(--border);''
           @ ''border-radius:6px;padding:10px 12px;font-size:12px;white-space:pre;''
           @ ''overflow-x:auto;margin:0;max-height:260px;overflow-y:auto'')),
         (''text'', AStr text)]) []) (\<lambda>pre.
     res_bind (label_child valid label) (\<lambda>lc.
     res_bind (el valid ''div'' (Attrs [(''style'', AStr ''position:relative'')])
         [CNode pre, CNode btn]) (\<lambda>row.
     el valid ''div'' (Attrs [(''style'', AStr ''margin:4px 0'')]) [lc, CNode row]))))"

section \<open>The declarative table\<close>

datatype 'h cell = CellNode "'h node" | CellNull | CellText string

record ('h, 'r) column =
  col_key :: string
  col_label :: string
  col_render :: "('r \<Rightarrow> 'h cell) option"

record ('h, 'r) table_spec =
  columns :: "('h, 'r) column list"
  rows :: "'r list"
  row_actions :: "('r \<Rightarrow> 'h child list) option"
  empty_message :: string

definition td_cell :: "(string \<Rightarrow> bool) \<Rightarrow> ('r \<Rightarrow> string \<Rightarrow> string option) \<Rightarrow> 'r \<Rightarrow> ('h, 'r) column \<Rightarrow>
  dom_error + 'h node" where
  "td_cell valid get row c = (case col_render c of
      Some f \<Rightarrow> (case f row of
          CellNode n \<Rightarrow> el valid ''td'' (Attrs []) [CNode n]
        | CellNull \<Rightarrow> el valid ''td'' (Attrs [(''text'', AStr [])]) []
        | CellText s \<Rightarrow> el valid ''td'' (Attrs [(''text'', AStr s)]) [])
    | None \<Rightarrow> el valid ''td'' (Attrs [(''text'', AStr (case get row (col_key c) of None \<Rightarrow> [] | Some s \<Rightarrow> s))]) [])"

definition table_row :: "(string \<Rightarrow> bool) \<Rightarrow> ('r \<Rightarrow> string \<Rightarrow> string option) \<Rightarrow> ('h, 'r) table_spec \<Rightarrow> 'r \<Rightarrow>
  dom_error + 'h node" where
  "table_row valid get spec row =
     res_bind (res_map (td_cell valid get row) (columns spec)) (\<lambda>tds.
     res_bind (case row_actions spec of None \<Rightarrow> Inr CNull
        | Some f \<Rightarrow> map_sum id CNode (el valid ''td'' (Attrs [(''class'', AStr ''actions-col'')]) [CList (f row)]))
       (\<lambda>act. el valid ''tr'' (ListArg (map CNode tds)) [act]))"

definition table_head :: "(string \<Rightarrow> bool) \<Rightarrow> ('h, 'r) table_spec \<Rightarrow> dom_error + 'h node" where
  "table_head valid spec =
     res_bind (res_map (\<lambda>c. el valid ''th'' (Attrs [(''text'', AStr (or_str (col_label c) (col_key c)))]) [])
       (columns spec)) (\<lambda>ths.
     res_bind (case row_actions spec of None \<Rightarrow> Inr CNull
        | Some f \<Rightarrow> map_sum id CNode (el valid ''th''
            (Attrs [(''text'', AStr ''Actions''), (''class'', AStr ''actions-col'')]) [])) (\<lambda>act.
     res_bind (el valid ''tr'' (ListArg (map CNode ths)) [act]) (\<lambda>tr.
     el valid ''thead'' (NodeArg tr) [])))"

definition ui_table :: "(string \<Rightarrow> bool) \<Rightarrow> ('r \<Rightarrow> string \<Rightarrow> string option) \<Rightarrow> ('h, 'r) table_spec \<Rightarrow>
  dom_error + 'h node" where
  "ui_table valid get spec =
     (if rows spec = [] then
        el valid ''div'' (Attrs [(''class'', AStr ''ui-table-empty''),
          (''text'', AStr (or_str (empty_message spec) ''No items''))]) []
      else
        res_bind (table_head valid spec) (\<lambda>head.
        res_bind (res_bind (res_map (table_row valid get spec) (rows spec))
            (\<lambda>trs. el valid ''tbody'' (ListArg (map CNode trs)) [])) (\<lambda>body.
        res_bind (el valid ''table'' (Attrs []) [CNode head, CNode body]) (\<lambda>tab.
        el valid ''div'' (Attrs [(''class'', AStr ''ui-table'')]) [CNode tab]))))"

text \<open>The \<open>textContent\<close> of a node.\<close>

fun text_content :: "'h node \<Rightarrow> string" where
  "text_content (Text s) = s"
| "text_content (Raw s) = s"
| "text_content (Elem e ns) = concat (map text_content ns)"

section \<open>Lemmas\<close>

lemmas apply_attr_eval = apply_attr.simps set_attribute_def

lemma el_class [simp]: "el valid tg (Attrs [(''class'', AStr c)]) cs =
    res_bind (child_nodes (CList cs)) (\<lambda>ns. Inr (Elem ((new_elem tg)\<lparr>class_name := c\<rparr>) ns))"
  by (simp add: el_def class_of_def apply_attr.simps res_bind_def split: sum.splits)

lemma el_text [simp]: "el valid tg (Attrs [(''text'', AStr s)]) [] = Inr (Elem (new_elem tg) (text_nodes s))"
  by (simp add: el_def class_of_def apply_attr.simps new_elem_def)

lemma el_class_text [simp]: "el valid tg (Attrs [(''class'', AStr c), (''text'', AStr s)]) [] =
    Inr (Elem ((new_elem tg)\<lparr>class_name := c\<rparr>) (text_nodes s))"
  by (simp add: el_def class_of_def apply_attr.simps)

lemma el_empty_attrs [simp]: "el valid tg (Attrs []) cs =
    res_bind (child_nodes (CList cs)) (\<lambda>ns. Inr (Elem (new_elem tg) ns))"
  by (simp add: el_def class_of_def new_elem_def res_bind_def split: sum.splits)

lemma kv_row_total: "\<exists>v. kv_row valid l value = Inr (Elem ((new_elem ''div'')\<lparr>class_name := ''inspect-kv''\<rparr>)
    [Elem ((new_elem ''div'')\<lparr>class_name := ''k''\<rparr>) (text_nodes l), v])
    \<and> (raw_free v \<longleftrightarrow> (case value of KvNode n \<Rightarrow> raw_free n | _ \<Rightarrow> True))"
  by (cases "value") (simp_all add: kv_row_def)

lemma kv_row_raw_free:
  "(case value of KvNode n \<Rightarrow> raw_free n | _ \<Rightarrow> True) \<Longrightarrow> kv_row valid l value = Inr r \<Longrightarrow> raw_free r"
  using kv_row_total [of valid l "value"] by auto

definition value_raw_free :: "'h kv_value \<Rightarrow> bool" where
  "value_raw_free v = (case v of KvNode n \<Rightarrow> raw_free n | _ \<Rightarrow> True)"

lemma kv_rows_total: "\<exists>rs. res_map (\<lambda>(l, v). kv_row valid l v) entries = Inr rs"
proof (rule res_map_total)
  fix x :: "string \<times> 'a kv_value"
  obtain l v where "x = (l, v)" by (cases x)
  then show "\<exists>y. (case x of (l, v) \<Rightarrow> kv_row valid l v) = Inr y"
    using kv_row_total [of valid l v] by auto
qed

lemma kv_rows_raw_free:
  assumes "res_map (\<lambda>(l, v). kv_row valid l v) entries = Inr rs" and "list_all (value_raw_free \<circ> snd) entries"
  shows "list_all raw_free rs"
proof (rule res_map_ball [OF assms(1)])
  fix x :: "string \<times> 'a kv_value" and y
  obtain l v where x: "x = (l, v)" by (cases x)
  assume "x \<in> set entries" and "(case x of (l, v) \<Rightarrow> kv_row valid l v) = Inr y"
  with assms(2) x show "raw_free y"
    by (auto simp: list_all_iff value_raw_free_def intro: kv_row_raw_free)
qed

lemma kv_section_total: "\<exists>rs. kv_section valid title entries =
    Inr (Elem ((new_elem ''div'')\<lparr>class_name := ''inspect-section''\<rparr>) (Elem (new_elem ''h4'') (text_nodes title) # rs))
    \<and> length rs = length entries \<and> (list_all (value_raw_free \<circ> snd) entries \<longrightarrow> list_all raw_free rs)"
proof -
  obtain rs where rs: "res_map (\<lambda>(l, v). kv_row valid l v) entries = Inr rs"
    using kv_rows_total by blast
  from res_map_length [OF rs] kv_rows_raw_free [OF rs] show ?thesis
    by (intro exI [of _ rs]) (simp add: kv_section_def rs)
qed

text \<open>An array in the attribute position: its indices are the attribute names.\<close>

lemma show_nat_not_special:
  "show_nat i \<noteq> ''class'' \<and> show_nat i \<noteq> ''style'' \<and> show_nat i \<noteq> ''text'' \<and> show_nat i \<noteq> ''html''
   \<and> show_nat i \<noteq> ''dataset'' \<and> show_nat i \<noteq> ''on''"
proof -
  have "is_digit (hd (show_nat i))"
    using show_nat_digits [of "hd (show_nat i)" i] by simp
  then show ?thesis by (auto simp: is_digit_def)
qed

lemma apply_attr_index:
  "apply_attr valid (e, kids) (show_nat i, AStr s) =
     (if valid (show_nat i) then Inr (e\<lparr>attributes := alist_set (show_nat i) s (attributes e)\<rparr>, kids)
      else Inl (InvalidCharacterError (show_nat i)))"
  using show_nat_not_special [of i] by (simp add: apply_attr_eval)

lemma apply_attrs_index_kids:
  "apply_attrs valid (e, kids) (map (\<lambda>(i, c). (show_nat i, AStr (child_text c))) (enumerate k cs)) = Inr st
   \<Longrightarrow> snd st = kids"
  by (induction cs arbitrary: e k) (auto simp: apply_attr_index split: if_splits)

lemma el_ListArg_Inr:
  assumes "el valid tg (ListArg cs) ch = Inr n"
  shows "\<exists>e ns. n = Elem e ns \<and> child_nodes (CList ch) = Inr ns"
  using assms
  by (auto simp: el_def split: sum.splits prod.splits dest!: apply_attrs_index_kids)

lemma apply_attr_zero:
  assumes "\<not> valid ''0''"
  shows "apply_attr valid (e, kids) (''0'', AStr s) = Inl (InvalidCharacterError ''0'')"
proof -
  have "show_nat 0 = ''0''" by code_simp
  then show ?thesis using assms apply_attr_index [of valid e kids 0 s] by simp
qed

lemma el_ListArg_Inl:
  assumes "cs \<noteq> []" and "\<not> valid ''0''"
  shows "el valid tg (ListArg cs) ch = Inl (InvalidCharacterError ''0'')"
proof -
  obtain c cs' where "cs = c # cs'" using assms(1) by (cases cs) auto
  moreover have "show_nat 0 = ''0''" by code_simp
  ultimately show ?thesis by (simp add: el_def apply_attr_zero [of valid, OF assms(2)])
qed

lemma text_new_elem [simp]: "text_content (Elem e []) = []"
  by simp

lemma table_head_text: "table_head valid spec = Inr h \<Longrightarrow> text_content h = []"
  by (auto simp: table_head_def res_bind_Inr_iff)

lemma table_head_throws: "columns spec \<noteq> [] \<Longrightarrow> \<not> valid ''0'' \<Longrightarrow> \<exists>x. table_head valid spec = Inl x"
proof -
  assume "columns spec \<noteq> []" and v: "\<not> valid ''0''"
  moreover have "\<exists>ths. res_map (\<lambda>c. el valid ''th'' (Attrs [(''text'', AStr (or_str (col_label c) (col_key c)))]) [])
      (columns spec) = Inr (ths :: 'a node list)"
    by (rule res_map_total) simp
  then obtain ths where ths: "res_map (\<lambda>c. el valid ''th'' (Attrs [(''text'', AStr (or_str (col_label c) (col_key c)))]) [])
      (columns spec) = Inr (ths :: 'a node list)" by blast
  ultimately have "ths \<noteq> []" using res_map_length [OF ths] by auto
  with v ths show ?thesis
    unfolding table_head_def by (auto simp: el_ListArg_Inl intro!: res_bind_Inl)
qed

lemma table_body_text:
  "res_bind (res_map (table_row valid get spec) rs) (\<lambda>trs. el valid ''tbody'' (ListArg (map CNode trs)) []) = Inr b
   \<Longrightarrow> text_content b = []"
  by (auto simp: res_bind_Inr_iff dest!: el_ListArg_Inr)

lemma table_body_throws: "rs \<noteq> [] \<Longrightarrow> \<not> valid ''0'' \<Longrightarrow>
   \<exists>x. res_bind (res_map (table_row valid get spec) rs) (\<lambda>trs. el valid ''tbody'' (ListArg (map CNode trs)) []) = Inl x"
  by (rule res_bind_Inl) (auto dest!: res_map_length intro!: exI el_ListArg_Inl)

section \<open>Properties\<close>

text \<open>
  \<open>UI.table\<close> never shows a row. It passes the header row and the body rows in the attribute
  position of \<open>el\<close>, so for a non-empty list of rows it throws where the attribute name 0 is
  refused, and where it is accepted the table it returns has no text at all.
\<close>

theorem ui_table_loses_rows:
  fixes spec :: "('h, 'r) table_spec"
  assumes "rows spec \<noteq> []"
  shows "(\<exists>x. ui_table valid get spec = Inl x) \<or>
     (valid ''0'' \<and> (\<exists>n. ui_table valid get spec = Inr n \<and> text_content n = []))"
proof (cases "ui_table valid get spec")
  case (Inr n)
  then obtain h b where h: "table_head valid spec = Inr h"
    and b: "res_bind (res_map (table_row valid get spec) (rows spec))
        (\<lambda>trs. el valid ''tbody'' (ListArg (map CNode trs)) []) = Inr b"
    and n: "n = Elem ((new_elem ''div'')\<lparr>class_name := ''ui-table''\<rparr>) [Elem (new_elem ''table'') [h, b]]"
    using assms by (auto simp: ui_table_def res_bind_Inr_iff)
  have "valid ''0''" using table_body_throws [of "rows spec" valid get spec] assms b by auto
  moreover have "text_content n = []"
    using table_head_text [OF h] table_body_text [OF b] n by simp
  ultimately show ?thesis using Inr by blast
qed blast

theorem ui_table_loses_rows_witness:
  "\<exists>x. ui_table (\<lambda>k. k \<noteq> ''0'') (\<lambda>r _. Some r)
     \<lparr>columns = [\<lparr>col_key = ''name'', col_label = ''Name'', col_render = None\<rparr>],
      rows = [''web-1'', ''db''], row_actions = None, empty_message = []\<rparr> = (Inl x :: dom_error + unit node)"
  using ui_table_loses_rows [of "\<lparr>columns = [\<lparr>col_key = ''name'', col_label = ''Name'', col_render = None\<rparr>],
      rows = [''web-1'', ''db''], row_actions = None, empty_message = []\<rparr>" "\<lambda>k. k \<noteq> ''0''" "\<lambda>r _. Some r"]
  by simp

text \<open>
  The inspect panels are an XSS boundary: built from any titles, labels, values and trees that hold
  no parsed markup, the panel is a tree without parsed markup, whatever text the server supplied.
\<close>

theorem kv_section_no_markup:
  assumes "list_all (value_raw_free \<circ> snd) entries"
  shows "\<exists>sec. kv_section valid title entries = Inr sec \<and> raw_free sec"
  using kv_section_total [of valid title entries] assms by auto

theorem kv_section_no_markup_witness:
  "\<exists>sec. kv_section (\<lambda>_. True) ''Labels'' [(''<b>'', KvPrim ''<script>''), (''env'', KvObj (JObj [(''a'', JStr ''<i>'')]))]
     = Inr (sec :: unit node) \<and> raw_free sec"
  by (rule kv_section_no_markup) (simp add: value_raw_free_def)

end
