(* ===== verification/StatusBanner.thy ===== *)
theory StatusBanner
  imports Dom "HOL-Library.Multiset"
begin

text \<open>
  core/statusBanner.js: the keyed stack of severity-sorted banners at the top of the page, with its
  one-second ticker. The clock is an argument (milliseconds, \<open>Date.now()\<close>); the timer's callback is
  the event \<open>tick\<close>, which the browser delivers only while the interval exists (\<open>ticking\<close>).
\<close>

section \<open>Data\<close>

datatype severity = SevError | SevWarn | SevInfo

fun severity_order :: "severity \<Rightarrow> nat" where
  "severity_order SevError = 0"
| "severity_order SevWarn = 1"
| "severity_order SevInfo = 2"

fun severity_name :: "severity \<Rightarrow> string" where
  "severity_name SevError = ''error''"
| "severity_name SevWarn = ''warn''"
| "severity_name SevInfo = ''info''"

definition severity_of :: "string \<Rightarrow> severity option" where
  "severity_of s = (if s = ''error'' then Some SevError else if s = ''warn'' then Some SevWarn
     else if s = ''info'' then Some SevInfo else None)"

lemma severity_order_inject [simp]: "severity_order a = severity_order b \<longleftrightarrow> a = b"
  by (cases a; cases b) simp_all

instantiation severity :: linorder
begin

definition less_eq_severity :: "severity \<Rightarrow> severity \<Rightarrow> bool" where
  "less_eq_severity a b = (severity_order a \<le> severity_order b)"

definition less_severity :: "severity \<Rightarrow> severity \<Rightarrow> bool" where
  "less_severity a b = (severity_order a < severity_order b)"

instance
  by standard (auto simp: less_eq_severity_def less_severity_def)

end

text \<open>\<open>action\<close> is the inline button; its \<open>onClick\<close> may be missing or not a function.\<close>

record 'h banner_action =
  label :: string
  on_click :: "'h option"

record 'h entry =
  severity :: severity
  message :: string
  action :: "'h banner_action option"
  expires_at :: "int option"

record 'h banner_opts =
  opt_severity :: string
  opt_message :: string
  opt_action :: "'h banner_action option"
  expires_in_ms :: "int option"

record 'h banner =
  entries :: "(string \<times> 'h entry) list"
  ticking :: bool
  box_class :: string
  box_rows :: "'h node list"

definition banner_init :: "'h banner" where
  "banner_init = \<lparr>entries = [], ticking = False, box_class = ''status-banner'', box_rows = []\<rparr>"

section \<open>Rendering\<close>

text \<open>\<open>entry.expiresAt\<close> is tested for truth: null and the time 0 are both "never".\<close>

definition expires :: "'h entry \<Rightarrow> bool" where
  "expires e = (case expires_at e of None \<Rightarrow> False | Some x \<Rightarrow> x \<noteq> 0)"

definition ceil_div :: "int \<Rightarrow> int \<Rightarrow> int" where
  "ceil_div a b = - ((- a) div b)"

definition seconds_remaining :: "int \<Rightarrow> 'h entry \<Rightarrow> int option" where
  "seconds_remaining now e = (if \<not> expires e then None
     else Some (max 0 (ceil_div (the (expires_at e) - now) 1000)))"

definition render_message :: "int \<Rightarrow> 'h entry \<Rightarrow> string" where
  "render_message now e = (case seconds_remaining now e of None \<Rightarrow> message e
     | Some n \<Rightarrow> replace_all ''{seconds}'' (show_int n) (message e))"

definition banner_button :: "'h entry \<Rightarrow> 'h node list" where
  "banner_button e = (case action e of None \<Rightarrow> []
     | Some a \<Rightarrow> (case on_click a of None \<Rightarrow> []
        | Some h \<Rightarrow> [Elem ((new_elem ''button'')\<lparr>class_name := ''status-banner-action'',
            attributes := [(''type'', ''button'')], listeners := [(''click'', h)]\<rparr>)
            (text_nodes (label a))]))"

definition banner_row :: "int \<Rightarrow> string \<times> 'h entry \<Rightarrow> 'h node" where
  "banner_row now p = (let e = snd p in
     Elem ((new_elem ''div'')\<lparr>class_name := ''status-banner-item '' @ severity_name (severity e),
       data_set := [(''key'', fst p)],
       attributes := [(''role'', if severity e = SevError then ''alert'' else ''status''),
                      (''aria-live'', if severity e = SevError then ''assertive'' else ''polite'')]\<rparr>)
       (Elem (new_elem ''span'') (text_nodes (render_message now e)) # banner_button e))"

text \<open>\<open>Array.prototype.sort\<close> is stable, and so is \<open>sort_key\<close>.\<close>

definition sorted_entries :: "(string \<times> 'h entry) list \<Rightarrow> (string \<times> 'h entry) list" where
  "sorted_entries es = sort_key (\<lambda>p. severity (snd p)) es"

definition render :: "int \<Rightarrow> 'h banner \<Rightarrow> 'h banner" where
  "render now b =
     (if entries b = [] then b\<lparr>box_class := ''status-banner'', box_rows := []\<rparr>
      else let sorted = sorted_entries (entries b) in
        b\<lparr>box_class := ''status-banner '' @ severity_name (severity (snd (hd sorted))),
          box_rows := map (banner_row now) sorted\<rparr>)"

section \<open>Operations\<close>

definition ensure_tick :: "'h banner \<Rightarrow> 'h banner" where
  "ensure_tick b = (if ticking b then b
     else if \<exists>p \<in> set (entries b). expires (snd p) then b\<lparr>ticking := True\<rparr> else b)"

definition expired :: "int \<Rightarrow> 'h entry \<Rightarrow> bool" where
  "expired now e = (case seconds_remaining now e of None \<Rightarrow> False | Some n \<Rightarrow> n \<le> 0)"

definition tick :: "int \<Rightarrow> 'h banner \<Rightarrow> 'h banner" where
  "tick now b = (if \<not> ticking b then b else
     let b1 = render now (b\<lparr>entries := filter (\<lambda>p. \<not> expired now (snd p)) (entries b)\<rparr>)
     in b1\<lparr>ticking := \<exists>p \<in> set (entries b1). expires (snd p)\<rparr>)"

text \<open>The part of \<open>set\<close> behind its validation, and \<open>set\<close> itself.\<close>

definition put_entry :: "int \<Rightarrow> string \<Rightarrow> 'h entry \<Rightarrow> 'h banner \<Rightarrow> 'h banner" where
  "put_entry now key e b = ensure_tick (render now (b\<lparr>entries := alist_set key e (entries b)\<rparr>))"

definition entry_of :: "int \<Rightarrow> 'h banner_opts \<Rightarrow> severity \<Rightarrow> 'h entry" where
  "entry_of now opts sev = \<lparr>severity = sev, message = opt_message opts, action = opt_action opts,
     expires_at = (case expires_in_ms opts of None \<Rightarrow> None
       | Some ms \<Rightarrow> (if ms = 0 then None else Some (now + ms)))\<rparr>"

definition banner_set :: "int \<Rightarrow> string \<Rightarrow> 'h banner_opts option \<Rightarrow> 'h banner \<Rightarrow> 'h banner" where
  "banner_set now key opts b = (case opts of None \<Rightarrow> b
     | Some opts \<Rightarrow>
        (if key = [] \<or> opt_severity opts = [] \<or> opt_message opts = [] then b
         else case severity_of (opt_severity opts) of None \<Rightarrow> b
           | Some sev \<Rightarrow> put_entry now key (entry_of now opts sev) b))"

definition banner_clear :: "int \<Rightarrow> string \<Rightarrow> 'h banner \<Rightarrow> 'h banner" where
  "banner_clear now key b = (if key \<in> fst ` set (entries b)
     then render now (b\<lparr>entries := alist_del key (entries b)\<rparr>) else b)"

definition clear_all :: "int \<Rightarrow> 'h banner \<Rightarrow> 'h banner" where
  "clear_all now b = render now (b\<lparr>entries := []\<rparr>)"

definition get :: "'h banner \<Rightarrow> string \<Rightarrow> 'h entry option" where
  "get b key = map_of (entries b) key"

definition has :: "'h banner \<Rightarrow> string \<Rightarrow> bool" where
  "has b key = (key \<in> fst ` set (entries b))"

section \<open>The contract and the invariant\<close>

lemma render_entries [simp]: "entries (render now b) = entries b" "ticking (render now b) = ticking b"
  by (simp_all add: render_def Let_def)

lemma ensure_tick_entries [simp]: "entries (ensure_tick b) = entries b"
  by (simp add: ensure_tick_def)

lemma ensure_tick_box [simp]: "box_class (ensure_tick b) = box_class b" "box_rows (ensure_tick b) = box_rows b"
  by (simp_all add: ensure_tick_def)

lemma put_entry_entries [simp]: "entries (put_entry now k e b) = alist_set k e (entries b)"
  by (simp add: put_entry_def)

lemma clear_entries [simp]: "entries (banner_clear now k b) = alist_del k (entries b)"
proof (cases "k \<in> fst ` set (entries b)")
  case False
  then have "alist_del k (entries b) = entries b"
    by (auto simp: alist_del_def filter_id_conv image_iff)
  with False show ?thesis by (simp add: banner_clear_def)
qed (simp add: banner_clear_def)

interpretation status_banner: keyed_store get "put_entry now" "banner_clear now" for now
  by unfold_locales (simp_all add: get_def map_of_alist_set map_of_alist_del)

datatype 'h banner_event = Set int string "'h banner_opts option" | Clear int string | ClearAll int | Tick int

fun banner_step :: "'h banner \<Rightarrow> 'h banner_event \<Rightarrow> 'h banner" where
  "banner_step b (Set now k opts) = banner_set now k opts b"
| "banner_step b (Clear now k) = banner_clear now k b"
| "banner_step b (ClearAll now) = clear_all now b"
| "banner_step b (Tick now) = tick now b"

text \<open>Keys are unique, an entry with an expiry keeps the ticker alive, and what is on screen are the keys in order.\<close>

definition row_keys :: "'h node list \<Rightarrow> string list" where
  "row_keys ns = concat (map (\<lambda>n. case n of Elem e _ \<Rightarrow> map snd (data_set e) | _ \<Rightarrow> []) ns)"

definition timed_ticks :: "'h banner \<Rightarrow> bool" where
  "timed_ticks b \<longleftrightarrow> distinct (map fst (entries b)) \<and>
     (\<forall>p \<in> set (entries b). expires (snd p) \<longrightarrow> ticking b)"

definition painted :: "'h banner \<Rightarrow> bool" where
  "painted b \<longleftrightarrow> row_keys (box_rows b) = map fst (sorted_entries (entries b))"

definition banner_inv :: "'h banner \<Rightarrow> bool" where
  "banner_inv b \<longleftrightarrow> timed_ticks b \<and> painted b"

lemma row_keys_rows [simp]: "row_keys (map (banner_row now) ps) = map fst ps"
  by (induction ps) (simp_all add: row_keys_def banner_row_def Let_def)

lemma painted_render [simp]: "painted (render now b)"
  by (simp add: painted_def render_def Let_def) (simp add: row_keys_def sorted_entries_def)

lemma painted_ensure_tick [simp]: "painted (ensure_tick b) = painted b"
  by (simp add: painted_def)

lemma painted_ticking [simp]: "painted (b\<lparr>ticking := x\<rparr>) = painted b"
  by (simp add: painted_def)

lemma timed_ticks_put: "timed_ticks b \<Longrightarrow> timed_ticks (put_entry now k e b)"
  by (auto simp: timed_ticks_def put_entry_def ensure_tick_def distinct_alist_set set_alist_set)

lemma banner_set_valid:
  "key \<noteq> [] \<Longrightarrow> opt_severity x \<noteq> [] \<Longrightarrow> opt_message x \<noteq> [] \<Longrightarrow>
   severity_of (opt_severity x) = Some sev \<Longrightarrow>
   banner_set now key (Some x) b = put_entry now key (entry_of now x sev) b"
  by (simp add: banner_set_def)

lemma banner_set_cases:
  "banner_set now k opts b = b \<or> (\<exists>e. banner_set now k opts b = put_entry now k e b)"
  by (auto simp: banner_set_def split: option.splits)

lemma timed_ticks_step: "timed_ticks b \<Longrightarrow> timed_ticks (banner_step b e)"
proof (cases e)
  case (Set now k opts)
  assume "timed_ticks b"
  with Set timed_ticks_put [of b now k] show ?thesis
    using banner_set_cases [of now k opts b] by auto
next
  case (Clear now k)
  assume "timed_ticks b"
  with Clear show ?thesis
    by (auto simp: timed_ticks_def distinct_alist_del) (auto simp: banner_clear_def)
next
  case (Tick now)
  assume "timed_ticks b"
  with Tick show ?thesis
    by (auto simp: timed_ticks_def tick_def Let_def distinct_map_filter)
qed (auto simp: timed_ticks_def clear_all_def)

lemma painted_step: "painted b \<Longrightarrow> painted (banner_step b e)"
proof (cases e)
  case (Set now k opts)
  assume "painted b"
  with Set banner_set_cases [of now k opts b] show ?thesis
    by (auto simp: put_entry_def)
qed (auto simp: banner_clear_def clear_all_def tick_def Let_def)

lemma banner_step_inv: "banner_inv b \<Longrightarrow> banner_inv (banner_step b e)"
  by (simp only: banner_inv_def timed_ticks_step painted_step)

lemma banner_init_inv: "banner_inv banner_init"
  by (simp add: banner_inv_def timed_ticks_def painted_def banner_init_def row_keys_def sorted_entries_def)

lemma banner_run_inv: "banner_inv (run_events banner_step banner_init es)"
  using banner_init_inv banner_step_inv by (rule run_events_invariant)

lemma expired_iff: "expired now e \<longleftrightarrow> expires e \<and> the (expires_at e) \<le> now"
  by (auto simp: expired_def seconds_remaining_def ceil_div_def)

lemma get_tick: "timed_ticks b \<Longrightarrow> get (tick now b) k =
    (case get b k of None \<Rightarrow> None | Some e \<Rightarrow> if expired now e then None else Some e)"
proof -
  assume inv: "timed_ticks b"
  have flt: "map_of (filter (\<lambda>p. \<not> expired now (snd p)) es) k =
      (case map_of es k of None \<Rightarrow> None | Some e \<Rightarrow> if expired now e then None else Some e)"
    if "distinct (map fst es)" for es :: "(string \<times> 'a entry) list"
    using that
    by (induction es) (auto split: option.splits simp: map_of_eq_None_iff image_iff)
  show ?thesis
  proof (cases "ticking b")
    case True
    with inv flt show ?thesis by (simp add: get_def tick_def Let_def timed_ticks_def)
  next
    case False
    with inv have "\<not> expired now e" if "get b k = Some e" for e
      using that by (auto simp: timed_ticks_def get_def expired_iff dest: map_of_SomeD)
    with False show ?thesis by (auto simp: tick_def split: option.splits)
  qed
qed

section \<open>Properties\<close>

text \<open>
  C10: after any history of banner calls, the rows on screen are a permutation of the entries, by
  severity, and entries of the same severity keep the order in which they were inserted.
\<close>

theorem banner_rows_stable_sorted:
  "let b = run_events banner_step banner_init es; rows = sorted_entries (entries b) in
     row_keys (box_rows b) = map fst rows \<and> mset rows = mset (entries b) \<and>
     sorted (map (\<lambda>p. severity (snd p)) rows) \<and>
     filter (\<lambda>p. severity (snd p) = s) rows = filter (\<lambda>p. severity (snd p) = s) (entries b)"
  using banner_run_inv [of es]
  by (simp add: Let_def banner_inv_def painted_def sorted_entries_def sort_key_stable)

text \<open>
  C9: no timed banner outlives its expiry: in any state the calls can reach, an entry with an expiry has
  the ticker running, and the next tick at or after the expiry removes it and leaves every entry that
  has not expired.
\<close>

theorem banner_expires:
  assumes "get (run_events banner_step banner_init es) key = Some e"
    and "expires_at e = Some x" and "x \<noteq> 0" and "x \<le> now"
  shows "ticking (run_events banner_step banner_init es) \<and>
    get (run_events banner_step banner_init (es @ [Tick now])) key = None \<and>
    (\<forall>k e'. get (run_events banner_step banner_init es) k = Some e' \<and> \<not> expired now e' \<longrightarrow>
      get (run_events banner_step banner_init (es @ [Tick now])) k = Some e')"
proof -
  let ?b = "run_events banner_step banner_init es"
  have inv: "timed_ticks ?b" using banner_run_inv [of es] by (simp add: banner_inv_def)
  have "expired now e" using assms by (simp add: expired_iff expires_def)
  moreover have "ticking ?b" using inv assms
    by (force simp: timed_ticks_def get_def expires_def dest!: map_of_SomeD)
  ultimately show ?thesis using assms(1) by (simp add: get_tick [OF inv])
qed

theorem banner_expires_witness:
  "let es = [Set 1000 ''rate_limited'' (Some \<lparr>opt_severity = ''warn'', opt_message = ''retry'',
      opt_action = None, expires_in_ms = Some 2000\<rparr>)] :: unit banner_event list in
   get (run_events banner_step banner_init (es @ [Tick 3000])) ''rate_limited'' = None"
proof -
  have "get (run_events banner_step banner_init [Set 1000 ''rate_limited'' (Some \<lparr>opt_severity = ''warn'',
      opt_message = ''retry'', opt_action = None, expires_in_ms = Some 2000\<rparr>)]) ''rate_limited'' =
      Some (\<lparr>severity = SevWarn, message = ''retry'', action = None, expires_at = Some 3000\<rparr> :: unit entry)"
    by (simp add: banner_set_def severity_of_def entry_of_def get_def banner_init_def alist_set_def)
  then show ?thesis using banner_expires [where x = 3000 and now = 3000] by (fastforce simp: Let_def)
qed

end
