(* ===== verification/BoundedLog.thy ===== *)
theory BoundedLog
  imports SingleFlight
begin

text \<open>
  The contract of the bounded histories: pushing a line keeps the last \<open>cap\<close> lines. The notification
  ring and the log view of a container provide it; its client lemma says what a history holds after any
  number of pushes.
\<close>

locale bounded_log =
  fixes push :: "'x \<Rightarrow> 's \<Rightarrow> 's"
    and contents :: "'s \<Rightarrow> 'y list"
    and item :: "'x \<Rightarrow> 'y list"
    and cap :: nat
  assumes push_contents: "length (contents s) \<le> cap \<Longrightarrow>
    contents (push x s) = last_n cap (contents s @ item x)"
begin

lemma run_bounded:
  "length (contents s) \<le> cap \<Longrightarrow> length (contents (run_events (\<lambda>s x. push x s) s xs)) \<le> cap"
  by (induction xs arbitrary: s) (simp_all add: push_contents)

lemma run_contents:
  "length (contents s) \<le> cap \<Longrightarrow>
   contents (run_events (\<lambda>s x. push x s) s xs) = last_n cap (contents s @ concat (map item xs))"
proof (induction xs arbitrary: s)
  case (Cons x xs)
  from Cons.prems have "length (contents (push x s)) \<le> cap" by (simp add: push_contents)
  with Cons show ?case by (simp add: push_contents last_n_last_n)
qed simp

lemma nothing_lost_below_cap:
  "length (contents s) + length (concat (map item xs)) \<le> cap \<Longrightarrow>
   contents (run_events (\<lambda>s x. push x s) s xs) = contents s @ concat (map item xs)"
  by (simp add: run_contents)

end

end
