(* ===== verification/Notifications.thy ===== *)
theory Notifications
  imports BoundedLog Dom
begin

text \<open>
  core/notifications.js: the bell in the sidebar, the ring of the last 50 notifications behind it, the
  unread count, the history panel and the patch that mirrors every \<open>toast\<close> into the ring. Fixed layout
  styles are left out; the styles that depend on the state (colours, the last row's border, the panel's
  position) are kept.
\<close>

section \<open>State\<close>

definition CAP :: nat where
  "CAP = 50"

record notif =
  time :: int
  note_text :: string
  note_kind :: string

text \<open>\<open>toast_fn\<close> is \<open>window.toast\<close>: not yet defined, the one of app.js, or the patched one.\<close>

datatype toast_fn = Undefined | Original | Patched

record bell =
  ring :: "notif list"
  unread :: nat
  row_el :: bool
  mounted :: bool
  row_label :: "string option"
  expanded :: bool
  chip_shown :: bool
  chip_text :: string
  chip_label :: "string option"
  pulse :: "string option"
  panel :: "string node list option"
  toast_fn :: toast_fn

definition bell_init :: bell where
  "bell_init = \<lparr>ring = [], unread = 0, row_el = False, mounted = False, row_label = None, expanded = False,
     chip_shown = False, chip_text = [], chip_label = None, pulse = None, panel = None, toast_fn = Undefined\<rparr>"

section \<open>Installation\<close>

text \<open>\<open>_buildRow\<close>; the listener names the handler.\<close>

definition build_row :: "string node" where
  "build_row = Elem ((new_elem ''button'')\<lparr>class_name := ''skiff-notif-row'',
     attributes := [(''type'', ''button''), (''aria-haspopup'', ''dialog''), (''aria-expanded'', ''false''),
       (''data-testid'', ''notif-row'')], listeners := [(''click'', ''_togglePanel'')]\<rparr>)
    [Elem ((new_elem ''span'')\<lparr>class_name := ''skiff-notif-bell'',
       attributes := [(''data-testid'', ''notif-bell''), (''aria-hidden'', ''true'')]\<rparr>)
       [Text [CHR 0xF0, CHR 0x9F, CHR 0x94, CHR 0x94]],
     Elem ((new_elem ''span'')\<lparr>class_name := ''skiff-notif-label''\<rparr>) [Text ''Notifications''],
     Elem ((new_elem ''span'')\<lparr>class_name := ''skiff-notif-count'',
       attributes := [(''data-testid'', ''notif-count'')]\<rparr>) []]"

text \<open>
  \<open>_install\<close> mounts the row above the sidebar's footer, or polls for it every 500 ms. \<open>install_poll\<close>
  is the interval's callback after \<open>attempts\<close> calls; it returns whether the interval goes on.
\<close>

definition install :: "bool \<Rightarrow> bell \<Rightarrow> bell \<times> nat option" where
  "install sidebar b = (if row_el b then (b, None)
     else if sidebar then (b\<lparr>row_el := True, mounted := True\<rparr>, None)
     else (b\<lparr>row_el := True\<rparr>, Some 0))"

definition install_poll :: "bool \<Rightarrow> nat \<Rightarrow> bell \<Rightarrow> bell \<times> nat option" where
  "install_poll sidebar attempts b = (let attempts = Suc attempts in
     if sidebar then (b\<lparr>mounted := True\<rparr>, None)
     else if attempts > 10 then (b, None) else (b, Some attempts))"

fun poll_run :: "bool list \<Rightarrow> nat option \<Rightarrow> bell \<Rightarrow> bell \<times> nat option" where
  "poll_run [] st b = (b, st)"
| "poll_run (sb # sbs) None b = (b, None)"
| "poll_run (sb # sbs) (Some n) b = (case install_poll sb n b of (b', st) \<Rightarrow> poll_run sbs st b')"

section \<open>Counting\<close>

definition plural_s :: "nat \<Rightarrow> string" where
  "plural_s n = (if n = 1 then '''' else ''s'')"

definition paint_count :: "bell \<Rightarrow> bell" where
  "paint_count b = (if \<not> row_el b then b else
     let u = (if ring b = [] then 0 else unread b);
         b1 = b\<lparr>unread := u\<rparr>;
         b2 = (if u > 0
           then b1\<lparr>chip_shown := True, chip_text := (if u > 99 then ''99+'' else show_nat u),
             chip_label := Some (show_nat u @ '' unread notification'' @ plural_s u)\<rparr>
           else b1\<lparr>chip_shown := False, chip_label := None\<rparr>)
     in b2\<lparr>row_label := Some (if u > 0 then ''Notifications, '' @ show_nat u @ '' unread''
             else ''Notifications'')\<rparr>)"

definition push_note :: "int \<Rightarrow> string \<Rightarrow> string \<Rightarrow> bell \<Rightarrow> bell" where
  "push_note now msg k b = (let r = ring b @ [\<lparr>time = now, note_text = msg, note_kind = or_str k ''info''\<rparr>]
     in b\<lparr>ring := (if length r > CAP then drop (length r - CAP) r else r)\<rparr>)"

text \<open>\<open>record\<close>: \<open>msg\<close> is empty for every falsy message, \<open>k\<close> for a missing kind.\<close>

definition note_record :: "int \<Rightarrow> string \<Rightarrow> string \<Rightarrow> bell \<Rightarrow> bell" where
  "note_record now msg k b = (if msg = [] then b else
     let b1 = push_note now msg k b;
         b2 = paint_count (b1\<lparr>unread := Suc (unread b1)\<rparr>)
     in if row_el b2 then b2\<lparr>pulse := Some (if k = ''error'' then ''pulse-error'' else ''pulse'')\<rparr> else b2)"

definition pulse_end :: "bell \<Rightarrow> bell" where
  "pulse_end b = b\<lparr>pulse := None\<rparr>"

section \<open>The panel\<close>

definition note_row :: "(int \<Rightarrow> string) \<Rightarrow> nat \<Rightarrow> nat \<times> notif \<Rightarrow> string node" where
  "note_row clock_text n p = (let idx = fst p; nt = snd p in
     Elem ((new_elem ''div'')\<lparr>css := Some (''border-bottom:'' @
         (if idx = n - 1 then ''none'' else ''1px solid var(--border, #334155)''))\<rparr>)
       [Elem (new_elem ''div'') (text_nodes (clock_text (time nt))),
        Elem ((new_elem ''div'')\<lparr>css := (if note_kind nt = ''error'' then Some ''color:#f87171''
            else if note_kind nt = ''success'' then Some ''color:#86efac'' else None)\<rparr>)
          (text_nodes (note_text nt))])"

definition panel_body :: "(int \<Rightarrow> string) \<Rightarrow> notif list \<Rightarrow> string node list" where
  "panel_body clock_text notes =
     (if notes = [] then [Elem (new_elem ''div'') [Text ''No notifications yet.'']]
      else map (note_row clock_text (length notes)) (enumerate 0 (rev notes)))"

definition panel_nodes :: "(int \<Rightarrow> string) \<Rightarrow> notif list \<Rightarrow> string node list" where
  "panel_nodes clock_text notes =
     [Elem (new_elem ''div'')
        [Elem (new_elem ''span'') [Text ''Notifications''],
         Elem ((new_elem ''button'')\<lparr>class_name := ''skiff-notif-clear'', attributes := [(''type'', ''button'')],
           listeners := [(''click'', ''clear all'')]\<rparr>) [Text ''Clear all'']],
      Elem (new_elem ''div'') (panel_body clock_text notes)]"

text \<open>Where the panel is placed, from the bell's rectangle and the viewport.\<close>

definition panel_position :: "int \<Rightarrow> int \<Rightarrow> int \<Rightarrow> int \<Rightarrow> int \<times> int" where
  "panel_position rect_right rect_top width height =
     (let l = rect_right + 8 in
      (if l + 340 > width then width - 348 else l,
       if rect_top + 420 > height then max 8 (height - 428) else rect_top))"

definition toggle_panel :: "(int \<Rightarrow> string) \<Rightarrow> bell \<Rightarrow> bell" where
  "toggle_panel clock_text b = (case panel b of
      Some _ \<Rightarrow> (let b1 = b\<lparr>panel := None\<rparr> in if row_el b then b1\<lparr>expanded := False\<rparr> else b1)
    | None \<Rightarrow> (let b1 = b\<lparr>panel := Some (panel_nodes clock_text (ring b))\<rparr>;
                  b2 = (if row_el b then b1\<lparr>expanded := True\<rparr> else b1)
              in paint_count (b2\<lparr>unread := 0\<rparr>)))"

text \<open>The panel's own ways of closing: \<open>Clear all\<close>, Escape, and a click outside it and the bell's row.\<close>

definition clear_notes :: "(int \<Rightarrow> string) \<Rightarrow> bell \<Rightarrow> bell" where
  "clear_notes clock_text b = (if panel b = None then b
     else toggle_panel clock_text (paint_count (b\<lparr>ring := [], unread := 0\<rparr>)))"

definition escape_panel :: "bell \<Rightarrow> bell" where
  "escape_panel b = b\<lparr>panel := None\<rparr>"

definition outside_click :: "bell \<Rightarrow> bell" where
  "outside_click b = b\<lparr>panel := None\<rparr>"

section \<open>The patched \<open>toast\<close>\<close>

text \<open>\<open>_patchToast\<close> tries again later while \<open>toast\<close> is undefined; \<open>call_toast\<close> is a call of \<open>window.toast\<close>.\<close>

definition patch_toast :: "bell \<Rightarrow> bell" where
  "patch_toast b = (case toast_fn b of Undefined \<Rightarrow> b | Patched \<Rightarrow> b | Original \<Rightarrow> b\<lparr>toast_fn := Patched\<rparr>)"

definition call_toast :: "int \<Rightarrow> string \<Rightarrow> string \<Rightarrow> bell \<Rightarrow> bell" where
  "call_toast now msg k b = (case toast_fn b of Patched \<Rightarrow> note_record now msg k b | _ \<Rightarrow> b)"

section \<open>Invariant\<close>

datatype bell_event = ToastCall int string string | Toggle | ClearNotes | Escape | OutsideClick
  | PulseEnd | PatchToast | DefineToast

fun bell_step :: "(int \<Rightarrow> string) \<Rightarrow> bell \<Rightarrow> bell_event \<Rightarrow> bell" where
  "bell_step f b (ToastCall now msg k) = call_toast now msg k b"
| "bell_step f b Toggle = toggle_panel f b"
| "bell_step f b ClearNotes = clear_notes f b"
| "bell_step f b Escape = escape_panel b"
| "bell_step f b OutsideClick = outside_click b"
| "bell_step f b PulseEnd = pulse_end b"
| "bell_step f b PatchToast = patch_toast b"
| "bell_step f b DefineToast = (if toast_fn b = Undefined then b\<lparr>toast_fn := Original\<rparr> else b)"

definition bell_inv :: "bell \<Rightarrow> bool" where
  "bell_inv b \<longleftrightarrow> row_el b \<and> length (ring b) \<le> CAP \<and> (ring b = [] \<longrightarrow> unread b = 0) \<and>
     chip_shown b = (unread b > 0) \<and>
     (unread b > 0 \<longrightarrow> chip_label b = Some (show_nat (unread b) @ '' unread notification'' @ plural_s (unread b)))"

definition bell_ready :: bell where
  "bell_ready = fst (install True bell_init)"

lemma push_note_ring: "length (ring b) \<le> CAP \<Longrightarrow>
    ring (push_note now m k b) = last_n CAP (ring b @ [\<lparr>time = now, note_text = m, note_kind = or_str k ''info''\<rparr>])"
  by (simp add: push_note_def last_n_def Let_def)

lemma paint_count_simps [simp]:
  "ring (paint_count b) = ring b" "row_el (paint_count b) = row_el b"
  "panel (paint_count b) = panel b" "toast_fn (paint_count b) = toast_fn b" "expanded (paint_count b) = expanded b"
  by (simp_all add: paint_count_def Let_def)

lemma paint_count_inv: "row_el b \<Longrightarrow> length (ring b) \<le> CAP \<Longrightarrow> bell_inv (paint_count b)"
  by (simp add: bell_inv_def paint_count_def Let_def)

lemma unread_paint: "row_el b \<Longrightarrow> ring b \<noteq> [] \<Longrightarrow> unread (paint_count b) = unread b"
  by (simp add: paint_count_def Let_def)

lemma ring_note_record: "ring (note_record now m k b) = (if m = [] then ring b else ring (push_note now m k b))"
  by (simp add: note_record_def Let_def)

lemma push_note_simps [simp]: "row_el (push_note now m k b) = row_el b" "unread (push_note now m k b) = unread b"
  "ring (push_note now m k b) \<noteq> []"
  by (auto simp: push_note_def Let_def CAP_def)

lemma bell_inv_pulse: "bell_inv (b\<lparr>pulse := p\<rparr>) = bell_inv b"
  by (simp add: bell_inv_def)

lemma note_record_inv: "bell_inv b \<Longrightarrow> bell_inv (note_record now m k b)"
proof -
  assume inv: "bell_inv b"
  then have "length (ring (push_note now m k b)) \<le> CAP" by (simp add: push_note_ring bell_inv_def)
  moreover have "row_el b" using inv by (simp add: bell_inv_def)
  ultimately have "bell_inv (paint_count ((push_note now m k b)\<lparr>unread := Suc (unread b)\<rparr>))"
    by (intro paint_count_inv) simp_all
  with inv show ?thesis by (simp add: note_record_def Let_def bell_inv_pulse)
qed

lemma bell_invD: "bell_inv b \<Longrightarrow> row_el b" "bell_inv b \<Longrightarrow> length (ring b) \<le> CAP"
  by (simp_all add: bell_inv_def)

lemma bell_inv_panel [simp]: "bell_inv (b\<lparr>panel := p, expanded := x\<rparr>) = bell_inv b"
  "bell_inv (b\<lparr>panel := p\<rparr>) = bell_inv b"
  by (simp_all add: bell_inv_def)

lemma toggle_panel_inv: "bell_inv b \<Longrightarrow> bell_inv (toggle_panel f b)"
  by (cases "panel b")
    (simp_all only: toggle_panel_def Let_def option.case bell_invD if_True bell_inv_panel,
     auto intro!: paint_count_inv dest: bell_invD)

lemma bell_step_inv: "bell_inv b \<Longrightarrow> bell_inv (bell_step f b e)"
proof (cases e)
  case (ToastCall now m k)
  assume "bell_inv b"
  with ToastCall show ?thesis by (cases "toast_fn b") (simp_all add: call_toast_def note_record_inv)
next
  case Toggle
  assume "bell_inv b"
  with Toggle show ?thesis by (simp add: toggle_panel_inv)
next
  case ClearNotes
  assume inv: "bell_inv b"
  then have "bell_inv (paint_count (b\<lparr>ring := [], unread := 0\<rparr>))"
    by (intro paint_count_inv) (simp_all add: bell_inv_def)
  with ClearNotes inv show ?thesis by (simp add: clear_notes_def toggle_panel_inv)
qed (auto simp: bell_inv_def escape_panel_def outside_click_def pulse_end_def patch_toast_def
    split: toast_fn.splits)

lemma bell_ready_inv: "bell_inv bell_ready"
  by (simp add: bell_ready_def install_def bell_init_def bell_inv_def)

lemma bell_run_inv: "bell_inv (run_events (bell_step f) bell_ready es)"
  using bell_ready_inv bell_step_inv by (rule run_events_invariant)

interpretation notif_ring: bounded_log "\<lambda>(now, m, k). note_record now m k" ring
  "\<lambda>(now, m, k). if m = [] then [] else [\<lparr>time = now, note_text = m, note_kind = or_str k ''info''\<rparr>]" CAP
  by unfold_locales (auto simp: ring_note_record push_note_ring)

section \<open>Properties\<close>

text \<open>
  C15: whatever the user and the toasts do, the ring never holds more than 50 notifications, the chip is
  shown exactly when something is unread and announces that very number, and an empty ring has nothing
  unread (no phantom badge).
\<close>

theorem bell_consistent:
  "let b = run_events (bell_step f) bell_ready es in
     length (ring b) \<le> 50 \<and> chip_shown b = (unread b > 0) \<and> (ring b = [] \<longrightarrow> unread b = 0) \<and>
     (unread b > 0 \<longrightarrow> chip_label b = Some (show_nat (unread b) @ '' unread notification'' @ plural_s (unread b)))"
  using bell_run_inv [of f es] by (simp add: Let_def bell_inv_def CAP_def)

theorem bell_consistent_witness:
  "chip_label (run_events (bell_step show_int) bell_ready
      [DefineToast, PatchToast, ToastCall 1 ''a'' ''error'', ToastCall 2 ''b'' '''']) = Some ''2 unread notifications''"
proof -
  let ?b = "run_events (bell_step show_int) bell_ready
      [DefineToast, PatchToast, ToastCall 1 ''a'' ''error'', ToastCall 2 ''b'' '''']"
  have u: "unread ?b = 2" by code_simp
  moreover have "show_nat 2 @ '' unread notification'' @ plural_s 2 = ''2 unread notifications''" by code_simp
  ultimately show ?thesis
    using bell_consistent [of show_int "[DefineToast, PatchToast, ToastCall 1 ''a'' ''error'', ToastCall 2 ''b'' '''']"]
    by (simp add: Let_def)
qed

text \<open>
  Once the patch is in, every non-empty toast is mirrored: the ring holds exactly the last 50 of the
  messages toasted since, in order, with their kinds, and patching again records nothing twice.
\<close>

theorem ring_mirrors_toasts:
  assumes "toast_fn b = Patched" and "ring b = []" and "\<forall>(now, m, k) \<in> set calls. m \<noteq> []"
  shows "ring (run_events (\<lambda>b (now, m, k). call_toast now m k (patch_toast b)) b calls) =
    last_n CAP (map (\<lambda>(now, m, k). \<lparr>time = now, note_text = m, note_kind = or_str k ''info''\<rparr>) calls)"
proof -
  have patched: "toast_fn (note_record now m k b) = toast_fn b" for now m k b
    by (simp add: note_record_def push_note_def Let_def)
  have "run_events (\<lambda>b (now, m, k). call_toast now m k (patch_toast b)) b calls =
      run_events (\<lambda>b c. (case c of (now, m, k) \<Rightarrow> note_record now m k) b) b calls"
    using assms(1) by (induction calls arbitrary: b)
      (auto simp: call_toast_def patch_toast_def patched split: prod.splits)
  moreover have "concat (map (\<lambda>(now, m, k). if m = [] then []
        else [\<lparr>time = now, note_text = m, note_kind = or_str k ''info''\<rparr>]) calls) =
      map (\<lambda>(now, m, k). \<lparr>time = now, note_text = m, note_kind = or_str k ''info''\<rparr>) calls"
    using assms(3) by (induction calls) auto
  ultimately show ?thesis using notif_ring.run_contents [of b calls] assms(2) by simp
qed

theorem ring_mirrors_toasts_witness:
  "ring (run_events (\<lambda>b (now, m, k). call_toast now m k (patch_toast b))
      (bell_ready\<lparr>toast_fn := Patched\<rparr>) [(7, ''saved'', ''success'')]) =
    [\<lparr>time = 7, note_text = ''saved'', note_kind = ''success''\<rparr>]"
  using ring_mirrors_toasts [of "bell_ready\<lparr>toast_fn := Patched\<rparr>" "[(7, ''saved'', ''success'')]"]
  by (simp add: bell_ready_def install_def bell_init_def CAP_def)

text \<open>
  Closing the panel with Escape or with a click outside leaves the bell's row announcing an expanded
  dialog (\<open>aria-expanded\<close> stays true while no panel exists); only the bell itself resets it.
\<close>

theorem escape_leaves_expanded:
  assumes "row_el b" and "panel b = None"
  shows "let b1 = toggle_panel f b; b2 = escape_panel b1 in
     panel b2 = None \<and> expanded b2 \<and> \<not> expanded (toggle_panel f b1) \<and> escape_panel b1 = outside_click b1"
  using assms by (simp add: Let_def toggle_panel_def escape_panel_def outside_click_def paint_count_def)

theorem escape_leaves_expanded_witness:
  "expanded (escape_panel (toggle_panel show_int bell_ready))"
proof -
  have "row_el bell_ready" and "panel bell_ready = None"
    by (simp_all add: bell_ready_def install_def bell_init_def)
  from escape_leaves_expanded [OF this, of show_int] show ?thesis unfolding Let_def by blast
qed

end
