(* ===== verification/Palette.thy ===== *)
theory Palette
  imports Dom "HOL-Library.Sublist"
begin

text \<open>
  core/palette.js: the command palette (its items, the fuzzy filter, the keyboard), the global shortcuts
  and the shortcuts help. What an item or a shortcut does to the rest of the program is a \<open>command\<close>.
  \<open>open\<close> awaits the container list, so it is two events: the call, and the arrival of the items.
\<close>

section \<open>Items\<close>

datatype command = ShowPage string | RunNewContainer | ShowDetail string string string
  | ApiAction string string string string

record item =
  label :: string
  hint :: string
  run :: command

record container_row =
  row_id :: string
  row_name :: string
  row_state :: "string option"
  row_status :: "string option"

abbreviation middot :: string where
  "middot \<equiv> [CHR 0xC2, CHR 0xB7]"

definition nav_items :: "(string \<times> string) list" where
  "nav_items = [(''Go to Dashboard'', ''dashboard''), (''Go to Containers'', ''containers''),
     (''Go to Images'', ''images''), (''Go to Templates'', ''templates''), (''Go to Volumes'', ''volumes''),
     (''Go to Networks'', ''networks''), (''Go to Compose'', ''compose''), (''Go to System'', ''system'')]"

definition state_of :: "container_row \<Rightarrow> string" where
  "state_of c = to_lower (or_str (case row_state c of None \<Rightarrow> [] | Some s \<Rightarrow> s)
     (case row_status c of None \<Rightarrow> [] | Some s \<Rightarrow> s))"

definition api_url :: "string \<Rightarrow> string \<Rightarrow> string" where
  "api_url cid verb = ''/api/containers/'' @ cid @ ''/'' @ verb"

definition container_items :: "container_row \<Rightarrow> item list" where
  "container_items c = (let nm = row_name c; cid = row_id c; st = state_of c;
       h = ''Container '' @ middot @ '' '' @ st;
       running = ''Container '' @ middot @ '' running'' in
     [\<lparr>label = ''Inspect '' @ nm, hint = h, run = ShowDetail cid nm ''inspect''\<rparr>,
      \<lparr>label = ''Logs '' @ nm, hint = h, run = ShowDetail cid nm ''logs''\<rparr>] @
     (if st = ''running'' then
       [\<lparr>label = ''Stop '' @ nm, hint = running, run = ApiAction (api_url cid ''stop'') nm ''stopped'' ''info''\<rparr>,
        \<lparr>label = ''Restart '' @ nm, hint = running,
          run = ApiAction (api_url cid ''restart'') nm ''restarted'' ''success''\<rparr>,
        \<lparr>label = ''Terminal in '' @ nm, hint = running, run = ShowDetail cid nm ''terminal''\<rparr>]
      else [\<lparr>label = ''Start '' @ nm, hint = h,
          run = ApiAction (api_url cid ''start'') nm ''started'' ''success''\<rparr>]))"

text \<open>\<open>None\<close> is a rejected \<open>apiFetch\<close>: only the navigation remains.\<close>

definition build_items :: "container_row list option \<Rightarrow> item list" where
  "build_items containers =
     map (\<lambda>(l, p). \<lparr>label = l, hint = ''Navigation'', run = ShowPage p\<rparr>) nav_items @
     [\<lparr>label = ''Run new container'', hint = ''Action'', run = RunNewContainer\<rparr>] @
     (case containers of None \<Rightarrow> [] | Some cs \<Rightarrow> concat (map container_items cs))"

text \<open>\<open>_apiAction\<close>: the toast (message, kind) after the request, and whether the list is reloaded.\<close>

definition api_action_toast :: "string \<Rightarrow> string \<Rightarrow> string \<Rightarrow> string option + unit \<Rightarrow> (string \<times> string) \<times> bool" where
  "api_action_toast nm verb tone outcome = (case outcome of
      Inr _ \<Rightarrow> ((nm @ '' '' @ verb, or_str tone ''info''), True)
    | Inl msg \<Rightarrow> ((case msg of Some m \<Rightarrow> or_str m (verb @ '' failed'') | None \<Rightarrow> verb @ '' failed'', ''error''), False))"

section \<open>The filter\<close>

text \<open>The loop of \<open>matches\<close>: one pass over the label, \<open>i\<close> counts the query's letters found so far.\<close>

fun scan :: "string \<Rightarrow> string \<Rightarrow> nat \<Rightarrow> nat" where
  "scan [] q i = i"
| "scan (ch # l) q i = (if i < length q then scan l q (if ch = q ! i then Suc i else i) else i)"

definition matches :: "string \<Rightarrow> string \<Rightarrow> bool" where
  "matches lbl query = (if query = [] then True
     else let q = to_lower query; l = to_lower lbl in scan l q 0 = length q)"

definition shown_items :: "item list \<Rightarrow> string \<Rightarrow> item list" where
  "shown_items items query = take 30 (filter (\<lambda>it. matches (label it) query) items)"

text \<open>The rows of \<open>render\<close>; the listeners name the row they act on.\<close>

datatype row_action = Hover nat | Activate

definition item_row :: "int \<Rightarrow> nat \<times> item \<Rightarrow> row_action node" where
  "item_row active p = (let idx = fst p; it = snd p; on = (int idx = active) in
     Elem ((new_elem ''div'')\<lparr>class_name := (if on then ''cmdp-row active'' else ''cmdp-row''),
        css := Some (''padding:8px 14px;cursor:pointer;border-left:3px solid '' @
          (if on then ''var(--accent)'' else ''transparent'') @ '';background:'' @
          (if on then ''var(--card-hover)'' else ''transparent'') @
          '';display:flex;justify-content:space-between;align-items:center;gap:12px''),
        listeners := [(''mouseenter'', Hover idx), (''click'', Activate)]\<rparr>)
       [Elem ((new_elem ''span'')\<lparr>css := Some ''color:var(--text)''\<rparr>) (text_nodes (label it)),
        Elem ((new_elem ''span'')\<lparr>css := Some ''font-size:11px;color:var(--muted);white-space:nowrap''\<rparr>)
          (text_nodes (hint it))])"

definition result_nodes :: "int \<Rightarrow> item list \<Rightarrow> string \<Rightarrow> row_action node list" where
  "result_nodes active shown query =
     (if shown = [] then
        [Elem ((new_elem ''div'')\<lparr>css := Some ''padding:12px;color:var(--muted);font-size:13px''\<rparr>)
          [Text (''No results for '' @ dquote @ query @ dquote)]]
      else map (item_row active) (enumerate 0 shown))"

section \<open>The palette\<close>

text \<open>
  \<open>overlays\<close> are the palette's overlays in the document, each with the items its closures hold and the
  value of its input. \<open>modal_el\<close> is the variable \<open>modalEl\<close> (with \<open>inputEl\<close> and \<open>resultsEl\<close>), which
  refers to one of them. \<open>pending\<close> counts the calls of \<open>open\<close> that await their items.
\<close>

record cmdp =
  overlays :: "(nat \<times> item list \<times> string) list"
  modal_el :: "nat option"
  active_idx :: int
  current_items :: "item list"
  pending :: nat
  fresh :: nat
  commands :: "command list"

definition cmdp_init :: cmdp where
  "cmdp_init = \<lparr>overlays = [], modal_el = None, active_idx = 0, current_items = [], pending = 0, fresh = 0,
     commands = []\<rparr>"

definition render_palette :: "item list \<Rightarrow> string \<Rightarrow> cmdp \<Rightarrow> cmdp" where
  "render_palette items query s = s\<lparr>current_items := shown_items items query\<rparr>"

definition close_palette :: "cmdp \<Rightarrow> cmdp" where
  "close_palette s = s\<lparr>overlays := (case modal_el s of None \<Rightarrow> overlays s
       | Some m \<Rightarrow> filter (\<lambda>ov. fst ov \<noteq> m) (overlays s)),
     modal_el := None, current_items := [], active_idx := 0\<rparr>"

definition activate :: "cmdp \<Rightarrow> cmdp" where
  "activate s = (let i = active_idx s; its = current_items s; s1 = close_palette s in
     if 0 \<le> i \<and> i < int (length its) then s1\<lparr>commands := commands s1 @ [run (its ! nat i)]\<rparr> else s1)"

definition open_call :: "cmdp \<Rightarrow> cmdp" where
  "open_call s = (if modal_el s \<noteq> None then s else s\<lparr>pending := Suc (pending s)\<rparr>)"

definition open_ready :: "item list \<Rightarrow> cmdp \<Rightarrow> cmdp" where
  "open_ready items s = (if pending s = 0 then s else
     render_palette items [] (s\<lparr>pending := pending s - 1, active_idx := 0, modal_el := Some (fresh s),
       overlays := overlays s @ [(fresh s, items, [])], fresh := Suc (fresh s)\<rparr>))"

definition set_query :: "nat \<Rightarrow> string \<Rightarrow> cmdp \<Rightarrow> cmdp" where
  "set_query m q s = s\<lparr>overlays := map (\<lambda>(i, its, x). if i = m then (i, its, q) else (i, its, x)) (overlays s)\<rparr>"

text \<open>
  A re-render from overlay \<open>m\<close>'s closures: its items, the value of \<open>inputEl\<close>; when \<open>inputEl\<close> is null the
  handler throws after it has written \<open>activeIdx\<close>.
\<close>

definition rerender :: "nat \<Rightarrow> cmdp \<Rightarrow> cmdp" where
  "rerender m s = (case (map_of (overlays s) m, modal_el s) of
      (Some (items, _), Some cur) \<Rightarrow>
        (case map_of (overlays s) cur of Some (_, q) \<Rightarrow> render_palette items q s | None \<Rightarrow> s)
    | _ \<Rightarrow> s)"

datatype palette_key = ArrowDown | ArrowUp | Enter | Escape | OtherKey

fun press_key :: "nat \<Rightarrow> palette_key \<Rightarrow> cmdp \<Rightarrow> cmdp" where
  "press_key m ArrowDown s =
     rerender m (s\<lparr>active_idx := min (active_idx s + 1) (int (length (current_items s)) - 1)\<rparr>)"
| "press_key m ArrowUp s = rerender m (s\<lparr>active_idx := max (active_idx s - 1) 0\<rparr>)"
| "press_key m Enter s = activate s"
| "press_key m Escape s = close_palette s"
| "press_key m OtherKey s = s"

datatype palette_event = OpenCall | ItemsReady "container_row list option" | Input nat string
  | Key nat palette_key | Backdrop nat | RowHover nat nat | RowClick

text \<open>An event of an overlay happens only while the overlay is in the document.\<close>

fun palette_step :: "cmdp \<Rightarrow> palette_event \<Rightarrow> cmdp" where
  "palette_step s OpenCall = open_call s"
| "palette_step s (ItemsReady cs) = open_ready (build_items cs) s"
| "palette_step s (Input m q) = (if m \<in> fst ` set (overlays s)
     then rerender m (set_query m q s\<lparr>active_idx := 0\<rparr>) else s)"
| "palette_step s (Key m k) = (if m \<in> fst ` set (overlays s) then press_key m k s else s)"
| "palette_step s (Backdrop m) = (if m \<in> fst ` set (overlays s) \<and> modal_el s = Some m
     then close_palette s else s)"
| "palette_step s (RowHover m idx) = (if m \<in> fst ` set (overlays s) \<and> idx < length (current_items s)
     then rerender m (s\<lparr>active_idx := int idx\<rparr>) else s)"
| "palette_step s RowClick = (if modal_el s = None then s else activate s)"

section \<open>Global shortcuts\<close>

record key_event =
  key :: string
  meta_key :: bool
  ctrl_key :: bool
  shift_key :: bool
  alt_key :: bool
  target_tag :: string
  content_editable :: bool

datatype shortcut = TogglePalette | OpenHelp | OpenWindow string | NavTo string | OpenRunModal | FocusSearch

definition number_nav :: "string option list" where
  "number_nav = [None, Some ''dashboard'', Some ''containers'', Some ''images'', Some ''templates'',
     Some ''volumes'', Some ''networks'', Some ''compose'', Some ''system'', Some ''settings'']"

definition editable :: "key_event \<Rightarrow> bool" where
  "editable e = (target_tag e = ''INPUT'' \<or> target_tag e = ''TEXTAREA'' \<or> content_editable e)"

definition plain :: "key_event \<Rightarrow> bool" where
  "plain e = (\<not> meta_key e \<and> \<not> ctrl_key e \<and> \<not> alt_key e)"

text \<open>The digit keys: the page of slot \<open>parseInt(e.key)\<close>, when there is one.\<close>

definition digit_page :: "string \<Rightarrow> string option" where
  "digit_page k = (case parse_int k of None \<Rightarrow> None
     | Some i \<Rightarrow> (if 1 \<le> i \<and> i \<le> 9 then number_nav ! nat i else None))"

definition on_keydown :: "bool \<Rightarrow> string \<Rightarrow> bool \<Rightarrow> key_event \<Rightarrow> shortcut option" where
  "on_keydown mac page has_search e =
     (if (if mac then meta_key e else ctrl_key e) \<and> \<not> shift_key e \<and> \<not> alt_key e \<and> (key e = ''k'' \<or> key e = ''K'')
      then Some TogglePalette
      else if key e = ''?'' \<and> plain e then (if editable e then None else Some OpenHelp)
      else if \<not> editable e \<and> plain e \<and> \<not> shift_key e \<and> key e = ''0'' then Some (OpenWindow ''/api/docs'')
      else if \<not> editable e \<and> plain e \<and> \<not> shift_key e \<and> digit_page (key e) \<noteq> None
      then Some (NavTo (the (digit_page (key e))))
      else if \<not> editable e \<and> key e = ''r'' \<and> plain e \<and> \<not> shift_key e \<and> page = ''containers'' then Some OpenRunModal
      else if \<not> editable e \<and> key e = ''/'' \<and> plain e \<and> has_search then Some FocusSearch
      else None)"

definition format_shortcut :: "bool \<Rightarrow> string" where
  "format_shortcut mac = (if mac then [CHR 0xE2, CHR 0x8C, CHR 0x98, CHR ''K''] else ''Ctrl+K'')"

section \<open>Lemmas\<close>

lemma scan_subseq: "i \<le> length q \<Longrightarrow> scan l q i = length q \<longleftrightarrow> subseq (drop i q) l"
proof (induction l arbitrary: i)
  case (Cons ch l)
  show ?case
  proof (cases "i < length q")
    case True
    then have "drop i q = q ! i # drop (Suc i) q" by (simp add: Cons_nth_drop_Suc)
    with True Cons show ?thesis by (cases "ch = q ! i") auto
  next
    case False
    with Cons.prems show ?thesis by simp
  qed
qed (auto dest!: list_emb_Nil2)

lemma set_shown: "it \<in> set (shown_items items q) \<Longrightarrow> it \<in> set items \<and> matches (label it) q"
  by (auto simp: shown_items_def dest: in_set_takeD)

lemma digit_chars: "map digit_char [1..<10] = ''123456789''"
  by code_simp

lemma digit_nav:
  assumes h: "\<not> editable e \<and> plain e \<and> \<not> shift_key e \<and> 1 \<le> d \<and> d \<le> 9 \<and> key e = show_nat d"
  shows "on_keydown mac page has_search e = Some (NavTo (the (number_nav ! d)))"
proof -
  have "digit_char d \<in> set (map digit_char [1..<10])" using h by (simp only: set_map set_upt) auto
  then have c: "digit_char d \<in> set ''123456789''" by (simp only: digit_chars)
  have page: "number_nav ! d \<noteq> None"
    using h by (auto simp: number_nav_def nth_Cons split: nat.splits)
  have "digit_page (show_nat d) = number_nav ! d" using h by (simp add: digit_page_def)
  moreover have "show_nat d = [digit_char d]" using h by (simp add: show_nat.simps)
  ultimately show ?thesis
    using h page c by (simp add: on_keydown_def plain_def) auto
qed

text \<open>The palette as one user sees it: one overlay, its items shown through its own query, a valid selection.\<close>

definition focused :: "nat \<Rightarrow> item list \<Rightarrow> cmdp \<Rightarrow> bool" where
  "focused m items s \<longleftrightarrow> modal_el s = Some m \<and> (\<exists>q. overlays s = [(m, items, q)] \<and>
     current_items s = shown_items items q) \<and>
     (if current_items s = [] then active_idx s \<in> {-1, 0}
      else 0 \<le> active_idx s \<and> active_idx s < int (length (current_items s)))"

definition typing :: "nat \<Rightarrow> palette_event \<Rightarrow> bool" where
  "typing m e = (case e of Input m' q \<Rightarrow> m' = m | Key m' k \<Rightarrow> m' = m \<and> k \<in> {ArrowDown, ArrowUp, OtherKey}
     | RowHover m' i \<Rightarrow> m' = m | _ \<Rightarrow> False)"

lemma rerender_focused:
  "modal_el s = Some m \<Longrightarrow> overlays s = [(m, items, q)] \<Longrightarrow>
   rerender m s = s\<lparr>current_items := shown_items items q\<rparr>"
  by (simp add: rerender_def render_palette_def)

lemma typing_focused: "focused m items s \<Longrightarrow> typing m e \<Longrightarrow> focused m items (palette_step s e)"
proof -
  assume f: "focused m items s" and t: "typing m e"
  from f obtain q where s: "modal_el s = Some m" "overlays s = [(m, items, q)]"
    "current_items s = shown_items items q" by (auto simp: focused_def)
  note rr = rerender_focused [where q = q and items = items]
  show ?thesis
  proof (cases e)
    case (Input m' q')
    with t s show ?thesis
      by (simp add: typing_def set_query_def rerender_focused [where q = q' and items = items] focused_def)
  next
    case (Key m' k)
    with t s f show ?thesis
      by (cases k) (auto simp: typing_def rr focused_def)
  next
    case (RowHover m' i)
    with t s f show ?thesis by (cases "i < length (current_items s)") (auto simp: typing_def rr focused_def)
  qed (use t in \<open>auto simp: typing_def\<close>)
qed

lemma typing_run_focused:
  "focused m items s \<Longrightarrow> list_all (typing m) es \<Longrightarrow> focused m items (run_events palette_step s es)"
  by (induction es arbitrary: s) (auto simp: typing_focused)

text \<open>An overlay \<open>modalEl\<close> has been moved away from.\<close>

definition orphan :: "nat \<Rightarrow> cmdp \<Rightarrow> bool" where
  "orphan m s \<longleftrightarrow> m \<in> fst ` set (overlays s) \<and> modal_el s \<noteq> Some m \<and> m < fresh s"

lemma orphan_simps [simp]:
  "orphan m (s\<lparr>active_idx := i\<rparr>) = orphan m s" "orphan m (s\<lparr>current_items := c\<rparr>) = orphan m s"
  "orphan m (s\<lparr>commands := cs\<rparr>) = orphan m s" "orphan m (s\<lparr>pending := n\<rparr>) = orphan m s"
  by (simp_all add: orphan_def)

lemma orphan_rerender [simp]: "orphan m (rerender k s) = orphan m s"
  by (auto simp: rerender_def render_palette_def split: option.splits)

lemma orphan_set_query [simp]: "orphan m (set_query k q s) = orphan m s"
  by (force simp: orphan_def set_query_def)

lemma orphan_close: "orphan m s \<Longrightarrow> orphan m (close_palette s)"
  by (force simp: orphan_def close_palette_def split: option.splits)

lemma orphan_activate: "orphan m s \<Longrightarrow> orphan m (activate s)"
  by (simp add: activate_def Let_def orphan_close)

lemma orphan_step: "orphan m s \<Longrightarrow> orphan m (palette_step s e)"
proof (cases e)
  case (ItemsReady cs)
  assume "orphan m s"
  with ItemsReady show ?thesis
    by (auto simp: open_ready_def render_palette_def) (auto simp: orphan_def)
next
  case (Key m' k)
  assume "orphan m s"
  with Key show ?thesis by (cases k) (simp_all add: orphan_close orphan_activate)
qed (simp_all add: open_call_def orphan_close orphan_activate)

section \<open>Properties\<close>

text \<open>
  The palette's filter accepts a label exactly when the lower-cased query is a subsequence of the
  lower-cased label.
\<close>

theorem matches_subsequence: "matches lbl query \<longleftrightarrow> subseq (to_lower query) (to_lower lbl)"
  using scan_subseq [of 0 "to_lower query" "to_lower lbl"]
  by (simp add: matches_def Let_def to_lower_def)

text \<open>
  After opening the palette and any typing, arrow keys and hovering, Enter closes it and runs exactly
  one command, that of an item whose label matches what is typed; when nothing matches it runs nothing.
\<close>

theorem palette_enter_runs_match:
  assumes "list_all (typing 0) es"
  shows "let s = run_events palette_step cmdp_init ([OpenCall, ItemsReady cs] @ es);
             s' = palette_step s (Key 0 Enter); q = snd (the (map_of (overlays s) 0)) in
     modal_el s' = None \<and> overlays s' = [] \<and>
     (if current_items s = [] then commands s' = commands s
      else \<exists>it \<in> set (build_items cs). matches (label it) q \<and> commands s' = commands s @ [run it])"
proof -
  let ?items = "build_items cs"
  define s where "s = run_events palette_step cmdp_init ([OpenCall, ItemsReady cs] @ es)"
  have "shown_items ?items [] \<noteq> []"
    by (simp add: shown_items_def build_items_def nav_items_def matches_def)
  then have "focused 0 ?items (run_events palette_step cmdp_init [OpenCall, ItemsReady cs])"
    by (simp add: cmdp_init_def open_call_def open_ready_def render_palette_def focused_def)
  with assms have f: "focused 0 ?items s" unfolding s_def
    by (simp only: run_events_append typing_run_focused)
  then obtain q where s: "modal_el s = Some 0" "overlays s = [(0, ?items, q)]"
    "current_items s = shown_items ?items q" by (auto simp: focused_def)
  have "current_items s ! nat (active_idx s) \<in> set (shown_items ?items q)" if "current_items s \<noteq> []"
    using f that s(3) by (auto simp: focused_def)
  then have "current_items s \<noteq> [] \<Longrightarrow> \<exists>it \<in> set ?items. matches (label it) q \<and>
      run (current_items s ! nat (active_idx s)) = run it"
    using set_shown by blast
  with f s show ?thesis unfolding s_def [symmetric]
    by (auto simp: Let_def activate_def close_palette_def focused_def split: if_splits)
qed

theorem palette_enter_runs_match_witness:
  "let s = run_events palette_step cmdp_init ([OpenCall, ItemsReady None] @ [Input 0 ''imgs'']) in
   modal_el (palette_step s (Key 0 Enter)) = None"
  using palette_enter_runs_match [of "[Input 0 ''imgs'']" None] by (simp add: Let_def typing_def)

text \<open>
  Pressing the shortcut twice before the items have arrived opens two overlays, and the first one can
  never be closed again: no event of the palette removes it from the page.
\<close>

theorem palette_double_open_sticks:
  "0 \<in> fst ` set (overlays (run_events palette_step cmdp_init
     ([OpenCall, OpenCall, ItemsReady cs, ItemsReady cs'] @ es)))"
proof -
  have "orphan 0 (run_events palette_step cmdp_init [OpenCall, OpenCall, ItemsReady cs, ItemsReady cs'])"
    by (simp add: cmdp_init_def open_call_def open_ready_def render_palette_def orphan_def)
  then have "orphan 0 (run_events palette_step cmdp_init
      ([OpenCall, OpenCall, ItemsReady cs, ItemsReady cs'] @ es))"
    unfolding run_events_append using orphan_step by (rule run_events_invariant)
  then show ?thesis by (simp only: orphan_def)
qed

text \<open>
  A character typed into an input or text area never triggers a shortcut (without Ctrl or Meta), so no
  form loses a letter, and an unmodified digit outside them opens its slot of the table.
\<close>

theorem shortcuts_spare_typing:
  "(editable e \<and> plain e \<longrightarrow> on_keydown mac page has_search e = None) \<and>
   (\<not> editable e \<and> plain e \<and> \<not> shift_key e \<and> 1 \<le> d \<and> d \<le> 9 \<and> key e = show_nat d \<longrightarrow>
     on_keydown mac page has_search e = Some (NavTo (the (number_nav ! d))))"
proof (intro conjI impI)
  show "on_keydown mac page has_search e = None" if "editable e \<and> plain e"
    using that by (simp add: on_keydown_def plain_def)
  show "on_keydown mac page has_search e = Some (NavTo (the (number_nav ! d)))"
    if "\<not> editable e \<and> plain e \<and> \<not> shift_key e \<and> 1 \<le> d \<and> d \<le> 9 \<and> key e = show_nat d"
    using that by (rule digit_nav)
qed

theorem shortcuts_spare_typing_witness:
  "on_keydown False ''images'' True \<lparr>key = ''3'', meta_key = False, ctrl_key = False, shift_key = False,
     alt_key = False, target_tag = ''BODY'', content_editable = False\<rparr> = Some (NavTo ''images'')"
proof -
  have "show_nat 3 = ''3''" by code_simp
  then show ?thesis
    using shortcuts_spare_typing [of "\<lparr>key = ''3'', meta_key = False, ctrl_key = False, shift_key = False,
      alt_key = False, target_tag = ''BODY'', content_editable = False\<rparr>" False "''images''" True 3]
    by (simp add: editable_def plain_def number_nav_def)
qed

end
