(* ===== verification/Actions.thy ===== *)
theory Actions
  imports SingleFlight
begin

text \<open>
  The action plumbing of app.js: \<open>guardedAction\<close> and its in-flight keys, the buttons of
  \<open>makeActionBtn\<close>, the managed intervals, and the visibility handler that clears them.
\<close>

text \<open>A notification, as \<open>toast(msg, type)\<close> receives it.\<close>

datatype toast_kind = Info | Success | Error

type_synonym toast = "string \<times> toast_kind"

section \<open>\<open>guardedAction\<close>\<close>

text \<open>
  \<open>in_flight\<close> is the set \<open>_inFlight\<close>; \<open>running\<close> lists the key of every action whose promise has
  not settled, one entry per action.
\<close>

record guard =
  in_flight :: "string list"
  running :: "string list"
  toasts :: "toast list"

datatype guard_event = Begin string | Settle string

definition guard_init :: guard where
  "guard_init = \<lparr>in_flight = [], running = [], toasts = []\<rparr>"

text \<open>Whether the call runs \<open>fn\<close>; a refused call still returns a resolved promise.\<close>

definition guard_admits :: "guard \<Rightarrow> string \<Rightarrow> bool" where
  "guard_admits g key = (key \<notin> set (in_flight g))"

fun guard_step :: "guard \<Rightarrow> guard_event \<Rightarrow> guard" where
  "guard_step g (Begin key) =
     (if \<not> guard_admits g key then g\<lparr>toasts := toasts g @ [(''Action already in progress'', Info)]\<rparr>
      else g\<lparr>in_flight := key # in_flight g, running := key # running g\<rparr>)"
| "guard_step g (Settle key) =
     (if key \<in> set (running g)
      then g\<lparr>in_flight := removeAll key (in_flight g), running := remove1 key (running g)\<rparr> else g)"

definition guard_inv :: "guard \<Rightarrow> bool" where
  "guard_inv g \<longleftrightarrow> distinct (running g) \<and> set (running g) = set (in_flight g)"

lemma guard_step_inv: "guard_inv g \<Longrightarrow> guard_inv (guard_step g e)"
  by (cases e) (auto simp: guard_inv_def guard_admits_def)

lemma guard_init_inv: "guard_inv guard_init"
  by (simp add: guard_init_def guard_inv_def)

lemma guard_run_inv: "guard_inv (run_events guard_step guard_init es)"
  using guard_init_inv guard_step_inv by (rule run_events_invariant)

interpretation guard_key: single_flight guard_step "\<lambda>g. key \<in> set (in_flight g)" "\<lambda>g. count_list (running g) key"
  for key
proof (unfold_locales, goal_cases)
  case (1 g e)
  then show ?case
  proof (cases e)
    case (Settle k)
    with 1 show ?thesis by (cases "k = key") (auto simp: count_list_remove1)
  qed (auto simp: guard_admits_def)
next
  case (2 g e)
  then show ?case
  proof (cases e)
    case (Settle k)
    with 2 show ?thesis by (cases "k = key") (auto simp: count_list_remove1 count_list_0_iff)
  qed (auto simp: guard_admits_def)
qed

section \<open>Action buttons\<close>

text \<open>
  \<open>makeActionBtn\<close>: the handler disables the button, awaits the action, reports a thrown error as a
  toast and restores the label. \<open>awaiting\<close> counts the calls whose action has not settled.
\<close>

record action_btn =
  disabled :: bool
  loading :: bool
  btn_text :: string
  awaiting :: nat
  btn_toasts :: "toast list"

datatype btn_event = Click | Done | Threw string

definition make_action_btn :: "string \<Rightarrow> action_btn" where
  "make_action_btn label = \<lparr>disabled = False, loading = False, btn_text = label, awaiting = 0, btn_toasts = []\<rparr>"

definition btn_restore :: "string \<Rightarrow> action_btn \<Rightarrow> action_btn" where
  "btn_restore label b = b\<lparr>disabled := False, loading := False, btn_text := label, awaiting := awaiting b - 1\<rparr>"

text \<open>A disabled button receives no click; an action can settle only if one is awaited.\<close>

fun btn_step :: "string \<Rightarrow> string option \<Rightarrow> action_btn \<Rightarrow> btn_event \<Rightarrow> action_btn" where
  "btn_step label pending_label b Click =
     (if disabled b then b
      else b\<lparr>disabled := True, loading := True,
        btn_text := (case pending_label of Some p \<Rightarrow> (if p = [] then btn_text b else p) | None \<Rightarrow> btn_text b),
        awaiting := Suc (awaiting b)\<rparr>)"
| "btn_step label pending_label b Done = (if awaiting b = 0 then b else btn_restore label b)"
| "btn_step label pending_label b (Threw msg) =
     (if awaiting b = 0 then b
      else btn_restore label (b\<lparr>btn_toasts := btn_toasts b @ [(msg, Error)]\<rparr>))"

interpretation action_btn: single_flight "btn_step label pending_label" disabled awaiting
  for label pending_label
proof (unfold_locales, goal_cases)
  case (1 b e)
  then show ?case by (cases e) (auto simp: btn_restore_def)
next
  case (2 b e)
  then show ?case by (cases e) (auto simp: btn_restore_def)
qed

section \<open>Managed intervals\<close>

text \<open>
  \<open>live\<close> holds the interval ids the browser still fires; \<open>active\<close> is \<open>_activeIntervals\<close> and
  \<open>refresh_timer\<close> the global of that name. Ids are handed out in increasing order.
\<close>

record timers =
  next_id :: nat
  live :: "nat list"
  active :: "nat list"
  refresh_timer :: "nat option"

definition timers_init :: timers where
  "timers_init = \<lparr>next_id = 1, live = [], active = [], refresh_timer = None\<rparr>"

definition clear_interval :: "nat option \<Rightarrow> timers \<Rightarrow> timers" where
  "clear_interval i tm = (case i of None \<Rightarrow> tm | Some n \<Rightarrow> tm\<lparr>live := removeAll n (live tm)\<rparr>)"

definition managed_interval :: "timers \<Rightarrow> nat \<times> timers" where
  "managed_interval tm = (next_id tm, tm\<lparr>next_id := Suc (next_id tm), live := next_id tm # live tm,
     active := active tm @ [next_id tm]\<rparr>)"

definition clear_all_intervals :: "timers \<Rightarrow> timers" where
  "clear_all_intervals tm =
     (clear_interval (refresh_timer tm)
       (fold (\<lambda>i t. clear_interval (Some i) t) (active tm) tm)\<lparr>active := []\<rparr>)\<lparr>refresh_timer := None\<rparr>"

text \<open>What \<open>loadContainers\<close> does after each load: replace the refresh timer.\<close>

definition rearm_refresh :: "timers \<Rightarrow> timers" where
  "rearm_refresh tm = (let (i, tm') = managed_interval (clear_interval (refresh_timer tm) tm)
     in tm'\<lparr>refresh_timer := Some i\<rparr>)"

datatype timer_event = Managed | Rearm | ClearRefresh | ClearAll

fun timer_step :: "timers \<Rightarrow> timer_event \<Rightarrow> timers" where
  "timer_step tm Managed = snd (managed_interval tm)"
| "timer_step tm Rearm = rearm_refresh tm"
| "timer_step tm ClearRefresh = clear_interval (refresh_timer tm) tm"
| "timer_step tm ClearAll = clear_all_intervals tm"

definition timers_inv :: "timers \<Rightarrow> bool" where
  "timers_inv tm \<longleftrightarrow> set (live tm) \<subseteq> set (active tm) \<and> list_all (\<lambda>i. i < next_id tm) (active tm) \<and>
     distinct (live tm) \<and> (case refresh_timer tm of None \<Rightarrow> True | Some i \<Rightarrow> i < next_id tm)"

lemma fold_clear:
  "live (fold (\<lambda>i t. clear_interval (Some i) t) is tm) = filter (\<lambda>i. i \<notin> set is) (live tm)"
  "active (fold (\<lambda>i t. clear_interval (Some i) t) is tm) = active tm"
  "next_id (fold (\<lambda>i t. clear_interval (Some i) t) is tm) = next_id tm"
  by (induction "is" arbitrary: tm)
    (auto simp: clear_interval_def removeAll_filter_not_eq intro!: filter_cong)

lemma clear_interval_simps [simp]:
  "live (clear_interval i tm) = filter (\<lambda>n. i \<noteq> Some n) (live tm)"
  "active (clear_interval i tm) = active tm"
  "next_id (clear_interval i tm) = next_id tm"
  "refresh_timer (clear_interval i tm) = refresh_timer tm"
  by (cases i; simp add: clear_interval_def removeAll_filter_not_eq)+

lemma clear_all_live: "timers_inv tm \<Longrightarrow> live (clear_all_intervals tm) = []"
  by (auto simp: clear_all_intervals_def timers_inv_def fold_clear filter_empty_conv)

lemma clear_all_simps [simp]:
  "active (clear_all_intervals tm) = []"
  "refresh_timer (clear_all_intervals tm) = None"
  "next_id (clear_all_intervals tm) = next_id tm"
  by (simp_all add: clear_all_intervals_def fold_clear)

lemma timer_step_inv: "timers_inv tm \<Longrightarrow> timers_inv (timer_step tm e)"
proof (cases e)
  case ClearAll
  assume "timers_inv tm"
  then have "live (clear_all_intervals tm) = []" by (rule clear_all_live)
  with ClearAll show ?thesis by (simp add: timers_inv_def clear_all_intervals_def)
qed (auto simp: timers_inv_def managed_interval_def rearm_refresh_def list_all_iff less_Suc_eq
    split: option.splits)

lemma timers_init_inv: "timers_inv timers_init"
  by (simp add: timers_init_def timers_inv_def)

lemma timer_run_inv: "timers_inv (run_events timer_step timers_init es)"
  using timers_init_inv timer_step_inv by (rule run_events_invariant)

section \<open>The visibility handler\<close>

text \<open>
  When the tab is hidden every interval is cleared; when it is shown again the handler looks the
  current page up in its own table of loaders, and calls the loader it finds.
\<close>

definition visibility_pages :: "string list" where
  "visibility_pages = [''containers'', ''images'', ''volumes'', ''networks'', ''compose'', ''system'']"

datatype visibility = Hidden | Visible

definition on_visibility :: "visibility \<Rightarrow> string \<Rightarrow> string \<Rightarrow> timers \<Rightarrow> timers \<times> string option" where
  "on_visibility v token page tm =
     (if v = Hidden then (clear_all_intervals tm, None)
      else if token \<noteq> [] \<and> page \<noteq> [] then (tm, if page \<in> set visibility_pages then Some page else None)
      else (tm, None))"

section \<open>Properties\<close>

text \<open>
  C8: whatever calls and completions are interleaved, at most one action per guard key is running, and
  a key is held exactly while its action runs (so a settled action can always be started again).
\<close>

theorem guarded_action_exclusive:
  "let g = run_events guard_step guard_init es in
     count_list (running g) key \<le> 1 \<and> (key \<in> set (in_flight g) \<longleftrightarrow> count_list (running g) key = 1)"
  using guard_key.run_flag [of guard_init key es] by (simp add: Let_def guard_init_def)

text \<open>
  After any run of registrations, refreshes and clears, clearing all intervals leaves no interval
  firing, and two refreshes after it leave exactly one: the second one's.
\<close>

theorem clear_all_stops_everything:
  "let tm = run_events timer_step timers_init es; cleared = clear_all_intervals tm in
     live cleared = [] \<and> refresh_timer cleared = None \<and>
     live (rearm_refresh (rearm_refresh cleared)) = [Suc (next_id tm)]"
proof -
  have "live (clear_all_intervals (run_events timer_step timers_init es)) = []"
    using timer_run_inv by (rule clear_all_live)
  then show ?thesis by (simp add: rearm_refresh_def managed_interval_def Let_def)
qed

text \<open>
  Hiding and showing the tab on the dashboard (or on the templates or settings page) stops its poll
  for good: every interval is cleared and no loader is called, although the user is signed in.
\<close>

theorem visibility_drops_dashboard_poll:
  assumes "timers_inv tm" and "page \<in> {''dashboard'', ''templates'', ''settings''}"
  shows "let (tm1, _) = on_visibility Hidden token page tm; (tm2, loader) = on_visibility Visible token page tm1
    in live tm2 = [] \<and> loader = None"
  using clear_all_live [OF assms(1)] assms(2)
  by (auto simp: on_visibility_def visibility_pages_def Let_def)

theorem visibility_drops_dashboard_poll_witness:
  "let tm = snd (managed_interval timers_init);
       (tm1, _) = on_visibility Hidden ''tok'' ''dashboard'' tm;
       (tm2, loader) = on_visibility Visible ''tok'' ''dashboard'' tm1
   in live tm \<noteq> [] \<and> live tm2 = [] \<and> loader = None"
proof -
  have inv: "timers_inv (snd (managed_interval timers_init))"
    using timer_run_inv [of "[Managed]"] by simp
  show ?thesis
    using visibility_drops_dashboard_poll [OF inv, of "''dashboard''" "''tok''"]
    by (simp add: managed_interval_def timers_init_def Let_def)
qed

end
