(* ===== verification/Registry.thy ===== *)
theory Registry
  imports Actions Dom
begin

text \<open>
  Navigation: the page registry of ui.js with the pages app.js registers, the sidebar of
  core/sidebar.js, \<open>showPage\<close>, the landing page, the profile switcher and the banners of app.js.
\<close>

section \<open>The registry\<close>

record page =
  page_id :: string
  label :: string
  icon :: "string option"
  href :: string
  personas :: "string list option"
  page_keywords :: "string list"
  help_ref :: "string option"
  order :: int
  external :: bool

text \<open>A registration as its caller writes it: every field but \<open>id\<close> may be left out.\<close>

record page_decl =
  decl_id :: string
  decl_label :: string
  decl_icon :: string
  decl_href :: string
  decl_personas :: "string list option"
  decl_keywords :: "string list option"
  decl_help :: string
  decl_order :: "int option"
  decl_external :: bool

definition decl :: "string \<Rightarrow> string \<Rightarrow> int \<Rightarrow> string list \<Rightarrow> page_decl" where
  "decl i l n ks = \<lparr>decl_id = i, decl_label = l, decl_icon = [], decl_href = [], decl_personas = None,
     decl_keywords = Some ks, decl_help = [], decl_order = Some n, decl_external = False\<rparr>"

definition opt_str :: "string \<Rightarrow> string option" where
  "opt_str s = (if s = [] then None else Some s)"

definition register_page :: "page list \<Rightarrow> page_decl option \<Rightarrow> string + page list" where
  "register_page ps d = (case d of None \<Rightarrow> Inl ''UI.registerPage: id is required''
     | Some d \<Rightarrow>
       if decl_id d = [] then Inl ''UI.registerPage: id is required''
       else if \<exists>x \<in> set ps. page_id x = decl_id d then Inl (''UI.registerPage: duplicate id '' @ decl_id d)
       else Inr (ps @ [\<lparr>page_id = decl_id d, label = or_str (decl_label d) (decl_id d), icon = opt_str (decl_icon d),
         href = or_str (decl_href d) (''#'' @ decl_id d), personas = decl_personas d,
         page_keywords = (case decl_keywords d of None \<Rightarrow> [] | Some ks \<Rightarrow> ks), help_ref = opt_str (decl_help d),
         order = (case decl_order d of None \<Rightarrow> 100 | Some n \<Rightarrow> n), external = decl_external d\<rparr>]))"

definition visible_to :: "string \<Rightarrow> page \<Rightarrow> bool" where
  "visible_to persona p = (case personas p of None \<Rightarrow> True | Some ps \<Rightarrow> persona \<in> set ps)"

definition get_pages :: "page list \<Rightarrow> string \<Rightarrow> page list" where
  "get_pages ps persona = (let ordered = sort_key order ps in
     if persona = [] then ordered else filter (visible_to persona) ordered)"

fun get_page :: "page list \<Rightarrow> string \<Rightarrow> page option" where
  "get_page [] i = None"
| "get_page (p # ps) i = (if page_id p = i then Some p else get_page ps i)"

fun register_all :: "page list \<Rightarrow> page_decl list \<Rightarrow> string + page list" where
  "register_all ps [] = Inr ps"
| "register_all ps (d # ds) = res_bind (register_page ps (Some d)) (\<lambda>ps'. register_all ps' ds)"

text \<open>\<open>registerPages\<close> of app.js.\<close>

definition app_pages :: "page_decl list" where
  "app_pages =
    [decl ''dashboard'' ''Dashboard'' 5 [''home'', ''overview''],
     decl ''containers'' ''Containers'' 10 [''ps'', ''ls''],
     decl ''images'' ''Images'' 20 [''pull'', ''image''],
     decl ''templates'' ''Templates'' 25 [''quick-start'', ''app'', ''deploy''],
     decl ''volumes'' ''Volumes'' 30 [''mount''],
     decl ''networks'' ''Networks'' 40 [''net''],
     decl ''compose'' ''Compose'' 50 [''stack''],
     (decl ''system'' ''System'' 60 [''prune'', ''metrics'', ''audit''])
       \<lparr>decl_personas := Some [''dev'', ''sre'', ''reviewer'', ''ci'']\<rparr>,
     decl ''settings'' ''Settings'' 70
       [''config'', ''configuration'', ''knob'', ''env'', ''toml'', ''rate limit'', ''session''],
     (decl ''api-docs'' ''API docs'' 80 [''api'', ''openapi'', ''swagger'', ''reference''])
       \<lparr>decl_external := True, decl_href := ''/api/docs''\<rparr>]"

definition pages :: "page list" where
  "pages = (case register_all [] app_pages of Inr ps \<Rightarrow> ps | Inl _ \<Rightarrow> [])"

section \<open>The sidebar\<close>

definition icons :: "(string \<times> string) list" where
  "icons =
    [(''dashboard'', ''<path d='' @ dquote @ ''M2 2h5v7H2V2zm7 0h5v4H9V2zm0 6h5v7H9V8zm-7 3h5v4H2v-4z'' @ dquote @ ''/>''),
     (''containers'', ''<path d='' @ dquote @ ''M2.5 2A1.5 1.5 0 001 3.5v9A1.5 1.5 0 002.5 14h11a1.5 1.5 0 001.5-1.5v-9A1.5 1.5 0 0013.5 2h-11zM2 3.5a.5.5 0 01.5-.5h11a.5.5 0 01.5.5v9a.5.5 0 01-.5.5h-11a.5.5 0 01-.5-.5v-9z'' @ dquote @ ''/><path d='' @ dquote @ ''M4 6h2v1H4V6zm3 0h2v1H7V6zm3 0h2v1h-2V6zM4 8h2v1H4V8zm3 0h2v1H7V8z'' @ dquote @ ''/>''),
     (''images'', ''<path d='' @ dquote @ ''M1 3.5A1.5 1.5 0 012.5 2h11A1.5 1.5 0 0115 3.5v9a1.5 1.5 0 01-1.5 1.5h-11A1.5 1.5 0 011 12.5v-9z'' @ dquote @ ''/>''),
     (''templates'', ''<path d='' @ dquote @ ''M3 2h4v4H3V2zm6 0h4v4H9V2zM3 8h4v4H3V8zm6 2h4a1 1 0 110 2h-2v2h-2v-2H9v-2z'' @ dquote @ ''/>''),
     (''volumes'', ''<path d='' @ dquote @ ''M8 1C4.5 1 2 2.1 2 3.5v9C2 13.9 4.5 15 8 15s6-1.1 6-2.5v-9C14 2.1 11.5 1 8 1z'' @ dquote @ ''/>''),
     (''networks'', ''<path d='' @ dquote @ ''M8 1a2 2 0 012 2 2 2 0 01-1 1.73V6h3a2 2 0 012 2v.27A2 2 0 0115 10a2 2 0 01-2 2 2 2 0 01-1.73-1H10v1.27A2 2 0 0111 14a2 2 0 01-2 2 2 2 0 01-2-2 2 2 0 011-1.73V11H6.73A2 2 0 015 12a2 2 0 01-2-2 2 2 0 011-1.73V8a2 2 0 012-2h3V4.73A2 2 0 018 3a2 2 0 010-2z'' @ dquote @ ''/>''),
     (''compose'', ''<path d='' @ dquote @ ''M3.5 1A1.5 1.5 0 002 2.5v11A1.5 1.5 0 003.5 15h9a1.5 1.5 0 001.5-1.5v-8L9.5 1h-6z'' @ dquote @ ''/>''),
     (''system'', ''<path d='' @ dquote @ ''M8 4.754a3.246 3.246 0 100 6.492 3.246 3.246 0 000-6.492z'' @ dquote @ ''/><path d='' @ dquote @ ''M9.796 1.343c-.527-1.79-3.065-1.79-3.592 0l-.094.319a.873.873 0 01-1.255.52l-.292-.16c-1.64-.892-3.433.902-2.54 2.541l.159.292a.873.873 0 01-.52 1.255l-.319.094c-1.79.527-1.79 3.065 0 3.592l.319.094a.873.873 0 01.52 1.255l-.16.292c-.892 1.64.902 3.434 2.541 2.54l.292-.159a.873.873 0 011.255.52l.094.319c.527 1.79 3.065 1.79 3.592 0l.094-.319a.873.873 0 011.255-.52l.292.16c1.64.893 3.434-.902 2.54-2.541l-.159-.292a.873.873 0 01.52-1.255l.319-.094c1.79-.527 1.79-3.065 0-3.592l-.319-.094a.873.873 0 01-.52-1.255l.16-.292c.893-1.64-.902-3.433-2.541-2.54l-.292.159a.873.873 0 01-1.255-.52l-.094-.319z'' @ dquote @ ''/>''),
     (''settings'', ''<path d='' @ dquote @ ''M2 3h12v2H2V3zm0 4h12v2H2V7zm0 4h12v2H2v-2z'' @ dquote @ ''/><circle cx='' @ dquote @ ''4'' @ dquote @ '' cy='' @ dquote @ ''4'' @ dquote @ '' r='' @ dquote @ ''1'' @ dquote @ '' fill='' @ dquote @ ''white'' @ dquote @ ''/><circle cx='' @ dquote @ ''10'' @ dquote @ '' cy='' @ dquote @ ''8'' @ dquote @ '' r='' @ dquote @ ''1'' @ dquote @ '' fill='' @ dquote @ ''white'' @ dquote @ ''/><circle cx='' @ dquote @ ''6'' @ dquote @ '' cy='' @ dquote @ ''12'' @ dquote @ '' r='' @ dquote @ ''1'' @ dquote @ '' fill='' @ dquote @ ''white'' @ dquote @ ''/>''),
     (''api-docs'', ''<path d='' @ dquote @ ''M3 2h7l3 3v9a1 1 0 01-1 1H3a1 1 0 01-1-1V3a1 1 0 011-1zm7 0v3h3M5 8h6M5 10h6M5 12h4'' @ dquote @ ''/>'')]"

definition icon_svg :: "string \<Rightarrow> string" where
  "icon_svg i = (case map_of icons i of None \<Rightarrow> []
     | Some d \<Rightarrow> ''<svg width='' @ dquote @ ''16'' @ dquote @ '' height='' @ dquote @ ''16'' @ dquote @
         '' viewBox='' @ dquote @ ''0 0 16 16'' @ dquote @ '' fill='' @ dquote @ ''currentColor'' @ dquote @
         ''>'' @ d @ ''</svg>'')"

abbreviation ext_arrow :: string where
  "ext_arrow \<equiv> [CHR 0xE2, CHR 0x86, CHR 0x97]"

definition sidebar_link :: "nat \<times> page \<Rightarrow> string node" where
  "sidebar_link ip = (let idx = fst ip; p = snd ip; svg = icon_svg (page_id p);
       base = (new_elem ''a'')\<lparr>attributes := [(''data-page'', page_id p)],
         class_name := (if idx = 0 \<and> \<not> external p then ''active'' else [])\<rparr>;
       kids = (if svg = [] then [] else [Raw svg]) @ text_nodes (or_str (label p) (page_id p)) in
     if external p
     then Elem (base\<lparr>attributes := attributes base @
            [(''href'', href p), (''target'', ''_blank''), (''rel'', ''noopener noreferrer'')]\<rparr>)
         (kids @ [Elem ((new_elem ''span'')\<lparr>class_name := ''sidebar-ext-arrow'',
            attributes := [(''aria-hidden'', ''true'')]\<rparr>) [Text ext_arrow]])
     else Elem (base\<lparr>listeners := [(''click'', page_id p)]\<rparr>) kids)"

text \<open>\<open>Inl\<close> is the retry scheduled while the registry is empty.\<close>

definition render_sidebar :: "page list \<Rightarrow> string \<Rightarrow> unit + string node list" where
  "render_sidebar ps persona = (let shown = get_pages ps persona in
     if shown = [] then Inl () else Inr (map sidebar_link (enumerate 0 shown)))"

text \<open>What \<open>textContent\<close> of a link is: markup of the icon carries no text.\<close>

definition link_text :: "page \<Rightarrow> string" where
  "link_text p = or_str (label p) (page_id p) @ (if external p then ext_arrow else [])"

section \<open>\<open>showPage\<close>\<close>

record nav =
  current_page :: string
  nav_timers :: timers
  main_ws :: bool
  term_host_shown :: bool
  last_page :: "string option"
  links :: "(string \<times> bool) list"
  refresh_in_flight :: bool
  last_containers :: bool
  loads :: "string list"
  windows :: "string list"

definition dispatch :: "(string \<times> string) list" where
  "dispatch = [(''dashboard'', ''showDashboard''), (''containers'', ''loadContainers''), (''images'', ''loadImages''),
     (''templates'', ''showTemplates''), (''volumes'', ''loadVolumes''), (''networks'', ''loadNetworks''),
     (''compose'', ''showCompose''), (''system'', ''loadSystem''), (''settings'', ''showSettings'')]"

definition loader_of :: "string \<Rightarrow> string" where
  "loader_of page = (case map_of dispatch page of Some f \<Rightarrow> f | None \<Rightarrow> ''loadContainers'')"

text \<open>\<open>storage\<close> says whether \<open>localStorage.setItem\<close> succeeds.\<close>

definition activate_link :: "string \<Rightarrow> string \<times> bool \<Rightarrow> string \<times> bool" where
  "activate_link page l = (fst l, to_lower (trim (fst l)) = page)"

definition enter_page :: "bool \<Rightarrow> string \<Rightarrow> nav \<Rightarrow> nav" where
  "enter_page storage page n = n\<lparr>nav_timers := clear_all_intervals (nav_timers n), main_ws := False,
     term_host_shown := False, current_page := page,
     last_page := (if storage then Some page else last_page n),
     links := map (activate_link page) (links n),
     refresh_in_flight := False, last_containers := False, loads := loads n @ [loader_of page]\<rparr>"

definition show_page :: "page list \<Rightarrow> bool \<Rightarrow> string \<Rightarrow> nav \<Rightarrow> nav" where
  "show_page ps storage page n =
     (case find (\<lambda>p. page_id p = page) (get_pages ps []) of
        Some p \<Rightarrow> if external p \<and> href p \<noteq> [] then n\<lparr>windows := windows n @ [href p]\<rparr>
          else enter_page storage page n
      | None \<Rightarrow> enter_page storage page n)"

text \<open>The landing page chosen by the init function from the stored one.\<close>

definition landing_pages :: "string list" where
  "landing_pages = [''dashboard'', ''containers'', ''images'', ''templates'', ''volumes'', ''networks'',
     ''compose'', ''system'', ''settings'']"

definition landing :: "string option \<Rightarrow> string" where
  "landing stored = (case stored of None \<Rightarrow> ''containers''
     | Some s \<Rightarrow> if s \<noteq> [] \<and> s \<in> set landing_pages then s else ''containers'')"

section \<open>Profiles\<close>

text \<open>
  The banners are inserted before the first child of the body and identified by their id, so each is
  rendered once. \<open>body\<close> lists the ids and texts from the top.
\<close>

definition render_reviewer_banner :: "string \<Rightarrow> (string \<times> string) list \<Rightarrow> (string \<times> string) list" where
  "render_reviewer_banner msg body = (if ''reviewer-mode-banner'' \<in> fst ` set body then body
     else (''reviewer-mode-banner'', msg) # body)"

definition render_insecure_banner :: "string \<Rightarrow> (string \<times> string) list \<Rightarrow> (string \<times> string) list" where
  "render_insecure_banner bind body = (if ''insecure-mode-banner'' \<in> fst ` set body then body
     else (''insecure-mode-banner'', ''INSECURE MODE '' @ em_dash @ '' server bound to '' @ bind @
       '' with no API_TOKEN. Anyone on the network can control Docker. Set API_TOKEN and restart.'') # body)"

datatype switch_action = EnterReviewer

text \<open>The change handler of the profile switcher: what it requests, given the user's answer.\<close>

definition profile_switch :: "string \<Rightarrow> bool \<Rightarrow> switch_action option" where
  "profile_switch target confirmed =
     (if target \<noteq> ''reviewer'' then None else if \<not> confirmed then None else Some EnterReviewer)"

text \<open>The part of init that reads \<open>/api/config\<close>: body class and banners, or the switcher.\<close>

definition apply_profile :: "string \<Rightarrow> bool \<Rightarrow> string \<Rightarrow> string \<Rightarrow> (string \<times> string) list \<Rightarrow>
    bool \<times> bool \<times> (string \<times> string) list" where
  "apply_profile profile insecure bind msg body =
     (let reviewer = (profile = ''reviewer'');
          b1 = (if reviewer then render_reviewer_banner msg body else body);
          b2 = (if insecure then render_insecure_banner (or_str bind ''0.0.0.0'') b1 else b1)
      in (reviewer, \<not> reviewer, b2))"

section \<open>Lemmas\<close>

lemma register_page_ids: "register_page ps d = Inr ps' \<Longrightarrow>
    distinct (map page_id ps) \<Longrightarrow> distinct (map page_id ps')"
  by (fastforce simp: register_page_def split: option.splits if_splits)

lemma register_all_ids: "register_all ps ds = Inr ps' \<Longrightarrow> distinct (map page_id ps) \<Longrightarrow> distinct (map page_id ps')"
proof (induction ds arbitrary: ps)
  case (Cons d ds)
  then obtain ps1 where "register_page ps (Some d) = Inr ps1" and "register_all ps1 ds = Inr ps'"
    by (auto simp: res_bind_Inr_iff)
  with Cons register_page_ids [of ps "Some d" ps1] show ?case by blast
qed simp

lemma get_page_iff: "distinct (map page_id ps) \<Longrightarrow> get_page ps i = Some p \<longleftrightarrow> p \<in> set ps \<and> page_id p = i"
  by (induction ps) (auto simp: image_iff)

lemma internal_pages: "map page_id (filter (\<lambda>p. \<not> external p) (get_pages pages [])) = landing_pages"
  by code_simp

lemma page_texts: "map (\<lambda>p. (page_id p, external p, link_text p)) pages =
    [(''dashboard'', False, ''Dashboard''), (''containers'', False, ''Containers''), (''images'', False, ''Images''),
     (''templates'', False, ''Templates''), (''volumes'', False, ''Volumes''), (''networks'', False, ''Networks''),
     (''compose'', False, ''Compose''), (''system'', False, ''System''), (''settings'', False, ''Settings''),
     (''api-docs'', True, ''API docs'' @ ext_arrow)]"
  by code_simp

lemma loader_of_dispatch: "list_all (\<lambda>(p, f). loader_of p = f) dispatch"
  by code_simp

lemma internal_not_external: "list_all (\<lambda>page. \<forall>p \<in> set pages. page_id p = page \<longrightarrow> \<not> external p) landing_pages"
  by code_simp

lemma active_links_of: "list_all (\<lambda>page. map fst (filter snd (map (activate_link page) (map (\<lambda>p. (link_text p, b)) pages)))
    = map link_text (filter (\<lambda>p. page_id p = page) pages)) landing_pages"
  by code_simp

lemma activate_link_fst: "map (activate_link page) ls = map (\<lambda>t. (t, to_lower (trim t) = page)) (map fst ls)"
  by (simp add: activate_link_def)

lemma show_page_internal:
  assumes "page \<in> set landing_pages"
  shows "show_page pages storage page n = enter_page storage page n"
proof (cases "find (\<lambda>p. page_id p = page) (get_pages pages [])")
  case (Some p)
  then have "p \<in> set (get_pages pages [])" and "page_id p = page"
    by (auto simp: find_Some_iff)
  then have "\<not> external p"
    using internal_not_external assms by (auto simp: list_all_iff get_pages_def)
  with Some show ?thesis by (simp add: show_page_def)
qed (simp add: show_page_def)

section \<open>Properties\<close>

text \<open>
  Page ids stay unique however modules register, and what the sidebar is given is the registered
  pages in ascending order, pages of equal order in registration order, none invented or lost except
  those hidden from the persona.
\<close>

theorem registry_sorted_unique:
  assumes "register_all [] ds = Inr ps"
  shows "distinct (map page_id ps) \<and> sorted (map order (get_pages ps persona)) \<and>
    filter (\<lambda>p. order p = n) (get_pages ps persona) =
      filter (\<lambda>p. order p = n \<and> (persona = [] \<or> visible_to persona p)) ps \<and>
    (get_page ps i = Some p \<longleftrightarrow> p \<in> set ps \<and> page_id p = i)"
proof -
  have d: "distinct (map page_id ps)" using register_all_ids [OF assms] by simp
  have st: "filter (\<lambda>p. order p = n) (sort_key order ps) = filter (\<lambda>p. order p = n) ps"
    by (rule sort_key_stable)
  have "filter (\<lambda>p. order p = n) (filter (visible_to persona) (sort_key order ps)) =
      filter (visible_to persona) (filter (\<lambda>p. order p = n) (sort_key order ps))"
    by (simp add: filter_filter conj_commute)
  also have "\<dots> = filter (\<lambda>p. order p = n \<and> visible_to persona p) ps"
    by (simp add: st filter_filter)
  finally show ?thesis using d st get_page_iff [OF d]
    by (simp add: get_pages_def Let_def sorted_filter)
qed

theorem registry_sorted_unique_witness:
  "sorted (map order (get_pages pages ''dev''))"
proof -
  have "register_all [] app_pages = Inr pages" by code_simp
  from registry_sorted_unique [OF this] show ?thesis by blast
qed

text \<open>
  C7: entering a page of the sidebar runs that page's own loader, leaves no interval of the page before
  it firing, closes its socket, marks exactly that page's link, and a reload comes back to it.
\<close>

theorem show_page_lands:
  assumes "page \<in> set landing_pages" and "map fst (links n) = map link_text pages"
    and "timers_inv (nav_timers n)"
  shows "let n' = show_page pages True page n in
    current_page n' = page \<and> live (nav_timers n') = [] \<and> \<not> main_ws n' \<and>
    (page, last (loads n')) \<in> set dispatch \<and>
    map fst (filter snd (links n')) = map link_text (filter (\<lambda>p. page_id p = page) pages) \<and>
    landing (last_page n') = page"
proof -
  have "links (enter_page True page n) = map (activate_link page) (map (\<lambda>p. (link_text p, False)) pages)"
    using assms(2) by (simp add: enter_page_def activate_link_fst) (simp add: activate_link_def)
  then have links: "map fst (filter snd (links (enter_page True page n))) =
      map link_text (filter (\<lambda>p. page_id p = page) pages)"
    using active_links_of [of False] assms(1) by (simp add: list_all_iff)
  have "(page, loader_of page) \<in> set dispatch"
    using assms(1) by (auto simp: landing_pages_def dispatch_def loader_of_def)
  moreover have "page \<noteq> []" using assms(1) by (auto simp: landing_pages_def)
  ultimately show ?thesis
    using assms links clear_all_live
    by (simp add: show_page_internal Let_def) (simp add: enter_page_def landing_def)
qed

theorem show_page_lands_witness:
  "let n = \<lparr>current_page = [], nav_timers = timers_init, main_ws = True, term_host_shown = True, last_page = None,
       links = map (\<lambda>p. (link_text p, False)) pages, refresh_in_flight = False, last_containers = False,
       loads = [], windows = []\<rparr> in
   landing (last_page (show_page pages True ''volumes'' n)) = ''volumes''"
proof -
  define n where "n = \<lparr>current_page = [], nav_timers = timers_init, main_ws = True, term_host_shown = True,
       last_page = None, links = map (\<lambda>p. (link_text p, False)) pages, refresh_in_flight = False,
       last_containers = False, loads = [], windows = []\<rparr>"
  have "''volumes'' \<in> set landing_pages" by (simp add: landing_pages_def)
  moreover have "map fst (links n) = map link_text pages" by (simp add: n_def o_def)
  moreover have "timers_inv (nav_timers n)" by (simp add: n_def timers_init_inv)
  ultimately show ?thesis using show_page_lands [of "''volumes''" n] by (simp add: Let_def n_def)
qed

text \<open>
  The external entry opens its address in a new window and changes nothing else: the current page, its
  intervals and the stored landing page stay.
\<close>

theorem external_page_keeps_nav:
  "show_page pages storage ''api-docs'' n = n\<lparr>windows := windows n @ [''/api/docs'']\<rparr>"
proof -
  have "find (\<lambda>p. page_id p = ''api-docs'') (get_pages pages []) = Some (last pages)
      \<and> external (last pages) \<and> href (last pages) = ''/api/docs''" by code_simp
  then show ?thesis by (simp add: show_page_def)
qed

end
