(* ===== verification/Session.thy ===== *)
theory Session
  imports Actions StatusBanner
begin

text \<open>
  The session logic of app.js: the knobs read from \<open>/api/config\<close>, the token, the idle and absolute
  timeouts with their warning banners, the clean-up at the end of a session, \<open>apiFetch\<close> and the docker
  status. Time is in milliseconds; a pending \<open>setTimeout\<close> is its deadline, and its callback an event the
  browser delivers at or after it. \<open>tr\<close> stands for the lookup \<open>t(key)\<close> of I18n.
\<close>

section \<open>State\<close>

datatype banner_button = StaySignedIn

datatype screen = Login | Page string

record session =
  api_token :: string
  session_start :: "int option"
  idle_ms :: int
  absolute_ms :: int
  undo_window_secs :: int
  containers_poll_ms :: int
  dashboard_poll_ms :: int
  events_poll_ms :: int
  fetch_timeout_ms :: int
  idle_timer :: "int option"
  idle_timer_set :: bool
  idle_warn_timer :: "int option"
  absolute_warn_timer :: "int option"
  status_banner :: "banner_button banner"
  toasts_shown :: "toast list"
  screen :: screen
  active_ws :: "nat list"
  page_timers :: timers
  modals :: nat
  term_frames :: nat
  docker_ok :: bool
  docker_host :: string
  docker_vm_host :: string
  sidebar_status :: string

definition session_init :: "string \<Rightarrow> int option \<Rightarrow> session" where
  "session_init token start = \<lparr>api_token = token, session_start = start, idle_ms = 15 * 60 * 1000,
     absolute_ms = 8 * 60 * 60 * 1000, undo_window_secs = 5, containers_poll_ms = 5000, dashboard_poll_ms = 8000,
     events_poll_ms = 5000, fetch_timeout_ms = 30000, idle_timer = None, idle_timer_set = False,
     idle_warn_timer = None, absolute_warn_timer = None, status_banner = banner_init, toasts_shown = [],
     screen = Page [], active_ws = [], page_timers = timers_init, modals = 0, term_frames = 0, docker_ok = True,
     docker_host = [], docker_vm_host = [], sidebar_status = []\<rparr>"

definition say :: "string \<Rightarrow> toast_kind \<Rightarrow> session \<Rightarrow> session" where
  "say msg kind s = s\<lparr>toasts_shown := toasts_shown s @ [(msg, kind)]\<rparr>"

definition show_banner :: "int \<Rightarrow> string \<Rightarrow> string \<Rightarrow> string \<Rightarrow> banner_button banner_action option \<Rightarrow> int option \<Rightarrow>
    session \<Rightarrow> session" where
  "show_banner now key sev msg act ms s = s\<lparr>status_banner := banner_set now key
     (Some \<lparr>opt_severity = sev, opt_message = msg, opt_action = act, expires_in_ms = ms\<rparr>) (status_banner s)\<rparr>"

definition hide_banner :: "int \<Rightarrow> string \<Rightarrow> session \<Rightarrow> session" where
  "hide_banner now key s = s\<lparr>status_banner := banner_clear now key (status_banner s)\<rparr>"

section \<open>Timers and the token\<close>

definition idle_warn_ms :: int where
  "idle_warn_ms = 60 * 1000"

definition abs_warn_ms :: int where
  "abs_warn_ms = 2 * 60 * 1000"

definition reset_idle_timer :: "int \<Rightarrow> session \<Rightarrow> session" where
  "reset_idle_timer now s = (hide_banner now ''session_near_expiry'' s)
     \<lparr>idle_warn_timer := Some (now + max 0 (idle_ms s - idle_warn_ms)),
      idle_timer := Some (now + idle_ms s), idle_timer_set := True\<rparr>"

definition set_token :: "int \<Rightarrow> string \<Rightarrow> session \<Rightarrow> session" where
  "set_token now tok s = reset_idle_timer now (s\<lparr>api_token := tok, session_start := Some now\<rparr>)"

definition storage_clear :: "session \<Rightarrow> session" where
  "storage_clear s = s\<lparr>api_token := [], session_start := None\<rparr>"

definition close_all_ws :: "session \<Rightarrow> session" where
  "close_all_ws s = s\<lparr>active_ws := []\<rparr>"

definition session_cleanup :: "session \<Rightarrow> session" where
  "session_cleanup s = (close_all_ws (s\<lparr>page_timers := clear_all_intervals (page_timers s)\<rparr>))
     \<lparr>modals := 0, term_frames := 0\<rparr>"

definition show_login :: "session \<Rightarrow> session" where
  "show_login s = s\<lparr>screen := Login\<rparr>"

text \<open>The callbacks of the three timers.\<close>

definition idle_expired :: "int \<Rightarrow> session \<Rightarrow> session" where
  "idle_expired now s = (if api_token s \<noteq> [] then
     show_login (say ''Session expired (idle timeout)'' Error
       (hide_banner now ''session_near_expiry'' (session_cleanup (storage_clear s)))) else s)"

definition idle_warning :: "(string \<Rightarrow> string) \<Rightarrow> int \<Rightarrow> session \<Rightarrow> session" where
  "idle_warning tr now s = (if api_token s = [] then s else
     show_banner now ''session_near_expiry'' ''warn'' (tr ''banner.session_near_expiry'')
       (Some \<lparr>label = tr ''banner.stay_signed_in'', on_click = Some StaySignedIn\<rparr>) (Some idle_warn_ms) s)"

definition absolute_warning :: "(string \<Rightarrow> string) \<Rightarrow> int \<Rightarrow> session \<Rightarrow> session" where
  "absolute_warning tr now s = (if api_token s = [] then s else
     show_banner now ''session_absolute_near_expiry'' ''warn'' (tr ''banner.session_absolute_near_expiry'')
       None (Some abs_warn_ms) s)"

definition start_time :: "session \<Rightarrow> int" where
  "start_time s = (case session_start s of None \<Rightarrow> 0 | Some x \<Rightarrow> x)"

definition arm_absolute_warning :: "int \<Rightarrow> session \<Rightarrow> session" where
  "arm_absolute_warning now s0 = (let s = s0\<lparr>absolute_warn_timer := None\<rparr>; start = start_time s in
     if start = 0 then s else
     let elapsed = now - start; wait = absolute_ms s - abs_warn_ms - elapsed in
     if wait \<le> 0 then s else s\<lparr>absolute_warn_timer := Some (now + wait)\<rparr>)"

definition check_session_expiry :: "int \<Rightarrow> session \<Rightarrow> bool \<times> session" where
  "check_session_expiry now s = (let start = start_time s in
     if start \<noteq> 0 \<and> now - start > absolute_ms s
     then (True, show_login (say ''Session expired (8-hour limit)'' Error (session_cleanup (storage_clear s))))
     else (False, s))"

definition logout_click :: "session \<Rightarrow> session" where
  "logout_click s = show_login (session_cleanup (storage_clear s))"

section \<open>Configuration\<close>

text \<open>Each field is \<open>Number(appCfg.field)\<close>; \<open>None\<close> when it is not finite.\<close>

record app_cfg =
  cfg_idle_secs :: "int option"
  cfg_abs_timeout :: "int option"
  cfg_undo_delay :: "int option"
  cfg_containers_poll :: "int option"
  cfg_dashboard_poll :: "int option"
  cfg_events_poll :: "int option"
  cfg_fetch_timeout :: "int option"
  cfg_docker_host :: string
  cfg_docker_vm_host :: string
  cfg_ws_locked :: "int option"

definition apply_ms :: "int option \<Rightarrow> int \<Rightarrow> int \<Rightarrow> int \<Rightarrow> int" where
  "apply_ms n current lo hi = (case n of None \<Rightarrow> current | Some n \<Rightarrow> if n \<ge> lo \<and> n \<le> hi then n else current)"

definition accepted :: "int option \<Rightarrow> int \<Rightarrow> int \<Rightarrow> int \<Rightarrow> bool" where
  "accepted n lo hi current = (case n of None \<Rightarrow> False
     | Some n \<Rightarrow> n \<ge> lo \<and> n \<le> hi \<and> current \<noteq> n * 1000)"

definition apply_session_timeouts :: "int \<Rightarrow> app_cfg option \<Rightarrow> session \<Rightarrow> session" where
  "apply_session_timeouts now cfg s = (case cfg of None \<Rightarrow> s | Some c \<Rightarrow>
     let ch1 = accepted (cfg_idle_secs c) 60 (24 * 60 * 60) (idle_ms s);
         s1 = (if ch1 then s\<lparr>idle_ms := the (cfg_idle_secs c) * 1000\<rparr> else s);
         ch2 = accepted (cfg_abs_timeout c) 300 (7 * 24 * 60 * 60) (absolute_ms s1);
         s2 = (if ch2 then s1\<lparr>absolute_ms := the (cfg_abs_timeout c) * 1000\<rparr> else s1);
         s3 = s2\<lparr>undo_window_secs := apply_ms (cfg_undo_delay c) (undo_window_secs s2) 0 3600,
                 containers_poll_ms := apply_ms (cfg_containers_poll c) (containers_poll_ms s2) 500 600000,
                 dashboard_poll_ms := apply_ms (cfg_dashboard_poll c) (dashboard_poll_ms s2) 500 600000,
                 events_poll_ms := apply_ms (cfg_events_poll c) (events_poll_ms s2) 500 600000,
                 fetch_timeout_ms := apply_ms (cfg_fetch_timeout c) (fetch_timeout_ms s2) 1000 3600000\<rparr>
     in if (ch1 \<or> ch2) \<and> idle_timer_set s3 \<and> api_token s3 \<noteq> [] then reset_idle_timer now s3 else s3)"

section \<open>Docker status\<close>

definition rest_of_line :: "string \<Rightarrow> string" where
  "rest_of_line s = takeWhile (\<lambda>c. c \<noteq> CHR 0x0A \<and> c \<noteq> CHR 0x0D) s"

definition is_tunnel_socket :: "string \<Rightarrow> bool" where
  "is_tunnel_socket h = (let l = to_lower h in h \<noteq> [] \<and> starts_with ''unix://'' l \<and>
     (let r = rest_of_line (drop 7 l) in has_sub r ''skiff'' \<or> has_sub r ''tunnel''))"

definition is_tcp :: "string \<Rightarrow> bool" where
  "is_tcp h = (h \<noteq> [] \<and> starts_with ''tcp://'' (to_lower h))"

definition docker_hint :: "string \<Rightarrow> string" where
  "docker_hint h =
     (if is_tunnel_socket h then ''SSH tunnel is down '' @ em_dash @ '' open the Containers page to reconnect.''
      else if is_tcp h then ''Check that the remote Docker daemon is reachable at '' @ h @ '' and accepting TLS.''
      else ''Make sure your Docker runtime (Docker Desktop, Colima, OrbStack, dockerd, etc.) is running, then reload.'')"

definition set_docker_status :: "int \<Rightarrow> bool \<Rightarrow> session \<Rightarrow> session" where
  "set_docker_status now ok s = (if ok
     then hide_banner now ''docker_unreachable'' (s\<lparr>docker_ok := True, sidebar_status := ''Connected''\<rparr>)
     else show_banner now ''docker_unreachable'' ''error''
       (''Container engine unreachable. '' @ docker_hint (docker_host s)) None None
       (s\<lparr>docker_ok := False, sidebar_status := ''Disconnected''\<rparr>))"

section \<open>\<open>apiFetch\<close>\<close>

record fetch_opts =
  opt_headers :: "(string \<times> string) list"
  opt_timeout :: int

record request =
  req_headers :: "(string \<times> string) list"
  req_timeout :: int

text \<open>\<open>body\<close> is the parsed JSON body, \<open>None\<close> when it does not parse.\<close>

record response =
  status :: int
  status_text :: string
  retry_after :: "string option"
  body :: "json option"

datatype net_result = Aborted | NetworkFailed | Responded response

record api_error =
  err_message :: string
  err_detail :: "json option"

definition plain_error :: "string \<Rightarrow> api_error" where
  "plain_error m = \<lparr>err_message = m, err_detail = None\<rparr>"

fun js_string :: "json \<Rightarrow> string" where
  "js_string JNull = ''null''"
| "js_string (JBool b) = (if b then ''true'' else ''false'')"
| "js_string (JNum i) = show_int i"
| "js_string (JStr s) = s"
| "js_string (JArr xs) = join '','' (map (\<lambda>x. if x = JNull then [] else js_string x) xs)"
| "js_string (JObj kvs) = ''[object Object]''"

fun is_object :: "json option \<Rightarrow> bool" where
  "is_object (Some (JObj _)) = True"
| "is_object (Some (JArr _)) = True"
| "is_object _ = False"

definition or_json :: "json option \<Rightarrow> string \<Rightarrow> string" where
  "or_json v d = (if truthy v then js_string (the v) else d)"

text \<open>Reading the error body: \<open>err.detail\<close>, as text or as an object with a \<open>message\<close>.\<close>

definition error_of_detail :: "json option \<Rightarrow> api_error" where
  "error_of_detail detail = (if is_object detail
     then \<lparr>err_message = or_json (json_get (the detail) ''message'') ''Request failed'', err_detail = detail\<rparr>
     else \<lparr>err_message = or_json detail ''Request failed'', err_detail = None\<rparr>)"

definition error_of_response :: "response \<Rightarrow> api_error" where
  "error_of_response r = (case body r of
      None \<Rightarrow> error_of_detail (Some (JStr (status_text r)))
    | Some JNull \<Rightarrow> plain_error ''Cannot read properties of null (reading 'detail')''
    | Some b \<Rightarrow> error_of_detail (json_get b ''detail''))"

definition api_prepare :: "int \<Rightarrow> fetch_opts \<Rightarrow> session \<Rightarrow> (api_error + request) \<times> session" where
  "api_prepare now opts s = (case check_session_expiry now s of
      (True, s') \<Rightarrow> (Inl (plain_error ''Session expired''), s')
    | (False, s') \<Rightarrow>
        let hs = [(''X-Requested-With'', ''ContainerManager'')];
            hs = (if api_token s' \<noteq> [] then alist_set ''Authorization'' (''Bearer '' @ api_token s') hs else hs);
            hs = fold (\<lambda>(k, v) acc. alist_set k v acc) (opt_headers opts) hs
        in (Inr \<lparr>req_headers = hs,
              req_timeout = (if opt_timeout opts \<noteq> 0 then opt_timeout opts else fetch_timeout_ms s')\<rparr>, s'))"

definition rate_limit_secs :: "string option \<Rightarrow> int option" where
  "rate_limit_secs raw = (case raw of None \<Rightarrow> None
     | Some r \<Rightarrow> (if r = [] then None else case parse_int r of None \<Rightarrow> None
         | Some n \<Rightarrow> if n > 0 then Some n else None))"

definition api_handle :: "int \<Rightarrow> net_result \<Rightarrow> session \<Rightarrow> (api_error + json) \<times> session" where
  "api_handle now res s = (case res of
      Aborted \<Rightarrow> (Inl (plain_error (''Request timed out '' @ em_dash @ '' check your connection'')), s)
    | NetworkFailed \<Rightarrow> (Inl (plain_error (''Network error '' @ em_dash @ '' server may be unreachable'')), s)
    | Responded r \<Rightarrow>
       (if status r = 503 then
          (Inl (plain_error ''Container engine unreachable''), close_all_ws (set_docker_status now False s))
        else if status r = 401 then
          (Inl (plain_error ''Authentication required''),
           show_login (say (''Authentication failed '' @ em_dash @ '' check your API token'') Error (s\<lparr>api_token := []\<rparr>)))
        else if status r = 429 then
          (Inl (plain_error (''Rate limited '' @ em_dash @ '' please wait a moment and try again'')),
           (case rate_limit_secs (retry_after r) of None \<Rightarrow> s
            | Some n \<Rightarrow> show_banner now ''rate_limited'' ''warn''
                (''Rate limited '' @ em_dash @ '' retry in {seconds}s.'') None (Some (n * 1000)) s))
        else if \<not> (200 \<le> status r \<and> status r \<le> 299) then (Inl (error_of_response r), s)
        else (case body r of
            None \<Rightarrow> (Inl (plain_error ''Unexpected token''), set_docker_status now True s)
          | Some b \<Rightarrow> (Inr b, set_docker_status now True s))))"

definition api_fetch :: "int \<Rightarrow> int \<Rightarrow> fetch_opts \<Rightarrow> (request \<Rightarrow> net_result) \<Rightarrow> session \<Rightarrow> (api_error + json) \<times> session"
where
  "api_fetch now later opts net s = (case api_prepare now opts s of
      (Inl e, s') \<Rightarrow> (Inl e, s')
    | (Inr req, s') \<Rightarrow> api_handle later (net req) s')"

section \<open>Login and the lockout banner\<close>

definition lockout_banner :: "(string \<Rightarrow> string) \<Rightarrow> int \<Rightarrow> int \<Rightarrow> session \<Rightarrow> session" where
  "lockout_banner tr now secs s =
     show_banner now ''ws_auth_lockout'' ''error'' (tr ''banner.ws_auth_lockout'') None (Some (secs * 1000)) s"

text \<open>The sign-in button up to its request: a blank token is refused.\<close>

definition login_click :: "int \<Rightarrow> string \<Rightarrow> session \<Rightarrow> session option" where
  "login_click now value s = (if trim value = [] then None else Some (set_token now (trim value) s))"

definition login_config :: "(string \<Rightarrow> string) \<Rightarrow> int \<Rightarrow> app_cfg \<Rightarrow> session \<Rightarrow> session" where
  "login_config tr now c s =
     (let s0 = (if cfg_docker_vm_host c \<noteq> [] then s\<lparr>docker_vm_host := cfg_docker_vm_host c\<rparr> else s);
          s1 = (if cfg_docker_host c \<noteq> [] then s0\<lparr>docker_host := cfg_docker_host c\<rparr> else s0);
          s2 = apply_session_timeouts now (Some c) s1;
          s3 = (case cfg_ws_locked c of None \<Rightarrow> s2 | Some n \<Rightarrow> if n > 0 then lockout_banner tr now n s2 else s2)
      in arm_absolute_warning now s3)"

definition surface_ws_lockout :: "(string \<Rightarrow> string) \<Rightarrow> int \<Rightarrow> string \<Rightarrow> session \<Rightarrow> session" where
  "surface_ws_lockout tr now reason s =
     (if \<not> starts_with ''ws_auth_lockout:'' reason then s
      else case parse_int (split_on CHR '':'' reason ! 1) of None \<Rightarrow> s
        | Some secs \<Rightarrow> if secs \<le> 0 then s else lockout_banner tr now secs s)"

section \<open>The session as a machine\<close>

text \<open>
  What happens to a session: user activity, the three timers, a sign-in, a configuration that arrives, a
  request, the logout button, and the page's own work (an interval, a socket, a modal, a terminal frame). The system
  page's rotation writes the token to the storage by itself: it is a machine of its own, in SystemPage.
\<close>

datatype session_event = Activity int | FireIdle int | FireWarn int | FireAbs int | SignIn int string
  | Config int app_cfg | Fetch int int fetch_opts "request \<Rightarrow> net_result" | Logout
  | Interval timer_event | OpenWS nat | OpenModal | OpenFrame

definition due :: "int \<Rightarrow> int option \<Rightarrow> bool" where
  "due now d = (case d of None \<Rightarrow> False | Some x \<Rightarrow> x \<le> now)"

fun session_step :: "(string \<Rightarrow> string) \<Rightarrow> session \<Rightarrow> session_event \<Rightarrow> session" where
  "session_step tr s (Activity now) = (if api_token s \<noteq> [] then reset_idle_timer now s else s)"
| "session_step tr s (FireIdle now) =
     (if due now (idle_timer s) then idle_expired now (s\<lparr>idle_timer := None\<rparr>) else s)"
| "session_step tr s (FireWarn now) =
     (if due now (idle_warn_timer s) then idle_warning tr now (s\<lparr>idle_warn_timer := None\<rparr>) else s)"
| "session_step tr s (FireAbs now) =
     (if due now (absolute_warn_timer s) then absolute_warning tr now (s\<lparr>absolute_warn_timer := None\<rparr>) else s)"
| "session_step tr s (SignIn now value) = (case login_click now value s of None \<Rightarrow> s | Some s' \<Rightarrow> s')"
| "session_step tr s (Config now c) = login_config tr now c s"
| "session_step tr s (Fetch now later opts net) = snd (api_fetch now later opts net s)"
| "session_step tr s Logout = logout_click s"
| "session_step tr s (Interval e) = s\<lparr>page_timers := timer_step (page_timers s) e\<rparr>"
| "session_step tr s (OpenWS n) = s\<lparr>active_ws := n # active_ws s\<rparr>"
| "session_step tr s OpenModal = s\<lparr>modals := Suc (modals s)\<rparr>"
| "session_step tr s OpenFrame = s\<lparr>term_frames := Suc (term_frames s)\<rparr>"

text \<open>The configured times stay within the bounds the code accepts, or at their defaults.\<close>

definition bounded :: "session \<Rightarrow> bool" where
  "bounded s \<longleftrightarrow> 60000 \<le> idle_ms s \<and> idle_ms s \<le> 86400000 \<and> 300000 \<le> absolute_ms s \<and> absolute_ms s \<le> 604800000 \<and>
     0 \<le> undo_window_secs s \<and> undo_window_secs s \<le> 3600 \<and>
     500 \<le> containers_poll_ms s \<and> containers_poll_ms s \<le> 600000 \<and>
     500 \<le> dashboard_poll_ms s \<and> dashboard_poll_ms s \<le> 600000 \<and>
     500 \<le> events_poll_ms s \<and> events_poll_ms s \<le> 600000 \<and>
     1000 \<le> fetch_timeout_ms s \<and> fetch_timeout_ms s \<le> 3600000"

definition attended :: "session \<Rightarrow> bool" where
  "attended s \<longleftrightarrow> timers_inv (page_timers s) \<and> (api_token s \<noteq> [] \<longrightarrow> idle_timer s \<noteq> None)"

lemma apply_ms_bounds: "lo \<le> cur \<Longrightarrow> cur \<le> hi \<Longrightarrow> lo \<le> apply_ms n cur lo hi \<and> apply_ms n cur lo hi \<le> hi"
  by (auto simp: apply_ms_def split: option.splits)

lemma accepted_Some: "accepted n lo hi cur \<Longrightarrow> \<exists>v. n = Some v \<and> lo \<le> v \<and> v \<le> hi"
  by (auto simp: accepted_def split: option.splits)

text \<open>The fields the helpers leave alone.\<close>

lemma say_frame [simp]: "bounded (say m k s) = bounded s" "attended (say m k s) = attended s"
  by (simp_all add: say_def bounded_def attended_def)

lemma banner_frame [simp]:
  "bounded (show_banner now k sv m a ms s) = bounded s" "attended (show_banner now k sv m a ms s) = attended s"
  "bounded (hide_banner now k s) = bounded s" "attended (hide_banner now k s) = attended s"
  "api_token (show_banner now k sv m a ms s) = api_token s" "api_token (hide_banner now k s) = api_token s"
  "idle_timer (show_banner now k sv m a ms s) = idle_timer s" "idle_timer (hide_banner now k s) = idle_timer s"
  "idle_timer_set (show_banner now k sv m a ms s) = idle_timer_set s"
  "docker_ok (show_banner now k sv m a ms s) = docker_ok s" "docker_ok (hide_banner now k s) = docker_ok s"
  by (simp_all add: show_banner_def hide_banner_def bounded_def attended_def)

lemma show_login_frame [simp]: "bounded (show_login s) = bounded s" "attended (show_login s) = attended s"
  by (simp_all add: show_login_def bounded_def attended_def)

lemma timer_field_frame [simp]: "bounded (s\<lparr>idle_timer := d\<rparr>) = bounded s"
  "bounded (s\<lparr>idle_warn_timer := d\<rparr>) = bounded s" "bounded (s\<lparr>absolute_warn_timer := d\<rparr>) = bounded s"
  "attended (s\<lparr>idle_warn_timer := d\<rparr>) = attended s" "attended (s\<lparr>absolute_warn_timer := d\<rparr>) = attended s"
  "bounded (s\<lparr>api_token := tok\<rparr>) = bounded s" "bounded (s\<lparr>api_token := tok, session_start := st\<rparr>) = bounded s"
  "bounded (s\<lparr>docker_vm_host := h\<rparr>) = bounded s" "attended (s\<lparr>docker_vm_host := h\<rparr>) = attended s"
  "bounded (s\<lparr>docker_host := h\<rparr>) = bounded s" "attended (s\<lparr>docker_host := h\<rparr>) = attended s"
  by (simp_all add: bounded_def attended_def)

lemma cleanup_fields [simp]: "active_ws (session_cleanup s) = []" "modals (session_cleanup s) = 0"
  "term_frames (session_cleanup s) = 0" "api_token (session_cleanup s) = api_token s"
  "page_timers (session_cleanup s) = clear_all_intervals (page_timers s)"
  "bounded (session_cleanup s) = bounded s"
  by (simp_all add: session_cleanup_def close_all_ws_def bounded_def)

lemma close_all_frame [simp]: "bounded (close_all_ws s) = bounded s" "attended (close_all_ws s) = attended s"
  by (simp_all add: close_all_ws_def bounded_def attended_def)

lemma attendedD: "attended s \<Longrightarrow> timers_inv (page_timers s)" "attended s \<Longrightarrow> attended (s\<lparr>api_token := []\<rparr>)"
  by (simp_all add: attended_def)

lemma clear_inv: "timers_inv tm \<Longrightarrow> timers_inv (clear_all_intervals tm)"
  using timer_step_inv [of tm timer_event.ClearAll] by simp

text \<open>Ending a session, whoever ends it, leaves nothing running.\<close>

definition ended :: "session \<Rightarrow> bool" where
  "ended s \<longleftrightarrow> api_token s = [] \<and> active_ws s = [] \<and> live (page_timers s) = [] \<and> modals s = 0 \<and>
     term_frames s = 0 \<and> screen s = Login"

lemma cleanup_ended: "timers_inv (page_timers s) \<Longrightarrow> ended (show_login (session_cleanup (storage_clear s)))"
  by (simp add: ended_def show_login_def storage_clear_def clear_all_live)

lemma cleanup_attended: "timers_inv (page_timers s) \<Longrightarrow> attended (session_cleanup (storage_clear s))"
  by (simp add: attended_def storage_clear_def clear_inv)

lemma ended_say [simp]: "ended (say m k s) = ended s" by (simp add: ended_def say_def)
lemma ended_hide [simp]: "ended (hide_banner now k s) = ended s" by (simp add: ended_def hide_banner_def)
lemma ended_login_say: "ended (show_login (say m k s)) = ended (show_login s)"
  by (simp add: ended_def say_def show_login_def)
lemma ended_login_hide: "ended (show_login (hide_banner now k s)) = ended (show_login s)"
  by (simp add: ended_def hide_banner_def show_login_def)

lemma bounded_storage [simp]: "bounded (storage_clear s) = bounded s"
  by (simp add: storage_clear_def)

lemma bounded_reset [simp]: "bounded (reset_idle_timer now s) = bounded s"
  by (simp add: reset_idle_timer_def hide_banner_def bounded_def)

lemma attended_reset: "timers_inv (page_timers s) \<Longrightarrow> attended (reset_idle_timer now s)"
  by (simp add: attended_def reset_idle_timer_def hide_banner_def)

lemma check_expiry_frame:
  "bounded s \<Longrightarrow> bounded (snd (check_session_expiry now s))"
  "attended s \<Longrightarrow> attended (snd (check_session_expiry now s))"
  by (simp_all add: check_session_expiry_def Let_def cleanup_attended attendedD)

lemma set_docker_frame [simp]: "bounded (set_docker_status now ok s) = bounded s"
  "attended (set_docker_status now ok s) = attended s"
  by (simp_all add: set_docker_status_def) (simp_all add: bounded_def attended_def)

lemma api_handle_frame:
  "bounded s \<Longrightarrow> bounded (snd (api_handle now res s))"
  "attended s \<Longrightarrow> attended (snd (api_handle now res s))"
  by (auto simp: api_handle_def attendedD split: net_result.splits option.splits)

lemma api_fetch_frame:
  "bounded s \<Longrightarrow> bounded (snd (api_fetch now later opts net s))"
  "attended s \<Longrightarrow> attended (snd (api_fetch now later opts net s))"
  using check_expiry_frame [of s now] api_handle_frame
  by (auto simp: api_fetch_def api_prepare_def Let_def split: prod.splits bool.splits sum.splits)

lemma arm_frame [simp]: "bounded (arm_absolute_warning now s) = bounded s"
  "attended (arm_absolute_warning now s) = attended s"
  by (simp_all add: arm_absolute_warning_def Let_def)

lemma apply_timeouts_bounded: "bounded s \<Longrightarrow> bounded (apply_session_timeouts now c s)"
proof (cases c)
  case (Some cf)
  assume b: "bounded s"
  note d = accepted_Some [of "cfg_idle_secs cf"] accepted_Some [of "cfg_abs_timeout cf"]
  show ?thesis
    using b unfolding Some apply_session_timeouts_def option.case Let_def
    by (simp add: bounded_def apply_ms_bounds if_distribR reset_idle_timer_def hide_banner_def)
      (auto dest!: d)
qed (simp add: apply_session_timeouts_def)

lemma apply_timeouts_attended: "attended s \<Longrightarrow> attended (apply_session_timeouts now c s)"
  by (cases c) (auto simp: apply_session_timeouts_def Let_def attended_def reset_idle_timer_def hide_banner_def)

lemma session_step_bounded: "bounded s \<Longrightarrow> bounded (session_step tr s e)"
proof (cases e)
  case (SignIn now v)
  assume "bounded s"
  with SignIn show ?thesis by (simp add: login_click_def set_token_def)
next
  case (Config now c)
  assume "bounded s"
  with Config show ?thesis
    by (auto simp: login_config_def Let_def lockout_banner_def apply_timeouts_bounded split: option.splits)
qed (auto simp: idle_expired_def idle_warning_def absolute_warning_def logout_click_def api_fetch_frame,
     simp_all add: bounded_def)

lemma session_step_attended: "attended s \<Longrightarrow> attended (session_step tr s e)"
proof (cases e)
  case (Activity now)
  assume "attended s"
  with Activity show ?thesis by (simp add: attended_reset attended_def [of s])
next
  case (FireIdle now)
  assume a: "attended s"
  then have "attended (session_cleanup (storage_clear (s\<lparr>idle_timer := None\<rparr>)))"
    by (simp add: attended_def storage_clear_def clear_inv)
  with FireIdle a show ?thesis by (simp add: idle_expired_def) (simp add: attended_def)
next
  case (SignIn now v)
  assume "attended s"
  with SignIn show ?thesis by (simp add: login_click_def set_token_def attended_reset attended_def [of s])
next
  case (Config now c)
  assume "attended s"
  with Config show ?thesis
    by (auto simp: login_config_def Let_def lockout_banner_def apply_timeouts_attended split: option.splits)
next
  case (Fetch now later opts net)
  assume "attended s"
  with Fetch show ?thesis by (simp add: api_fetch_frame)
next
  case Logout
  assume "attended s"
  with Logout show ?thesis by (simp add: logout_click_def cleanup_attended attended_def [of s])
next
  case (Interval x)
  assume "attended s"
  with Interval show ?thesis by (simp add: attended_def timer_step_inv)
qed (auto simp: idle_warning_def absolute_warning_def, simp_all add: attended_def)

lemma session_init_frame: "bounded (session_init tok st)" "attended (session_init [] st)"
  by (simp_all add: session_init_def bounded_def attended_def timers_init_inv)

section \<open>Properties\<close>

text \<open>
  C2: a session signed in on this page always ends when it is left alone: whatever has happened since the
  page was loaded without a token, while a token is held the idle timer is pending, and when it fires the
  token is gone, every socket, interval, modal and terminal frame is closed, and the login is shown.
\<close>

theorem idle_session_ends:
  assumes "api_token (run_events (session_step tr) (session_init [] start) es) \<noteq> []"
  shows "\<exists>d. idle_timer (run_events (session_step tr) (session_init [] start) es) = Some d \<and>
    (\<forall>now \<ge> d. ended (session_step tr (run_events (session_step tr) (session_init [] start) es) (FireIdle now)))"
proof -
  let ?s = "run_events (session_step tr) (session_init [] start) es"
  have a: "attended ?s"
    using session_init_frame(2) session_step_attended by (rule run_events_invariant)
  with assms obtain d where d: "idle_timer ?s = Some d" by (auto simp: attended_def)
  have "ended (session_step tr ?s (FireIdle now))" if "d \<le> now" for now
    using a assms d that cleanup_ended [of "?s\<lparr>idle_timer := None\<rparr>"]
    by (simp add: due_def idle_expired_def ended_login_say ended_login_hide attended_def)
  with d show ?thesis by blast
qed

theorem idle_session_ends_witness:
  "\<exists>d. idle_timer (run_events (session_step (\<lambda>k. k)) (session_init [] None) [SignIn 1000 ''tok'']) = Some d"
proof -
  have "api_token (run_events (session_step (\<lambda>k. k)) (session_init [] None) [SignIn 1000 ''tok'']) \<noteq> []"
    by (simp add: login_click_def set_token_def reset_idle_timer_def trim_id is_space_def)
  from idle_session_ends [OF this] show ?thesis by blast
qed

definition unattended :: "session_event \<Rightarrow> bool" where
  "unattended e = (case e of FireIdle _ \<Rightarrow> True | FireWarn _ \<Rightarrow> True | FireAbs _ \<Rightarrow> True | Config _ _ \<Rightarrow> True
     | Interval _ \<Rightarrow> True | _ \<Rightarrow> False)"

definition dormant :: "string \<Rightarrow> session \<Rightarrow> bool" where
  "dormant tok s \<longleftrightarrow> idle_timer s = None \<and> \<not> idle_timer_set s \<and> api_token s = tok"

lemma dormant_frame [simp]:
  "dormant tok (show_banner now k sv m a ms s) = dormant tok s"
  "dormant tok (s\<lparr>idle_warn_timer := d\<rparr>) = dormant tok s"
  "dormant tok (s\<lparr>absolute_warn_timer := d\<rparr>) = dormant tok s"
  "dormant tok (s\<lparr>page_timers := x\<rparr>) = dormant tok s"
  "dormant tok (s\<lparr>docker_host := h\<rparr>) = dormant tok s"
  "dormant tok (s\<lparr>docker_vm_host := h\<rparr>) = dormant tok s"
  "dormant tok (s\<lparr>idle_ms := i\<rparr>) = dormant tok s"
  "dormant tok (s\<lparr>absolute_ms := i\<rparr>) = dormant tok s"
  "dormant tok (s\<lparr>undo_window_secs := a', containers_poll_ms := b, dashboard_poll_ms := c,
     events_poll_ms := d', fetch_timeout_ms := e\<rparr>) = dormant tok s"
  by (simp_all add: dormant_def)

lemma dormant_timeouts: "dormant tok s \<Longrightarrow> dormant tok (apply_session_timeouts now c s)"
proof (cases c)
  case (Some cf)
  assume d: "dormant tok s"
  then show ?thesis unfolding Some apply_session_timeouts_def option.case Let_def
    by (simp add: dormant_def)
qed (simp add: apply_session_timeouts_def)

lemma unattended_step:
  assumes "dormant tok s" and "unattended e"
  shows "dormant tok (session_step tr s e)"
proof (cases e)
  case (FireIdle now)
  then show ?thesis using assms by (simp add: dormant_def due_def)
next
  case (Config now c)
  then show ?thesis using assms(1)
    by (simp add: login_config_def Let_def lockout_banner_def arm_absolute_warning_def dormant_timeouts
        split: option.splits)
qed (use assms in \<open>auto simp: unattended_def idle_warning_def absolute_warning_def\<close>)

text \<open>
  A reload with a stored token arms no idle timer: until the user touches the page, no timer and no
  configuration ends the session, however long it stands.
\<close>

theorem reload_never_idles:
  assumes "list_all unattended es"
  shows "api_token (run_events (session_step tr) (session_init tok start) es) = tok"
proof -
  have "dormant tok s \<Longrightarrow> dormant tok (run_events (session_step tr) s es)" for s
    using assms by (induction es arbitrary: s) (simp_all add: unattended_step)
  moreover have "dormant tok (session_init tok start)" by (simp add: dormant_def session_init_def)
  ultimately show ?thesis by (simp add: dormant_def)
qed

theorem reload_never_idles_witness:
  "api_token (run_events (session_step (\<lambda>k. k)) (session_init ''tok'' (Some 1)) [FireIdle 900001, FireIdle 99999999]) = ''tok''"
  by (rule reload_never_idles) (simp add: unattended_def)

text \<open>
  No configuration the server sends can push a timeout or a poll interval out of the bounds the code
  accepts (an idle limit of at least a minute, polls of at least half a second).
\<close>

theorem config_bounds:
  "bounded (run_events (session_step tr) (session_init tok start) es)"
  using session_init_frame(1) session_step_bounded by (rule run_events_invariant)

lemma get_hide [simp]: "get (status_banner (hide_banner now k s)) k' =
    (if k' = k then None else get (status_banner s) k')"
  using status_banner.lookup_del [of now k "status_banner s" k'] by (simp add: hide_banner_def)

lemma map_of_fold_set: "map_of (fold (\<lambda>(k, v) acc. alist_set k v acc) kvs acc) k =
    (case map_of (rev kvs) k of Some v \<Rightarrow> Some v | None \<Rightarrow> map_of acc k)"
  by (induction kvs arbitrary: acc) (auto simp: map_of_alist_set map_add_def split: option.splits)

lemma default_headers: "map_of (if tok \<noteq> [] then alist_set ''Authorization'' v [(''X-Requested-With'', x)]
      else [(''X-Requested-With'', x)]) k =
    (if k = ''X-Requested-With'' then Some x else if k = ''Authorization'' \<and> tok \<noteq> [] then Some v else None)"
  by (cases "tok = []") (simp_all add: map_of_alist_set)

lemma prepare_in_session: "\<not> (start_time s \<noteq> 0 \<and> now - start_time s > absolute_ms s) \<Longrightarrow>
    api_prepare now opts s =
      (Inr \<lparr>req_headers = fold (\<lambda>(k, v) acc. alist_set k v acc) (opt_headers opts)
         (if api_token s \<noteq> [] then alist_set ''Authorization'' (''Bearer '' @ api_token s)
            [(''X-Requested-With'', ''ContainerManager'')] else [(''X-Requested-With'', ''ContainerManager'')]),
       req_timeout = (if opt_timeout opts \<noteq> 0 then opt_timeout opts else fetch_timeout_ms s)\<rparr>, s)"
  unfolding api_prepare_def check_session_expiry_def Let_def by (simp only: if_False prod.case bool.case)

lemma prepare_expired: "start_time s \<noteq> 0 \<and> now - start_time s > absolute_ms s \<Longrightarrow>
    fst (api_prepare now opts s) = Inl (plain_error ''Session expired'') \<and>
    api_fetch now later opts net s = api_fetch now later opts net' s"
  by (simp add: api_fetch_def api_prepare_def check_session_expiry_def Let_def)

lemma prepared_headers: "fst (api_prepare now opts s) = Inr rq \<Longrightarrow>
    map_of (req_headers rq) k = (case map_of (rev (opt_headers opts)) k of Some v \<Rightarrow> Some v
      | None \<Rightarrow> if k = ''X-Requested-With'' then Some ''ContainerManager''
          else if k = ''Authorization'' \<and> api_token s \<noteq> [] then Some (''Bearer '' @ api_token s) else None)"
proof -
  assume f: "fst (api_prepare now opts s) = Inr rq"
  have "\<not> (start_time s \<noteq> 0 \<and> now - start_time s > absolute_ms s)"
  proof
    assume "start_time s \<noteq> 0 \<and> now - start_time s > absolute_ms s"
    from conjunct1 [OF prepare_expired [OF this, of opts]] f show False by simp
  qed
  from f [unfolded prepare_in_session [OF this]]
  have "req_headers rq = fold (\<lambda>(k, v) acc. alist_set k v acc) (opt_headers opts)
         (if api_token s \<noteq> [] then alist_set ''Authorization'' (''Bearer '' @ api_token s)
            [(''X-Requested-With'', ''ContainerManager'')] else [(''X-Requested-With'', ''ContainerManager'')])"
    by (simp only: fst_conv sum.inject) (drule sym, simp only: request.select_convs)
  then show ?thesis by (simp only: map_of_fold_set default_headers)
qed

text \<open>
  C1: \<open>apiFetch\<close> returns a value only for a 2xx answer with that JSON body to the request it
  prepared, sent within the session, and leaves the engine marked reachable. Every request it prepares,
  whatever the caller's options, carries the caller's headers as given and, for the names the caller does
  not set, the CSRF header and, when a token is stored, that token: no option drops them. Past the absolute
  limit no request is prepared, so no answer of the network matters, and (with the page's interval registry
  consistent) the session is ended.
\<close>

theorem api_fetch_sound:
  "(fst (api_fetch now later opts net s) = Inr j \<longrightarrow>
     (start_time s = 0 \<or> now - start_time s \<le> absolute_ms s) \<and>
     (\<exists>req r. api_prepare now opts s = (Inr req, s) \<and> net req = Responded r \<and>
        200 \<le> status r \<and> status r \<le> 299 \<and> body r = Some j) \<and>
     docker_ok (snd (api_fetch now later opts net s)) \<and>
     get (status_banner (snd (api_fetch now later opts net s))) ''docker_unreachable'' = None) \<and>
   (fst (api_prepare now opts s) = Inr req \<longrightarrow>
     map_of (req_headers req) k = (case map_of (rev (opt_headers opts)) k of Some v \<Rightarrow> Some v
        | None \<Rightarrow> if k = ''X-Requested-With'' then Some ''ContainerManager''
            else if k = ''Authorization'' \<and> api_token s \<noteq> [] then Some (''Bearer '' @ api_token s) else None)) \<and>
   (start_time s \<noteq> 0 \<and> now - start_time s > absolute_ms s \<longrightarrow>
     fst (api_prepare now opts s) = Inl (plain_error ''Session expired'') \<and>
     (\<forall>net'. api_fetch now later opts net' s = api_fetch now later opts net s) \<and>
     (timers_inv (page_timers s) \<longrightarrow> ended (snd (api_fetch now later opts net s))))"
proof (intro conjI impI)
  assume ok: "fst (api_fetch now later opts net s) = Inr j"
  have handled: "\<exists>r. res = Responded r \<and> 200 \<le> status r \<and> status r \<le> 299 \<and> body r = Some j \<and>
      docker_ok (snd (api_handle later res s)) \<and>
      get (status_banner (snd (api_handle later res s))) ''docker_unreachable'' = None"
    if "fst (api_handle later res s) = Inr j" for res
    using that
    by (auto simp: api_handle_def set_docker_status_def split: net_result.splits if_splits option.splits)
  have within: "\<not> (start_time s \<noteq> 0 \<and> now - start_time s > absolute_ms s)"
    using ok by (auto simp: api_fetch_def api_prepare_def check_session_expiry_def Let_def)
  from prepare_in_session [OF this, of opts] obtain rq where prep: "api_prepare now opts s = (Inr rq, s)" by metis
  have af: "api_fetch now later opts net s = api_handle later (net rq) s"
    using prep by (simp add: api_fetch_def)
  note h = handled [OF ok [unfolded af]]
  show "start_time s = 0 \<or> now - start_time s \<le> absolute_ms s" using within by linarith
  show "\<exists>req r. api_prepare now opts s = (Inr req, s) \<and> net req = Responded r \<and>
        200 \<le> status r \<and> status r \<le> 299 \<and> body r = Some j" using h prep by blast
  show "docker_ok (snd (api_fetch now later opts net s))" unfolding af using h by blast
  show "get (status_banner (snd (api_fetch now later opts net s))) ''docker_unreachable'' = None"
    unfolding af using h by blast
next
  assume past: "start_time s \<noteq> 0 \<and> now - start_time s > absolute_ms s"
  show "fst (api_prepare now opts s) = Inl (plain_error ''Session expired'')"
    using prepare_expired [OF past] by blast
  show "\<forall>net'. api_fetch now later opts net' s = api_fetch now later opts net s"
    using prepare_expired [OF past] by blast
  show "timers_inv (page_timers s) \<Longrightarrow> ended (snd (api_fetch now later opts net s))"
    using past cleanup_ended [of s]
    by (simp add: api_fetch_def api_prepare_def check_session_expiry_def Let_def ended_login_say)
qed (rule prepared_headers)

theorem api_fetch_sound_witness:
  "docker_ok (snd (api_fetch 5 6 \<lparr>opt_headers = [(''Content-Type'', ''application/json'')], opt_timeout = 0\<rparr>
     (\<lambda>req. Responded \<lparr>status = 200, status_text = ''OK'', retry_after = None, body = Some JNull\<rparr>)
     (session_init ''tok'' None))) \<and>
   map_of (req_headers (projr (fst (api_prepare 5 \<lparr>opt_headers = [(''Content-Type'', ''application/json'')],
     opt_timeout = 0\<rparr> (session_init ''tok'' None))))) ''Authorization'' = Some ''Bearer tok'' \<and>
   ended (snd (api_fetch 28800002 28800003 \<lparr>opt_headers = [], opt_timeout = 0\<rparr> (\<lambda>req. NetworkFailed)
     (session_init ''tok'' (Some 1))))"
proof -
  let ?o = "\<lparr>opt_headers = [(''Content-Type'', ''application/json'')], opt_timeout = 0\<rparr>"
  have "fst (api_fetch 5 6 ?o
     (\<lambda>req. Responded \<lparr>status = 200, status_text = ''OK'', retry_after = None, body = Some JNull\<rparr>)
     (session_init ''tok'' None)) = Inr JNull"
    by (simp add: api_fetch_def api_prepare_def check_session_expiry_def api_handle_def session_init_def
        start_time_def Let_def)
  moreover have "isl (fst (api_prepare 5 ?o (session_init ''tok'' None))) = False"
    by (simp add: api_prepare_def check_session_expiry_def session_init_def start_time_def Let_def)
  moreover have "timers_inv timers_init"
    by (simp add: timers_inv_def timers_init_def)
  ultimately show ?thesis
    using api_fetch_sound [of 5 6 ?o "\<lambda>req. Responded \<lparr>status = 200, status_text = ''OK'', retry_after = None,
          body = Some JNull\<rparr>" "session_init ''tok'' None" JNull
          "projr (fst (api_prepare 5 ?o (session_init ''tok'' None)))" "''Authorization''"]
      api_fetch_sound [of 28800002 28800003 "\<lparr>opt_headers = [], opt_timeout = 0\<rparr>" "\<lambda>req. NetworkFailed"
          "session_init ''tok'' (Some 1)"]
    by (auto simp: session_init_def start_time_def sum.collapse(2))
qed

text \<open>
  A change of the docker status touches only its own banner: every other state on display (a lockout,
  a rate limit, a session about to end) survives the engine going away and coming back.
\<close>

theorem docker_status_coexists:
  assumes "key \<noteq> ''docker_unreachable''"
  shows "get (status_banner (set_docker_status now ok s)) key = get (status_banner s) key \<and>
    (get (status_banner (set_docker_status now ok s)) ''docker_unreachable'' \<noteq> None) = (\<not> ok)"
proof (cases ok)
  case True
  with assms show ?thesis by (simp add: set_docker_status_def)
next
  case False
  have "get (status_banner (show_banner now ''docker_unreachable'' ''error'' m a ms x)) k =
      (if k = ''docker_unreachable'' then Some (entry_of now \<lparr>opt_severity = ''error'', opt_message = m,
         opt_action = a, expires_in_ms = ms\<rparr> SevError) else get (status_banner x) k)"
    if "m \<noteq> []" for m a ms x k
    unfolding show_banner_def using that
    by (simp add: banner_set_valid severity_of_def status_banner.lookup_put)
  then show ?thesis using assms False by (simp add: set_docker_status_def)
qed

theorem docker_status_coexists_witness:
  "get (status_banner (set_docker_status 1 False (session_init [] None))) ''rate_limited'' = None"
  using docker_status_coexists [of "''rate_limited''" 1 False "session_init [] None"]
  by (simp add: session_init_def banner_init_def get_def)

end
