(* ===== verification/Backoff.thy ===== *)
theory Backoff
  imports SingleFlight
begin

text \<open>
  Reconnecting with exponential backoff: the delay both reconnect loops of the program compute, and the
  contract of a budget of consecutive failures. The log stream and the terminal frame provide it.
\<close>

text \<open>\<open>Math.min(1000 * Math.pow(2, attempt), 16000)\<close>\<close>

definition backoff_delay :: "nat \<Rightarrow> nat" where
  "backoff_delay n = min (1000 * 2 ^ n) 16000"

lemma backoff_delay_bounds: "1000 \<le> backoff_delay n \<and> backoff_delay n \<le> 16000"
  by (simp add: backoff_delay_def)

lemma backoff_delay_mono:
  assumes "m \<le> n"
  shows "backoff_delay m \<le> backoff_delay n"
proof -
  have "(2 :: nat) ^ m \<le> 2 ^ n" using assms by (intro power_increasing) simp_all
  then show ?thesis unfolding backoff_delay_def by (intro min.mono mult_le_mono2) simp_all
qed

locale retry_budget =
  fixes fail :: "'s \<Rightarrow> 's"
    and attempts :: "'s \<Rightarrow> nat"
    and given_up :: "'s \<Rightarrow> bool"
    and live :: "'s \<Rightarrow> bool"
    and limit :: nat
  assumes retry: "live s \<Longrightarrow> attempts s < limit \<Longrightarrow> live (fail s) \<and> attempts (fail s) = Suc (attempts s)"
    and give_up: "live s \<Longrightarrow> limit \<le> attempts s \<Longrightarrow> given_up (fail s) \<and> \<not> live (fail s)"
    and live_going: "live s \<Longrightarrow> \<not> given_up s"
begin

lemma budget_left: "live s \<Longrightarrow> attempts s + n \<le> limit \<Longrightarrow>
    live ((fail ^^ n) s) \<and> attempts ((fail ^^ n) s) = attempts s + n"
proof (induction n arbitrary: s)
  case (Suc n)
  have "(fail ^^ Suc n) s = (fail ^^ n) (fail s)" by (simp add: funpow_swap1)
  moreover have "live (fail s)" "attempts (fail s) = Suc (attempts s)"
    using retry [of s] Suc.prems by auto
  ultimately show ?case using Suc.IH [of "fail s"] Suc.prems by simp
qed simp

text \<open>The budget is spent after exactly \<open>limit - attempts + 1\<close> failures in a row, not one earlier.\<close>

lemma gives_up_exactly:
  assumes "live s" and "attempts s \<le> limit"
  shows "given_up ((fail ^^ Suc (limit - attempts s)) s) \<and>
    (\<forall>n \<le> limit - attempts s. \<not> given_up ((fail ^^ n) s))"
proof -
  have "live ((fail ^^ n) s) \<and> attempts ((fail ^^ n) s) = attempts s + n" if "n \<le> limit - attempts s" for n
    using budget_left [of s n] assms that by simp
  then show ?thesis using give_up [of "(fail ^^ (limit - attempts s)) s"] live_going assms by auto
qed

end

end
