(* ===== verification/Terminal.thy ===== *)
theory Terminal
  imports Backoff Store
begin

text \<open>
  The terminal: the reconnect machine inside the iframe (terminal-frame.js), as an \<open>inductive\<close> step
  relation whose steps are the browser's events, and the parent's side (app.js): the host overlay, the
  cache of iframes by container and the message handler.
\<close>

section \<open>The frame\<close>

datatype socket = NoSocket | Connecting | Open | Closed

datatype parent_msg = TerminalReady | TerminalDisconnected int string | TerminalExpired | TerminalError string

record frame =
  sock :: socket
  attempt :: nat
  user_closed :: bool
  retry_in :: "nat option"
  frame_status :: "(string \<times> string) option"
  restart_btn :: "string option"
  written :: "string list"
  posted :: "parent_msg list"
  sent :: "string list"

definition MAX_RECONNECTS :: nat where
  "MAX_RECONNECTS = 5"

definition SESSION_EXPIRED_CODE :: int where
  "SESSION_EXPIRED_CODE = 4003"

text \<open>The id is the last non-empty path segment, as it stands in the URL; it is encoded again for the socket.\<close>

definition parse_container_id :: "string \<Rightarrow> string" where
  "parse_container_id path = (let parts = nonempty (split_on CHR ''/'' path) in
     if parts = [] then [] else last parts)"

definition ws_url_for :: "bool \<Rightarrow> string \<Rightarrow> string \<Rightarrow> string" where
  "ws_url_for https host cid = (if https then ''wss:'' else ''ws:'') @ ''//'' @ host @ ''/ws/exec/'' @ encode_uri cid"

definition frame_init :: frame where
  "frame_init = \<lparr>sock = NoSocket, attempt = 0, user_closed = False, retry_in = None, frame_status = None,
     restart_btn = None, written = [], posted = [], sent = []\<rparr>"

definition set_status :: "string \<Rightarrow> string \<Rightarrow> frame \<Rightarrow> frame" where
  "set_status st msg f = f\<lparr>frame_status := (if st = [] then None else Some (st, or_str msg st))\<rparr>"

definition write_term :: "string \<Rightarrow> frame \<Rightarrow> frame" where
  "write_term s f = f\<lparr>written := written f @ [s]\<rparr>"

definition post :: "parent_msg \<Rightarrow> frame \<Rightarrow> frame" where
  "post m f = f\<lparr>posted := posted f @ [m]\<rparr>"

definition show_restart_button :: "string \<Rightarrow> frame \<Rightarrow> frame" where
  "show_restart_button label f = (case restart_btn f of Some _ \<Rightarrow> f | None \<Rightarrow> f\<lparr>restart_btn := Some label\<rparr>)"

definition crlf :: string where
  "crlf = [CHR 0x0D, CHR 0x0A]"

definition bracketed :: "string \<Rightarrow> string" where
  "bracketed s = crlf @ ''['' @ s @ '']'' @ crlf"

definition connect :: "frame \<Rightarrow> frame" where
  "connect f = (if user_closed f then f
     else (set_status (if attempt f > 0 then ''reconnecting'' else ''connecting'')
       (if attempt f > 0 then ''Reconnecting'' @ ellipsis else ''Connecting'' @ ellipsis) f)\<lparr>sock := Connecting\<rparr>)"

text \<open>\<open>start\<close>: the early errors, then the first connection. \<open>xterm\<close> says whether the terminal library loaded.\<close>

definition start :: "string \<Rightarrow> bool \<Rightarrow> frame" where
  "start path xterm = (if parse_container_id path = [] then set_status ''error'' ''No container ID in URL'' frame_init
     else if \<not> xterm then post (TerminalError ''xterm.js failed to load'')
       (set_status ''error'' ''xterm.js failed to load'' frame_init)
     else connect frame_init)"

definition on_open :: "string \<Rightarrow> frame \<Rightarrow> frame" where
  "on_open token f =
     (let f1 = (if token \<noteq> [] then f\<lparr>sent := sent f @ [''AUTH '' @ token]\<rparr> else f);
          f2 = f1\<lparr>frame_status := None, sock := Open\<rparr>;
          f3 = (if attempt f2 > 0 then write_term (bracketed ''Reconnected'') f2 else f2)
      in post TerminalReady (f3\<lparr>attempt := 0, restart_btn := None\<rparr>))"

definition on_error :: "frame \<Rightarrow> frame" where
  "on_error f = post (TerminalError ''WebSocket error'') (set_status ''error'' ''Connection error'' f)"

definition on_close :: "int \<Rightarrow> string \<Rightarrow> frame \<Rightarrow> frame" where
  "on_close code reason f0 = (let f = f0\<lparr>sock := Closed\<rparr> in
     if user_closed f then
       post (TerminalDisconnected code reason) (show_restart_button ''Start new session''
         (write_term (bracketed ''Session ended'') (set_status ''disconnected'' ''Session ended'' f)))
     else if code = 1000 then
       post (TerminalDisconnected 1000 ''shell-exited'') (show_restart_button ''Start new session''
         (write_term (bracketed ''Shell exited'') (set_status ''disconnected'' ''Closed'' f)))
     else if code = SESSION_EXPIRED_CODE then
       post TerminalExpired (write_term (bracketed (''Session expired '' @ em_dash @ '' please log in again''))
         (set_status ''error'' ''Session expired'' f))
     else if attempt f \<ge> MAX_RECONNECTS then
       post (TerminalDisconnected code ''max_retries'') (show_restart_button ''Reconnect''
         (write_term (bracketed ''Max reconnect attempts reached'') (set_status ''error'' ''Reconnect limit reached'' f)))
     else let f1 = show_restart_button ''Reconnect now'' f; delay = backoff_delay (attempt f1) in
       (write_term (bracketed (''Reconnecting in '' @ show_nat (delay div 1000) @ ''s'' @ ellipsis))
         (f1\<lparr>attempt := attempt f1 + 1\<rparr>))\<lparr>retry_in := Some delay\<rparr>)"

text \<open>
  \<open>disconnect\<close> from the parent. The socket is then closing and its close event comes later; the model keeps it \<open>Open\<close> until that
  event, so it allows a keystroke in between to be sent, which the browser's socket would drop.
\<close>

definition on_disconnect :: "frame \<Rightarrow> frame" where
  "on_disconnect f = f\<lparr>user_closed := True\<rparr>"

definition on_data :: "string \<Rightarrow> frame \<Rightarrow> frame" where
  "on_data d f = (if sock f = Open then f\<lparr>sent := sent f @ [d]\<rparr> else f)"

text \<open>\<open>sendResize\<close>: after a connection and, debounced, after the window was resized.\<close>

definition send_resize :: "nat \<Rightarrow> nat \<Rightarrow> frame \<Rightarrow> frame" where
  "send_resize cols rows f = (if sock f \<noteq> Open then f else f\<lparr>sent := sent f @
     [''{'' @ dquote @ ''type'' @ dquote @ '':'' @ dquote @ ''resize'' @ dquote @ '','' @ dquote @ ''cols'' @ dquote @ '':'' @
      show_nat cols @ '','' @ dquote @ ''rows'' @ dquote @ '':'' @ show_nat rows @ ''}'']\<rparr>)"

text \<open>The window's message handler: only messages of the parent window at the page's own origin count.\<close>

datatype parent_cmd = CmdFocus | CmdDisconnect | CmdOther

definition on_parent_message :: "bool \<Rightarrow> string \<Rightarrow> string \<Rightarrow> parent_cmd \<Rightarrow> frame \<Rightarrow> frame" where
  "on_parent_message from_parent origin own cmd f =
     (if \<not> from_parent then f else if origin \<noteq> own then f
      else case cmd of CmdFocus \<Rightarrow> f | CmdDisconnect \<Rightarrow> on_disconnect f | CmdOther \<Rightarrow> f)"

text \<open>
  The steps: a socket that is connecting may open; one that is connecting or open may deliver, fail and
  close; the retry timer fires when it is pending; the parent may send a message and the user may type at
  any time. \<open>reload\<close> is the restart button.
\<close>

inductive frame_step :: "frame \<Rightarrow> frame \<Rightarrow> bool" where
  opened: "sock f = Connecting \<Longrightarrow> frame_step f (on_open token f)"
| message: "sock f = Open \<Longrightarrow> frame_step f (write_term d f)"
| error: "sock f \<in> {Connecting, Open} \<Longrightarrow> frame_step f (on_error f)"
| closed: "sock f \<in> {Connecting, Open} \<Longrightarrow> frame_step f (on_close code reason f)"
| retry: "retry_in f = Some d \<Longrightarrow> frame_step f (connect (f\<lparr>retry_in := None\<rparr>))"
| parent: "frame_step f (on_parent_message from_parent origin own cmd f)"
| typed: "frame_step f (on_data d f)"
| resized: "frame_step f (send_resize cols rows f)"
| reload: "restart_btn f \<noteq> None \<Longrightarrow> frame_step f (connect frame_init)"

inductive frame_reach :: "frame \<Rightarrow> frame \<Rightarrow> bool" where
  refl: "frame_reach f f"
| step: "frame_reach f g \<Longrightarrow> frame_step g h \<Longrightarrow> frame_reach f h"

inductive_cases frame_stepE: "frame_step f g"

inductive_simps frame_step_iff: "frame_step f g"

text \<open>
  One socket or one timer, never both; at most five failures counted; a dead frame (no socket, no timer)
  says so: it offers the restart button or shows that the session expired.
\<close>

definition frame_inv :: "frame \<Rightarrow> bool" where
  "frame_inv f \<longleftrightarrow> attempt f \<le> MAX_RECONNECTS \<and> sock f \<noteq> NoSocket \<and>
     (retry_in f \<noteq> None \<longrightarrow> sock f = Closed \<and> restart_btn f \<noteq> None) \<and>
     (sock f = Closed \<and> retry_in f = None \<longrightarrow>
       restart_btn f \<noteq> None \<or> frame_status f = Some (''error'', ''Session expired''))"

lemma helper_fields [simp]:
  "sock (set_status a b f) = sock f" "attempt (set_status a b f) = attempt f"
  "retry_in (set_status a b f) = retry_in f" "restart_btn (set_status a b f) = restart_btn f"
  "user_closed (set_status a b f) = user_closed f"
  "sock (write_term s f) = sock f" "attempt (write_term s f) = attempt f" "retry_in (write_term s f) = retry_in f"
  "restart_btn (write_term s f) = restart_btn f" "frame_status (write_term s f) = frame_status f"
  "user_closed (write_term s f) = user_closed f"
  "sock (post m f) = sock f" "attempt (post m f) = attempt f" "retry_in (post m f) = retry_in f"
  "restart_btn (post m f) = restart_btn f" "frame_status (post m f) = frame_status f"
  "user_closed (post m f) = user_closed f"
  "sock (show_restart_button l f) = sock f" "attempt (show_restart_button l f) = attempt f"
  "retry_in (show_restart_button l f) = retry_in f" "frame_status (show_restart_button l f) = frame_status f"
  "user_closed (show_restart_button l f) = user_closed f"
  "\<exists>b. restart_btn (show_restart_button l f) = Some b"
  by (auto simp: set_status_def write_term_def post_def show_restart_button_def split: option.splits)

lemma connect_init_inv: "frame_inv (connect frame_init)"
  by (simp add: frame_inv_def connect_def frame_init_def)

lemma on_close_inv: "frame_inv f \<Longrightarrow> sock f \<in> {Connecting, Open} \<Longrightarrow> frame_inv (on_close code reason f)"
  by (auto simp: frame_inv_def on_close_def Let_def MAX_RECONNECTS_def set_status_def)

lemma frame_step_inv: "frame_step f g \<Longrightarrow> frame_inv f \<Longrightarrow> frame_inv g"
proof (induction rule: frame_step.induct)
  case (closed f code reason)
  then show ?case by (simp add: on_close_inv)
next
  case (retry f d)
  then show ?case by (auto simp: frame_inv_def connect_def)
next
  case (parent f from_parent origin own cmd)
  then show ?case
    by (auto simp: frame_inv_def on_parent_message_def on_disconnect_def split: parent_cmd.splits)
next
  case (reload f)
  show ?case by (rule connect_init_inv)
qed (auto simp: frame_inv_def on_open_def on_error_def on_data_def send_resize_def Let_def)

lemma frame_reach_inv: "frame_reach f g \<Longrightarrow> frame_inv f \<Longrightarrow> frame_inv g"
  by (induction rule: frame_reach.induct) (auto dest: frame_step_inv)

text \<open>One more failure: the socket closes abnormally and the retry timer, if it was set, fires.\<close>

definition fail_once :: "frame \<Rightarrow> frame" where
  "fail_once f = (let g = on_close 1006 [] f in
     if retry_in g = None then g else connect (g\<lparr>retry_in := None\<rparr>))"

definition trying :: "frame \<Rightarrow> bool" where
  "trying f \<longleftrightarrow> sock f = Connecting \<and> \<not> user_closed f \<and> retry_in f = None"

definition gave_up :: "frame \<Rightarrow> bool" where
  "gave_up f \<longleftrightarrow> sock f = Closed \<and> retry_in f = None"

lemma connect_fields [simp]: "\<not> user_closed f \<Longrightarrow> sock (connect f) = Connecting"
  "attempt (connect f) = attempt f" "user_closed (connect f) = user_closed f" "retry_in (connect f) = retry_in f"
  by (simp_all add: connect_def)

interpretation frame_budget: retry_budget fail_once attempt gave_up trying MAX_RECONNECTS
  by unfold_locales
    (auto simp: trying_def gave_up_def fail_once_def on_close_def Let_def MAX_RECONNECTS_def SESSION_EXPIRED_CODE_def)

lemma retry_wait:
  assumes "trying f" and "attempt f < 5"
  shows "retry_in (on_close 1006 [] f) = Some (1000 * 2 ^ attempt f)"
proof -
  have "(2 :: nat) ^ attempt f \<le> 2 ^ 4" using assms(2) by (intro power_increasing) simp_all
  then have "backoff_delay (attempt f) = 1000 * 2 ^ attempt f" by (simp add: backoff_delay_def)
  then show ?thesis using assms
    by (simp add: trying_def on_close_def Let_def MAX_RECONNECTS_def SESSION_EXPIRED_CODE_def)
qed

text \<open>The user has asked to disconnect: no step but the restart button opens a socket again.\<close>

definition released :: "frame \<Rightarrow> bool" where
  "released f \<longleftrightarrow> user_closed f \<and> sock f = Closed"

section \<open>The host and the cache\<close>

text \<open>
  An entry of \<open>_termCache\<close> is an iframe, a number that stands for its identity, and whether it is
  displayed. \<open>slot\<close> is the placeholder of \<open>_termActive\<close>; \<open>listeners\<close> counts the resize and scroll
  handlers and observers installed for slots.
\<close>

record iframe =
  frame_no :: nat
  shown :: bool

record host =
  cache :: "(string \<times> iframe) list"
  host_shown :: bool
  slot :: "nat option"
  listeners :: nat
  close_btn :: "string option"
  posts :: "(nat \<times> parent_cmd) list"
  next_no :: nat
  next_slot :: nat
  msg_listeners :: nat

definition host_init :: host where
  "host_init = \<lparr>cache = [], host_shown = False, slot = None, listeners = 0, close_btn = None, posts = [],
     next_no = 0, next_slot = 0, msg_listeners = 0\<rparr>"

definition cache_get :: "host \<Rightarrow> string \<Rightarrow> iframe option" where
  "cache_get h cid = map_of (cache h) cid"

definition cache_put :: "string \<Rightarrow> iframe \<Rightarrow> host \<Rightarrow> host" where
  "cache_put cid fr h = h\<lparr>cache := alist_set cid fr (cache h)\<rparr>"

definition cache_del :: "string \<Rightarrow> host \<Rightarrow> host" where
  "cache_del cid h = h\<lparr>cache := alist_del cid (cache h)\<rparr>"

interpretation term_cache: keyed_store cache_get cache_put cache_del
  by unfold_locales (simp_all add: cache_get_def cache_put_def cache_del_def map_of_alist_set map_of_alist_del)

text \<open>\<open>_detachTermSlotListeners\<close>, \<open>_attachTermToSlot\<close>, \<open>_hideTermHost\<close>.\<close>

definition detach_slot :: "host \<Rightarrow> host" where
  "detach_slot h = h\<lparr>listeners := (if slot h = None then listeners h else listeners h - 1), slot := None\<rparr>"

definition show_only :: "string \<Rightarrow> (string \<times> iframe) list \<Rightarrow> (string \<times> iframe) list" where
  "show_only cid frames = map (\<lambda>(k, fr). (k, fr\<lparr>shown := k = cid\<rparr>)) frames"

definition attach_slot :: "nat \<Rightarrow> string \<Rightarrow> host \<Rightarrow> host" where
  "attach_slot sl cid h =
     (let h1 = h\<lparr>host_shown := True,
            cache := show_only cid (cache h)\<rparr>;
          h2 = detach_slot h1
      in h2\<lparr>slot := Some sl, listeners := Suc (listeners h2)\<rparr>)"

definition hide_host :: "host \<Rightarrow> host" where
  "hide_host h = detach_slot (h\<lparr>host_shown := False\<rparr>)"

text \<open>\<open>_termCacheClose\<close> and \<open>_termCachePurgeAll\<close>.\<close>

definition cache_close :: "string \<Rightarrow> host \<Rightarrow> host" where
  "cache_close cid h = (case cache_get h cid of None \<Rightarrow> h
     | Some fr \<Rightarrow> h\<lparr>posts := posts h @ [(frame_no fr, CmdDisconnect)]\<rparr>)"

definition cache_purge :: "host \<Rightarrow> host" where
  "cache_purge h = h\<lparr>posts := posts h @ map (\<lambda>(k, fr). (frame_no fr, CmdDisconnect)) (cache h), cache := []\<rparr>"

definition iframe_src :: "string \<Rightarrow> string" where
  "iframe_src cid = ''/api/terminal-frame/'' @ encode_uri cid"

text \<open>\<open>showShellContent\<close>: the slot, the iframe (made once per container), the overlay, the button, the listener.\<close>

definition show_shell :: "string \<Rightarrow> host \<Rightarrow> host" where
  "show_shell cid h =
     (let sl = next_slot h; h0 = h\<lparr>next_slot := Suc sl\<rparr>;
          h1 = (case cache_get h0 cid of Some _ \<Rightarrow> h0
            | None \<Rightarrow> (cache_put cid \<lparr>frame_no = next_no h0, shown = True\<rparr> h0)\<lparr>next_no := Suc (next_no h0)\<rparr>);
          h2 = attach_slot sl cid h1;
          h3 = h2\<lparr>close_btn := Some cid, msg_listeners := 1\<rparr>
      in h3\<lparr>posts := posts h3 @ (case cache_get h3 cid of Some fr \<Rightarrow> [(frame_no fr, CmdFocus)] | None \<Rightarrow> [])\<rparr>)"

text \<open>\<open>_onTerminalFrameMessage\<close>: the toasts, and the reason handed to \<open>_surfaceWsLockout\<close>.\<close>

definition on_frame_message :: "string \<Rightarrow> string \<Rightarrow> parent_msg \<Rightarrow> (string \<times> string) list \<times> string option" where
  "on_frame_message origin own m =
     (if origin \<noteq> own then ([], None)
      else case m of TerminalExpired \<Rightarrow>
          ([(''Session expired '' @ em_dash @ '' please log in again'', ''error'')], Some ''session-expired'')
        | _ \<Rightarrow> ([], None))"

datatype host_event = Shell string | Hide | CloseFrame string | Purge

fun host_step :: "host \<Rightarrow> host_event \<Rightarrow> host" where
  "host_step h (Shell cid) = show_shell cid h"
| "host_step h Hide = hide_host h"
| "host_step h (CloseFrame cid) = cache_close cid h"
| "host_step h Purge = cache_purge h"

text \<open>The slot's listeners are the only ones; a displayed host displays one frame; iframe numbers are distinct.\<close>

definition host_inv :: "host \<Rightarrow> bool" where
  "host_inv h \<longleftrightarrow> listeners h = (if slot h = None then 0 else 1) \<and> distinct (map fst (cache h)) \<and>
     length (filter (\<lambda>kf. shown (snd kf)) (cache h)) \<le> 1"

lemma fst_show_only [simp]: "map fst (show_only cid kvs) = map fst kvs"
  by (induction kvs) (auto simp: show_only_def)

lemma shown_show_only: "filter (\<lambda>kf. shown (snd kf)) (show_only cid kvs) =
    show_only cid (filter (\<lambda>kf. fst kf = cid) kvs)"
  by (induction kvs) (auto simp: show_only_def)

lemma length_show_only [simp]: "length (show_only cid kvs) = length kvs"
  by (simp add: show_only_def)

lemma shown_at_most_one: "distinct (map fst kvs) \<Longrightarrow>
    length (filter (\<lambda>kf. shown (snd kf)) (show_only cid kvs)) \<le> 1"
  unfolding shown_show_only length_show_only
  by (induction kvs) (auto simp: filter_empty_conv image_iff)

lemma cache_put_fields [simp]: "listeners (cache_put c fr h) = listeners h" "slot (cache_put c fr h) = slot h"
  "cache (cache_put c fr h) = alist_set c fr (cache h)"
  by (simp_all add: cache_put_def)

definition slot_ok :: "host \<Rightarrow> bool" where
  "slot_ok h \<longleftrightarrow> listeners h = (if slot h = None then 0 else 1) \<and> distinct (map fst (cache h))"

lemma host_inv_frame [simp]:
  "host_inv (h\<lparr>posts := x\<rparr>) = host_inv h" "host_inv (h\<lparr>close_btn := b, msg_listeners := n\<rparr>) = host_inv h"
  by (simp_all add: host_inv_def)

lemma attach_slot_inv: "slot_ok h \<Longrightarrow> host_inv (attach_slot sl cid h)"
  using shown_at_most_one [of "cache h" cid]
  by (simp add: slot_ok_def host_inv_def attach_slot_def detach_slot_def Let_def split: if_splits)

lemma host_inv_slot_ok: "host_inv h \<Longrightarrow> slot_ok h"
  by (simp add: host_inv_def slot_ok_def)

lemma slot_ok_frame [simp]:
  "slot_ok (h\<lparr>next_slot := n\<rparr>) = slot_ok h" "slot_ok (h\<lparr>next_no := n\<rparr>) = slot_ok h"
  by (simp_all add: slot_ok_def)

lemma slot_ok_put: "slot_ok h \<Longrightarrow> slot_ok (cache_put cid fr h)"
  by (simp add: slot_ok_def distinct_alist_set)

lemma show_shell_inv: "host_inv h \<Longrightarrow> host_inv (show_shell cid h)"
proof -
  assume "host_inv h"
  then have "slot_ok (h\<lparr>next_slot := Suc (next_slot h)\<rparr>)" by (simp add: host_inv_slot_ok)
  then show ?thesis
    by (cases "cache_get (h\<lparr>next_slot := Suc (next_slot h)\<rparr>) cid")
      (simp_all add: show_shell_def Let_def attach_slot_inv slot_ok_put)
qed

lemma host_step_inv: "host_inv h \<Longrightarrow> host_inv (host_step h e)"
  by (cases e) (auto simp: show_shell_inv, auto simp: host_inv_def hide_host_def detach_slot_def cache_close_def
      cache_purge_def split: option.splits)

lemma host_run_inv: "host_inv (run_events host_step host_init es)"
proof (rule run_events_invariant [where P = host_inv])
  show "host_inv host_init" by (simp add: host_inv_def host_init_def)
qed (rule host_step_inv)

section \<open>Lemmas about the cache\<close>

lemma map_of_show_only: "map_of (show_only cid kvs) k = map_option (\<lambda>fr. fr\<lparr>shown := k = cid\<rparr>) (map_of kvs k)"
  by (induction kvs) (auto simp: show_only_def)

definition frame_of :: "host \<Rightarrow> string \<Rightarrow> nat option" where
  "frame_of h cid = map_option frame_no (cache_get h cid)"

lemma frame_of_attach [simp]: "frame_of (attach_slot sl k h) cid = frame_of h cid"
  by (cases "map_of (cache h) cid")
    (simp_all add: frame_of_def cache_get_def attach_slot_def detach_slot_def Let_def map_of_show_only)

lemma frame_of_frame [simp]:
  "frame_of (h\<lparr>posts := x\<rparr>) cid = frame_of h cid" "frame_of (h\<lparr>next_slot := n\<rparr>) cid = frame_of h cid"
  "frame_of (h\<lparr>next_no := n\<rparr>) cid = frame_of h cid"
  "frame_of (h\<lparr>close_btn := b, msg_listeners := n\<rparr>) cid = frame_of h cid"
  by (simp_all add: frame_of_def cache_get_def)

lemma frame_of_put: "frame_of (cache_put k fr h) cid = (if cid = k then Some (frame_no fr) else frame_of h cid)"
  by (simp add: frame_of_def term_cache.lookup_put)

lemma frame_of_step: "frame_of h cid = Some n \<Longrightarrow> e \<noteq> Purge \<Longrightarrow> frame_of (host_step h e) cid = Some n"
proof (cases e)
  case (Shell k)
  assume h: "frame_of h cid = Some n"
  show ?thesis
  proof (cases "cache_get (h\<lparr>next_slot := Suc (next_slot h)\<rparr>) k")
    case None
    then have "k \<noteq> cid" using h by (auto simp: frame_of_def cache_get_def)
    with None h Shell show ?thesis by (simp add: show_shell_def Let_def frame_of_put)
  next
    case (Some fr)
    with h Shell show ?thesis by (simp add: show_shell_def Let_def)
  qed
next
  case (CloseFrame k)
  assume "frame_of h cid = Some n"
  with CloseFrame show ?thesis by (cases "cache_get h k") (simp_all add: cache_close_def)
next
  case Hide
  assume "frame_of h cid = Some n"
  with Hide show ?thesis by (simp add: hide_host_def detach_slot_def frame_of_def cache_get_def)
qed simp

lemma frame_of_run: "frame_of h cid = Some n \<Longrightarrow> Purge \<notin> set es \<Longrightarrow>
    frame_of (run_events host_step h es) cid = Some n"
  by (induction es arbitrary: h) (auto simp: frame_of_step)

lemma last_segment: "c \<notin> set t \<Longrightarrow> last (split_on c (s @ c # t)) = t"
proof (induction s)
  case (Cons x s)
  obtain y ys where "split_on c (s @ c # t) = y # ys" by (cases "split_on c (s @ c # t)") auto
  moreover have "ys \<noteq> []"
  proof
    assume "ys = []"
    with calculation have "join [c] [y] = s @ c # t" by (metis join_split_on)
    moreover have "c \<notin> set y"
      using \<open>split_on c (s @ c # t) = y # ys\<close> split_on_parts [of y c "s @ c # t"] by simp
    ultimately show False by auto
  qed
  ultimately show ?case using Cons by simp
qed (simp add: split_on_no_sep)

lemma last_nonempty: "last xs \<noteq> [] \<Longrightarrow> xs \<noteq> [] \<Longrightarrow> nonempty xs \<noteq> [] \<and> last (nonempty xs) = last xs"
  by (induction xs rule: rev_induct) (auto simp: nonempty_def)

lemma encode_uri_nonempty: "encode_uri s = [] \<longleftrightarrow> s = []"
  by (cases s) (auto simp: encode_uri_def encode_char_def Let_def)

section \<open>Properties\<close>

text \<open>
  C3: in every state the terminal can reach, at most one of a socket and a reconnect timer exists, at most
  five failures are counted, and a terminal that has neither socket nor timer is never silently dead: it
  shows a restart button or that the session expired.
\<close>

theorem terminal_never_silently_dead:
  assumes "frame_reach (connect frame_init) f"
  shows "attempt f \<le> 5 \<and> (retry_in f \<noteq> None \<longrightarrow> sock f = Closed) \<and>
    (sock f = Closed \<and> retry_in f = None \<longrightarrow>
      restart_btn f \<noteq> None \<or> frame_status f = Some (''error'', ''Session expired''))"
  using frame_reach_inv [OF assms connect_init_inv] by (auto simp: frame_inv_def MAX_RECONNECTS_def)

theorem terminal_never_silently_dead_witness:
  "restart_btn (on_close 1000 [] (connect frame_init)) \<noteq> None"
proof -
  have "frame_step (connect frame_init) (on_close 1000 [] (connect frame_init))"
    by (rule frame_step.closed) (simp add: connect_def frame_init_def)
  then have "frame_reach (connect frame_init) (on_close 1000 [] (connect frame_init))"
    by (rule frame_reach.step [OF frame_reach.refl])
  moreover have "sock (on_close 1000 [] (connect frame_init)) = Closed"
    "retry_in (on_close 1000 [] (connect frame_init)) = None"
    "frame_status (on_close 1000 [] (connect frame_init)) \<noteq> Some (''error'', ''Session expired'')"
    by (simp_all add: on_close_def connect_def frame_init_def set_status_def Let_def)
  ultimately show ?thesis using terminal_never_silently_dead by blast
qed

text \<open>
  C19: the terminal survives five connections lost in a row, waiting 1, 2, 4, 8 and 16 seconds, and gives
  up on exactly the sixth; a successful connection restores the whole budget.
\<close>

theorem terminal_backoff_budget:
  "gave_up ((fail_once ^^ 6) (connect frame_init)) \<and> (\<forall>n \<le> 5. \<not> gave_up ((fail_once ^^ n) (connect frame_init))) \<and>
   (\<forall>n < 5. retry_in (on_close 1006 [] ((fail_once ^^ n) (connect frame_init))) = Some (1000 * 2 ^ n)) \<and>
   attempt (on_open token f) = 0"
proof -
  have t: "trying (connect frame_init)" "attempt (connect frame_init) = 0"
    by (simp_all add: trying_def connect_def frame_init_def)
  have "retry_in (on_close 1006 [] ((fail_once ^^ n) (connect frame_init))) = Some (1000 * 2 ^ n)" if "n < 5" for n
  proof -
    have "trying ((fail_once ^^ n) (connect frame_init))" "attempt ((fail_once ^^ n) (connect frame_init)) = n"
      using frame_budget.budget_left [OF t(1), of n] t(2) that by (simp_all add: MAX_RECONNECTS_def)
    then show ?thesis using that by (simp add: retry_wait)
  qed
  moreover have "attempt (on_open token f) = 0" by (simp add: on_open_def Let_def)
  moreover have "Suc (MAX_RECONNECTS - 0) = 6" "MAX_RECONNECTS - 0 = 5" by (simp_all add: MAX_RECONNECTS_def)
  ultimately show ?thesis
    using frame_budget.gives_up_exactly [OF t(1)] t(2) by (metis zero_le)
qed

theorem terminal_backoff_budget_witness:
  "retry_in (on_close 1006 [] ((fail_once ^^ 3) (connect frame_init))) = Some 8000"
  using terminal_backoff_budget [of "[]" frame_init] by auto

text \<open>
  Once the user has disconnected and the socket has closed, nothing but the restart button opens a
  socket again: every other step leaves the terminal closed and disconnected.
\<close>

theorem disconnect_is_final:
  assumes "frame_step f g" and "user_closed f" and "sock f = Closed"
  shows "(user_closed g \<and> sock g = Closed) \<or> (restart_btn f \<noteq> None \<and> g = connect frame_init)"
  using assms
  by (auto elim!: frame_stepE simp: connect_def on_parent_message_def on_disconnect_def on_data_def send_resize_def
      split: parent_cmd.splits)

theorem disconnect_is_final_witness:
  "let f = frame_init\<lparr>sock := Closed, user_closed := True, retry_in := Some 1000\<rparr> in
   sock (connect (f\<lparr>retry_in := None\<rparr>)) = Closed"
proof -
  define f where "f = frame_init\<lparr>sock := Closed, user_closed := True, retry_in := Some 1000\<rparr>"
  have "frame_step f (connect (f\<lparr>retry_in := None\<rparr>))" by (rule frame_step.retry) (simp add: f_def)
  moreover have "user_closed f" "sock f = Closed" "restart_btn f = None" by (simp_all add: f_def frame_init_def)
  ultimately have "sock (connect (f\<lparr>retry_in := None\<rparr>)) = Closed" using disconnect_is_final by blast
  then show ?thesis by (simp add: f_def)
qed

text \<open>
  C18: a container's terminal keeps its iframe (hence its shell) through every visit to other tabs, pages
  and terminals until the session ends; exactly one set of slot listeners exists while a terminal is
  attached and none otherwise, and at most one iframe is displayed.
\<close>

theorem terminal_survives_tabs:
  assumes "Purge \<notin> set later" and "frame_of (run_events host_step host_init es) cid = Some n"
  shows "let h = run_events host_step host_init (es @ later) in
    frame_of h cid = Some n \<and> listeners h = (if slot h = None then 0 else 1) \<and>
    length (filter (\<lambda>kf. shown (snd kf)) (cache h)) \<le> 1"
  using host_run_inv [of "es @ later"] frame_of_run [OF assms(2) assms(1)]
  by (simp add: Let_def host_inv_def)

theorem terminal_survives_tabs_witness:
  "frame_of (run_events host_step host_init ([Shell ''a''] @ [Hide, Shell ''b'', Shell ''a''])) ''a'' = Some 0"
proof -
  have "frame_of (run_events host_step host_init [Shell ''a'']) ''a'' = Some 0" by code_simp
  moreover have "Purge \<notin> set [Hide, Shell ''b'', Shell ''a'']" by simp
  ultimately show ?thesis using terminal_survives_tabs [of "[Hide, Shell ''b'', Shell ''a'']" "[Shell ''a'']"]
    unfolding Let_def by blast
qed

text \<open>
  The frame's URL carries the container id encoded once and the frame reads it back still encoded, so
  the socket's path is the id itself exactly for ids made of unreserved characters, as the engine's are.
\<close>

theorem frame_url_roundtrip:
  assumes "cid \<noteq> []"
  shows "parse_container_id (iframe_src cid) = encode_uri cid \<and>
    (list_all unreserved cid \<longrightarrow> ws_url_for True host (parse_container_id (iframe_src cid)) =
       ''wss://'' @ host @ ''/ws/exec/'' @ cid) \<and>
    decode_uri (parse_container_id (iframe_src cid)) = cid"
proof -
  have "iframe_src cid = ''/api/terminal-frame'' @ CHR ''/'' # encode_uri cid" by (simp add: iframe_src_def)
  then have l: "last (split_on CHR ''/'' (iframe_src cid)) = encode_uri cid"
    by (simp only: last_segment encode_uri_no_delim not_False_eq_True)
  then have p: "parse_container_id (iframe_src cid) = encode_uri cid"
    using last_nonempty [of "split_on CHR ''/'' (iframe_src cid)"] assms encode_uri_nonempty [of cid]
    by (simp add: parse_container_id_def Let_def)
  have "list_all unreserved s \<Longrightarrow> encode_uri s = s" for s
    by (induction s) (simp_all add: encode_uri_def encode_char_def)
  with p show ?thesis by (simp add: ws_url_for_def)
qed

theorem frame_url_roundtrip_witness: "parse_container_id (iframe_src ''ab12'') = encode_uri ''ab12''"
  using frame_url_roundtrip [of "''ab12''"] by simp

end
