(* ===== verification/Logs.thy ===== *)
theory Logs
  imports Backoff BoundedLog
begin

text \<open>
  The log tab of app.js: the viewer with its buffer of lines, the search filter and its highlighting, and
  the stream's socket with its reconnects. Viewers and sockets are numbered in order of creation; a viewer
  lives on after its tab is left, because the closures of its socket and timers hold it.
\<close>

definition MAX_LOG_LINES :: nat where
  "MAX_LOG_LINES = 10000"

definition MAX_LOG_RECONNECTS :: nat where
  "MAX_LOG_RECONNECTS = 10"

record viewer =
  container :: string
  all_lines :: "string list"
  view_text :: string
  view_ws :: "nat option"

definition connecting :: string where
  "connecting = ''Connecting...''"

definition new_viewer :: "string \<Rightarrow> viewer" where
  "new_viewer cid = \<lparr>container = cid, all_lines = [], view_text = connecting, view_ws = None\<rparr>"

section \<open>The viewer\<close>

text \<open>A pushed line is either appended to the text, or the text is rendered again from all lines.\<close>

definition push_append :: "string \<Rightarrow> viewer \<Rightarrow> viewer" where
  "push_append s v = v\<lparr>all_lines := all_lines v @ [s], view_text := view_text v @ s\<rparr>"

definition push_render :: "string \<Rightarrow> viewer \<Rightarrow> viewer" where
  "push_render s v = (let ls = all_lines v @ [s] in v\<lparr>all_lines := ls, view_text := concat ls\<rparr>)"

definition log_message :: "string \<Rightarrow> viewer \<Rightarrow> viewer" where
  "log_message s v = (let ls = all_lines v @ [s] in
     if length ls > MAX_LOG_LINES
     then let ls' = drop (length ls - MAX_LOG_LINES) ls in v\<lparr>all_lines := ls', view_text := concat ls'\<rparr>
     else v\<lparr>all_lines := ls, view_text := view_text v @ s\<rparr>)"

text \<open>
  The search: the query is matched literally (every special character is escaped) and without regard to
  case. A matching line is split around the matches; a piece equal to the query gets the class
  \<open>log-match\<close>.
\<close>

function pieces :: "string \<Rightarrow> string \<Rightarrow> string \<Rightarrow> string list" where
  "pieces q acc [] = [rev acc]"
| "pieces q acc (c # s) =
     (if q \<noteq> [] \<and> starts_with (to_lower q) (to_lower (c # s))
      then rev acc # take (length q) (c # s) # pieces q [] (drop (length q) (c # s))
      else pieces q (c # acc) s)"
  by pat_completeness auto
termination
  by (relation "measure (\<lambda>(q, acc, s). length s)") (auto simp: neq_Nil_conv)

definition line_matches :: "string \<Rightarrow> string \<Rightarrow> bool" where
  "line_matches q line = has_sub (to_lower line) (to_lower q)"

definition spans :: "string \<Rightarrow> string \<Rightarrow> (bool \<times> string) list" where
  "spans q line = map (\<lambda>p. (to_lower p = to_lower q, p)) (pieces q [] line)"

definition search_view :: "string \<Rightarrow> viewer \<Rightarrow> (bool \<times> string) list" where
  "search_view q v = concat (map (spans q) (filter (line_matches q) (all_lines v)))"

definition search_input :: "string \<Rightarrow> viewer \<Rightarrow> viewer" where
  "search_input q v = (if q = [] then v\<lparr>view_text := concat (all_lines v)\<rparr>
     else v\<lparr>view_text := concat (map snd (search_view q v))\<rparr>)"

section \<open>The stream\<close>

text \<open>
  \<open>socks\<close>: the sockets not yet closed, each with its viewer and its attempt number; \<open>closing\<close>: those
  \<open>close\<close> was called on. \<open>shown\<close> is the viewer whose element has the id \<open>log-output\<close>, \<open>main_ws\<close> the
  socket kept on the main element, \<open>retries\<close> the pending reconnect timers (viewer, attempt, delay).
\<close>

record logs =
  viewers :: "viewer list"
  shown :: "nat option"
  socks :: "(nat \<times> nat \<times> nat) list"
  closing :: "nat list"
  next_sock :: nat
  main_ws :: "nat option"
  retries :: "(nat \<times> nat \<times> nat) list"
  log_toasts :: "string list"
  lockouts :: "string list"

definition logs_init :: logs where
  "logs_init = \<lparr>viewers = [], shown = None, socks = [], closing = [], next_sock = 0, main_ws = None,
     retries = [], log_toasts = [], lockouts = []\<rparr>"

definition on_viewer :: "nat \<Rightarrow> (viewer \<Rightarrow> viewer) \<Rightarrow> logs \<Rightarrow> logs" where
  "on_viewer n f st = (if n < length (viewers st) then st\<lparr>viewers := (viewers st)[n := f (viewers st ! n)]\<rparr> else st)"

text \<open>\<open>close\<close> on a socket that may be null; on a closed one it does nothing.\<close>

definition close_opt :: "nat option \<Rightarrow> logs \<Rightarrow> logs" where
  "close_opt s st = (case s of None \<Rightarrow> st
     | Some k \<Rightarrow> if k \<in> fst ` set (socks st) then st\<lparr>closing := k # closing st\<rparr> else st)"

definition connect_logs :: "nat \<Rightarrow> nat \<Rightarrow> logs \<Rightarrow> logs" where
  "connect_logs n attempt st =
     (if shown st = None then st
      else if attempt \<ge> MAX_LOG_RECONNECTS then
        on_viewer n (push_render (newline @ ''[Max reconnect attempts reached '' @ em_dash @
          '' container may be removed]'' @ newline)) st
      else let st1 = close_opt (view_ws (viewers st ! n)) st; k = next_sock st1 in
        on_viewer n (\<lambda>v. v\<lparr>view_ws := Some k\<rparr>)
          (st1\<lparr>socks := socks st1 @ [(k, n, attempt)], next_sock := Suc k, main_ws := Some k\<rparr>))"

definition on_open_view :: "nat \<Rightarrow> viewer \<Rightarrow> viewer" where
  "on_open_view attempt v =
     (let v1 = (if attempt = 0 \<and> view_text v = connecting then v\<lparr>view_text := concat (all_lines v)\<rparr> else v)
      in if attempt > 0 then push_render (newline @ ''[Reconnected]'' @ newline) v1 else v1)"

definition reconnect_line :: "nat \<Rightarrow> string" where
  "reconnect_line delay = newline @ ''[Reconnecting in '' @ show_nat (delay div 1000) @ ''s...]'' @ newline"

definition on_close_sock :: "nat \<Rightarrow> int \<Rightarrow> string \<Rightarrow> logs \<Rightarrow> logs" where
  "on_close_sock k code reason st = (case map_of (socks st) k of None \<Rightarrow> st
     | Some (n, attempt) \<Rightarrow>
        let st1 = st\<lparr>socks := filter (\<lambda>s. fst s \<noteq> k) (socks st), closing := removeAll k (closing st)\<rparr> in
        if view_ws (viewers st1 ! n) \<noteq> Some k then st1
        else if code = 1000 then st1
        else if code = 4003 then
          (on_viewer n (push_render (newline @ ''[Session expired '' @ em_dash @ '' please log in again]'' @ newline)) st1)
            \<lparr>lockouts := lockouts st1 @ [reason],
             log_toasts := log_toasts st1 @ [''Session expired '' @ em_dash @ '' please log in again'']\<rparr>
        else if shown st1 \<noteq> None then
          let delay = backoff_delay attempt in
          (on_viewer n (push_append (reconnect_line delay)) st1)
            \<lparr>retries := retries st1 @ [(n, attempt + 1, delay)]\<rparr>
        else st1)"

text \<open>\<open>showDetail(id, name, 'logs')\<close>: close the tab's socket, a new viewer, the first connection.\<close>

definition show_logs :: "string \<Rightarrow> logs \<Rightarrow> logs" where
  "show_logs cid st =
     (let st1 = (close_opt (main_ws st) st)\<lparr>main_ws := None\<rparr>; n = length (viewers st1) in
      connect_logs n 0 (st1\<lparr>viewers := viewers st1 @ [new_viewer cid], shown := Some n\<rparr>))"

text \<open>Leaving the detail view: \<open>closeDetailWS\<close> and the wiped page.\<close>

definition leave_logs :: "logs \<Rightarrow> logs" where
  "leave_logs st = (close_opt (main_ws st) st)\<lparr>main_ws := None, shown := None\<rparr>"

definition fire_retry :: "logs \<Rightarrow> logs" where
  "fire_retry st = (case retries st of [] \<Rightarrow> st
     | (n, attempt, _) # rs \<Rightarrow> connect_logs n attempt (st\<lparr>retries := rs\<rparr>))"

datatype log_event = ShowLogs string | LeaveLogs | SockOpen nat | SockMessage nat string | SockError nat
  | SockClose nat int string | FireRetry | Search nat string

fun log_step :: "logs \<Rightarrow> log_event \<Rightarrow> logs" where
  "log_step st (ShowLogs cid) = show_logs cid st"
| "log_step st LeaveLogs = leave_logs st"
| "log_step st (SockOpen k) = (case map_of (socks st) k of None \<Rightarrow> st
     | Some (n, attempt) \<Rightarrow> on_viewer n (on_open_view attempt) st)"
| "log_step st (SockMessage k d) = (case map_of (socks st) k of None \<Rightarrow> st
     | Some (n, attempt) \<Rightarrow> if view_ws (viewers st ! n) \<noteq> Some k then st else on_viewer n (log_message d) st)"
| "log_step st (SockError k) = (case map_of (socks st) k of None \<Rightarrow> st
     | Some (n, attempt) \<Rightarrow> on_viewer n (push_append (newline @ ''[Connection error]'')) st)"
| "log_step st (SockClose k code reason) = on_close_sock k code reason st"
| "log_step st FireRetry = fire_retry st"
| "log_step st (Search n q) = on_viewer n (search_input q) st"

section \<open>Lemmas\<close>

interpretation log_lines: bounded_log log_message all_lines "\<lambda>d. [d]" MAX_LOG_LINES
  by unfold_locales (simp add: log_message_def last_n_def Let_def)

text \<open>Without a search, a viewer shows its lines in order, at most behind the placeholder.\<close>

definition faithful :: "viewer \<Rightarrow> bool" where
  "faithful v \<longleftrightarrow> view_text v = concat (all_lines v) \<or> view_text v = connecting @ concat (all_lines v)"

definition all_faithful :: "logs \<Rightarrow> bool" where
  "all_faithful st \<longleftrightarrow> list_all faithful (viewers st)"

lemma faithful_ops [intro]:
  "faithful v \<Longrightarrow> faithful (push_append s v)" "faithful (push_render s v)"
  "faithful v \<Longrightarrow> faithful (log_message s v)" "faithful v \<Longrightarrow> faithful (on_open_view n v)"
  "faithful v \<Longrightarrow> faithful (v\<lparr>view_ws := w\<rparr>)" "faithful (new_viewer cid)"
  by (auto simp: faithful_def push_append_def push_render_def log_message_def on_open_view_def new_viewer_def Let_def)

lemma on_viewer_faithful: "all_faithful st \<Longrightarrow> (\<And>v. faithful v \<Longrightarrow> faithful (f v)) \<Longrightarrow> all_faithful (on_viewer n f st)"
  by (auto simp: all_faithful_def on_viewer_def list_all_length nth_list_update)

lemma all_faithful_frame [simp]:
  "all_faithful (st\<lparr>socks := a\<rparr>) = all_faithful st" "all_faithful (st\<lparr>next_sock := b\<rparr>) = all_faithful st"
  "all_faithful (st\<lparr>main_ws := c\<rparr>) = all_faithful st" "all_faithful (st\<lparr>closing := d\<rparr>) = all_faithful st"
  "all_faithful (st\<lparr>lockouts := e\<rparr>) = all_faithful st" "all_faithful (st\<lparr>log_toasts := g\<rparr>) = all_faithful st"
  "all_faithful (st\<lparr>retries := h\<rparr>) = all_faithful st" "all_faithful (st\<lparr>shown := i\<rparr>) = all_faithful st"
  "all_faithful (close_opt s st) = all_faithful st"
  by (simp_all add: all_faithful_def close_opt_def split: option.splits)

lemma connect_faithful: "all_faithful st \<Longrightarrow> all_faithful (connect_logs n a st)"
  by (auto simp: connect_logs_def Let_def intro!: on_viewer_faithful)

lemma on_close_faithful: "all_faithful st \<Longrightarrow> all_faithful (on_close_sock k code reason st)"
  by (auto simp: on_close_sock_def Let_def intro!: on_viewer_faithful split: option.splits)

lemma show_logs_faithful: "all_faithful st \<Longrightarrow> all_faithful (show_logs cid st)"
proof -
  assume a: "all_faithful st"
  have "viewers (close_opt s st) = viewers st" for s by (simp add: close_opt_def split: option.splits)
  then show ?thesis using a
    by (auto simp: show_logs_def Let_def intro!: connect_faithful) (auto simp: all_faithful_def)
qed

lemma log_step_faithful:
  assumes "all_faithful st" and "\<And>n q. e \<noteq> Search n q"
  shows "all_faithful (log_step st e)"
proof (cases e)
  case FireRetry
  then show ?thesis using assms(1) by (auto simp: fire_retry_def connect_faithful split: list.splits)
next
  case (Search n q)
  then show ?thesis using assms(2) by simp
qed (use assms in \<open>auto simp: on_close_faithful show_logs_faithful leave_logs_def intro!: on_viewer_faithful split: option.splits\<close>)

lemma to_lower_simps [simp]: "to_lower [] = []" "length (to_lower s) = length s"
  "to_lower (a @ b) = to_lower a @ to_lower b" "to_lower (c # s) = lower_char c # to_lower s"
  by (simp_all add: to_lower_def)

lemma concat_pieces: "concat (pieces q acc s) = rev acc @ s"
  by (induction q acc s rule: pieces.induct) auto

lemma pieces_match: "q \<noteq> [] \<Longrightarrow> has_sub (to_lower s) (to_lower q) \<Longrightarrow>
    \<exists>p \<in> set (pieces q acc s). to_lower p = to_lower q"
proof (induction q acc s rule: pieces.induct)
  case (2 q acc c s)
  show ?case
  proof (cases "starts_with (to_lower q) (to_lower (c # s))")
    case True
    then obtain r where r: "to_lower (c # s) = to_lower q @ r" by (auto simp: starts_with_iff)
    have "to_lower (take (length q) (c # s)) = take (length q) (to_lower (c # s))"
      by (simp only: to_lower_def take_map)
    also have "\<dots> = to_lower q" by (simp only: r) simp
    finally show ?thesis using True 2 by simp
  next
    case False
    with 2 show ?thesis by simp
  qed
qed (simp add: to_lower_def)

text \<open>One connection that opens and is then lost, with its reconnect.\<close>

definition lose_connection :: "logs \<Rightarrow> logs" where
  "lose_connection st = (case socks st of [] \<Rightarrow> st
     | (k, _) # _ \<Rightarrow> run_events log_step st [SockOpen k, SockClose k 1006 [], FireRetry])"

definition stream_live :: "logs \<Rightarrow> bool" where
  "stream_live st \<longleftrightarrow> (\<exists>k a v. viewers st = [v] \<and> shown st = Some 0 \<and> socks st = [(k, 0, a)] \<and>
     view_ws v = Some k \<and> retries st = [])"

definition stream_attempt :: "logs \<Rightarrow> nat" where
  "stream_attempt st = (case socks st of [] \<Rightarrow> 0 | (_, _, a) # _ \<Rightarrow> a)"

definition stream_dead :: "logs \<Rightarrow> bool" where
  "stream_dead st \<longleftrightarrow> socks st = [] \<and> retries st = []"

lemma view_ws_ops [simp]: "view_ws (push_append s v) = view_ws v" "view_ws (push_render s v) = view_ws v"
  "view_ws (on_open_view a v) = view_ws v"
  by (simp_all add: push_append_def push_render_def on_open_view_def Let_def)

lemma lose_live: "viewers st = [v] \<Longrightarrow> shown st = Some 0 \<Longrightarrow> socks st = [(k, 0, a)] \<Longrightarrow> view_ws v = Some k \<Longrightarrow>
    retries st = [] \<Longrightarrow>
    (if Suc a < MAX_LOG_RECONNECTS then stream_live (lose_connection st) \<and> stream_attempt (lose_connection st) = Suc a
     else stream_dead (lose_connection st))"
  by (simp add: lose_connection_def on_viewer_def on_close_sock_def fire_retry_def connect_logs_def close_opt_def
      stream_live_def stream_attempt_def stream_dead_def Let_def)

lemma show_logs_init: "show_logs cid logs_init = \<lparr>viewers = [(new_viewer cid)\<lparr>view_ws := Some 0\<rparr>],
    shown = Some 0, socks = [(0, 0, 0)], closing = [], next_sock = 1, main_ws = Some 0, retries = [],
    log_toasts = [], lockouts = []\<rparr>"
  by (simp add: show_logs_def connect_logs_def logs_init_def close_opt_def on_viewer_def new_viewer_def Let_def MAX_LOG_RECONNECTS_def)

interpretation log_budget: retry_budget lose_connection stream_attempt stream_dead stream_live 9
proof (unfold_locales, goal_cases)
  case (1 s)
  then show ?case using lose_live by (fastforce simp: stream_live_def stream_attempt_def MAX_LOG_RECONNECTS_def)
next
  case (2 s)
  then obtain k a v where s: "viewers s = [v]" "shown s = Some 0" "socks s = [(k, 0, a)]" "view_ws v = Some k"
    "retries s = []" by (auto simp: stream_live_def)
  with 2 have "\<not> Suc a < MAX_LOG_RECONNECTS" by (simp add: stream_attempt_def MAX_LOG_RECONNECTS_def)
  with lose_live [OF s] show ?case by (simp add: stream_dead_def stream_live_def)
next
  case (3 s)
  then show ?case by (auto simp: stream_live_def stream_dead_def)
qed

section \<open>Properties\<close>

text \<open>
  C12: whatever the stream and the tabs do, as long as nothing is searched every log viewer shows its
  buffered lines, all of them in order, with at most the placeholder before them; and each message leaves
  at most the last 10,000 lines.
\<close>

theorem log_view_faithful:
  assumes "\<forall>e \<in> set es. \<forall>n q. e \<noteq> Search n q"
  shows "list_all faithful (viewers (run_events log_step logs_init es)) \<and>
    (length (all_lines v) \<le> MAX_LOG_LINES \<longrightarrow>
      all_lines (run_events (\<lambda>v d. log_message d v) v ds) = last_n 10000 (all_lines v @ ds))"
proof -
  have "all_faithful st \<Longrightarrow> \<forall>e \<in> set es. \<forall>n q. e \<noteq> Search n q \<Longrightarrow> all_faithful (run_events log_step st es)" for st
    by (induction es arbitrary: st) (auto simp: log_step_faithful)
  then show ?thesis using assms log_lines.run_contents [of v ds]
    by (simp add: all_faithful_def logs_init_def MAX_LOG_LINES_def)
qed

theorem log_view_faithful_witness:
  "list_all faithful (viewers (run_events log_step logs_init [ShowLogs ''a'', SockOpen 0, SockMessage 0 ''hi'']))"
  using log_view_faithful [of "[ShowLogs ''a'', SockOpen 0, SockMessage 0 ''hi'']"] by simp

text \<open>
  The log stream's reconnect budget is never restored: ten connections lost, each after having opened
  successfully and however far apart, end the stream for good, and nine do not.
\<close>

theorem log_budget_never_restored:
  "stream_dead ((lose_connection ^^ 10) (show_logs cid logs_init)) \<and>
   (\<forall>n \<le> 9. \<not> stream_dead ((lose_connection ^^ n) (show_logs cid logs_init)))"
proof -
  have "stream_live (show_logs cid logs_init)" "stream_attempt (show_logs cid logs_init) = 0"
    by (simp_all add: show_logs_init stream_live_def stream_attempt_def)
  moreover have "Suc (9 - 0) = (10 :: nat)" "9 - 0 = (9 :: nat)" by simp_all
  ultimately show ?thesis
    using log_budget.gives_up_exactly [of "show_logs cid logs_init"] by (metis zero_le)
qed

theorem log_budget_never_restored_witness:
  "\<not> stream_dead ((lose_connection ^^ 9) (show_logs ''a'' logs_init))"
  using log_budget_never_restored [of "''a''"] by simp

text \<open>
  Going from one container's logs to another's revives the first stream behind the second: its closed
  socket reconnects, takes the place of the visible viewer's socket on the main element, and leaving the
  page then closes only that ghost; the visible viewer's own socket stays open.
\<close>

theorem log_switch_leaks_stream:
  "let st = run_events log_step logs_init [ShowLogs a, SockOpen 0, ShowLogs b, SockOpen 1, SockClose 0 1005 [], FireRetry];
       st' = log_step st LeaveLogs in
     map (\<lambda>s. container (viewers st ! fst (snd s))) (socks st) = [b, a] \<and>
     shown st = Some 1 \<and> main_ws st = Some 2 \<and>
     closing st' = [2] \<and> 1 \<in> fst ` set (socks st')"
  by (simp add: logs_init_def show_logs_def connect_logs_def close_opt_def on_viewer_def new_viewer_def Let_def
      on_open_view_def on_close_sock_def push_append_def fire_retry_def leave_logs_def MAX_LOG_RECONNECTS_def)

text \<open>
  Searching shows exactly the lines that contain the query regardless of case, each complete and in
  order, and highlights a piece of every one of them; a message that arrives afterwards is shown whether
  it matches or not.
\<close>

theorem log_search_exact:
  assumes "q \<noteq> []"
  shows "view_text (search_input q v) = concat (filter (line_matches q) (all_lines v)) \<and>
    (\<forall>line \<in> set (all_lines v). line_matches q line \<longrightarrow> (\<exists>p. (True, p) \<in> set (spans q line))) \<and>
    (length (all_lines v) < MAX_LOG_LINES \<longrightarrow>
      view_text (log_message d (search_input q v)) = view_text (search_input q v) @ d)"
proof -
  have sp: "concat (map snd (spans q line)) = line" for line
    by (simp add: spans_def o_def concat_pieces)
  have "concat (map snd (concat (map (spans q) ls))) = concat ls" for ls
    by (induction ls) (simp_all add: sp)
  moreover have "\<exists>p. (True, p) \<in> set (spans q line)" if "line_matches q line" for line
    using pieces_match [of q line "[]"] assms that by (force simp: spans_def line_matches_def)
  ultimately show ?thesis using assms
    by (simp add: search_input_def search_view_def log_message_def Let_def)
qed

theorem log_search_exact_witness:
  "view_text (search_input ''ERR'' (push_append ''err one'' (push_append ''fine'' (new_viewer ''a'')))) = ''err one''"
proof -
  have "filter (line_matches ''ERR'') [''fine'', ''err one''] = [''err one'']" by code_simp
  then show ?thesis
    using log_search_exact [of "''ERR''" "push_append ''err one'' (push_append ''fine'' (new_viewer ''a''))"]
    by (simp add: push_append_def new_viewer_def)
qed

end
