(* ===== verification/Forms.thy ===== *)
theory Forms
  imports Widgets SingleFlight
begin

text \<open>
  The declarative forms of ui.js: \<open>form\<close> (its fields, values, validation and error banner), \<open>modal\<close>, and
  \<open>formModal\<close>, the modal around a form whose submission may be a promise.
\<close>

section \<open>Fields\<close>

datatype field_type = Textarea | Select | Checkbox | TextInput string

record option_spec =
  opt_value :: string
  opt_label :: string
  opt_selected :: bool

text \<open>\<open>field_value\<close> is \<open>f.value\<close>, \<open>None\<close> for null; \<open>field_label\<close> is \<open>None\<close> when the spec has none.\<close>

record field =
  name :: string
  field_label :: "string option"
  field_type :: field_type
  field_value :: "string option"
  field_checked :: bool
  field_required :: bool
  validator :: "string \<Rightarrow> string"
  field_options :: "option_spec list"
  field_rows :: int
  placeholder :: string
  field_help :: string
  hint :: string

record input =
  is_checkbox :: bool
  input_value :: string
  checked :: bool

text \<open>A select shows its last option marked selected, else its first one.\<close>

definition select_value :: "option_spec list \<Rightarrow> string" where
  "select_value os = (let marked = filter opt_selected os in
     if marked \<noteq> [] then opt_value (last marked) else if os = [] then [] else opt_value (hd os))"

text \<open>The value of an unmarked checkbox input is "on", checked or not.\<close>

definition make_input :: "field \<Rightarrow> input" where
  "make_input f = (case field_type f of
      Textarea \<Rightarrow> \<lparr>is_checkbox = False, input_value = [], checked = False\<rparr>
    | Select \<Rightarrow> \<lparr>is_checkbox = False, input_value = select_value (field_options f), checked = False\<rparr>
    | Checkbox \<Rightarrow> \<lparr>is_checkbox = True, input_value = ''on'', checked = field_checked f\<rparr>
    | TextInput ty \<Rightarrow> \<lparr>is_checkbox = False,
        input_value = (case field_value f of None \<Rightarrow> [] | Some v \<Rightarrow> v), checked = False\<rparr>)"

definition shown_label :: "field \<Rightarrow> string" where
  "shown_label f = or_str (case field_label f of None \<Rightarrow> [] | Some l \<Rightarrow> l) (name f)"

definition attr_if :: "bool \<Rightarrow> string \<Rightarrow> string \<Rightarrow> (string \<times> string) list" where
  "attr_if b k v = (if b then [(k, v)] else [])"

definition option_node :: "option_spec \<Rightarrow> unit node" where
  "option_node os = Elem ((new_elem ''option'')\<lparr>attributes := (''value'', opt_value os) #
     attr_if (opt_selected os) ''selected'' ''true''\<rparr>) (text_nodes (or_str (opt_label os) (opt_value os)))"

definition input_node :: "field \<Rightarrow> unit node" where
  "input_node f = (case field_type f of
      Textarea \<Rightarrow> Elem ((new_elem ''textarea'')\<lparr>attributes := [(''name'', name f),
        (''rows'', show_int (if field_rows f = 0 then 4 else field_rows f)), (''placeholder'', placeholder f)]\<rparr>) []
    | Select \<Rightarrow> Elem ((new_elem ''select'')\<lparr>attributes := [(''name'', name f)]\<rparr>) (map option_node (field_options f))
    | Checkbox \<Rightarrow> Elem ((new_elem ''input'')\<lparr>attributes := [(''type'', ''checkbox''), (''name'', name f)] @
        attr_if (field_checked f) ''checked'' ''checked''\<rparr>) []
    | TextInput ty \<Rightarrow> Elem ((new_elem ''input'')\<lparr>attributes := [(''type'', or_str ty ''text''), (''name'', name f),
        (''placeholder'', placeholder f), (''value'', case field_value f of None \<Rightarrow> [] | Some v \<Rightarrow> v)]\<rparr>) [])"

definition help_nodes :: "(string \<Rightarrow> bool) \<Rightarrow> field \<Rightarrow> dom_error + unit node list" where
  "help_nodes valid f = (if field_help f = [] then Inr [] else res_bind (help_icon valid (field_help f)) (\<lambda>n. Inr [n]))"

definition field_row :: "(string \<Rightarrow> bool) \<Rightarrow> field \<Rightarrow> dom_error + unit node" where
  "field_row valid f = res_bind (help_nodes valid f) (\<lambda>icon.
     let lbl = (new_elem ''span'')\<lparr>class_name := ''field-label''\<rparr>; txt = text_nodes (shown_label f) in
     if field_type f = Checkbox
     then Inr (Elem ((new_elem ''label'')\<lparr>class_name := ''field field-checkbox''\<rparr>)
       ([input_node f, Elem lbl txt] @ icon))
     else Inr (Elem ((new_elem ''label'')\<lparr>class_name := ''field''\<rparr>)
       ([Elem lbl (txt @ icon), input_node f] @
        (if hint f = [] then [] else [Elem ((new_elem ''small'')\<lparr>class_name := ''field-hint''\<rparr>) (text_nodes (hint f))]))))"

section \<open>The form\<close>

text \<open>\<open>by_name\<close> in order of first insertion; a later field of the same name replaces the input.\<close>

record form =
  by_name :: "(string \<times> input) list"
  error_text :: string
  error_shown :: bool

datatype fvalue = VBool bool | VStr string

definition make_form :: "field list \<Rightarrow> form" where
  "make_form fs = \<lparr>by_name = fold (\<lambda>f acc. alist_set (name f) (make_input f) acc) fs [],
     error_text = [], error_shown = False\<rparr>"

definition set_error :: "string \<Rightarrow> form \<Rightarrow> form" where
  "set_error msg fm = fm\<lparr>error_text := msg, error_shown := (msg \<noteq> [])\<rparr>"

definition clear_error :: "form \<Rightarrow> form" where
  "clear_error fm = set_error [] fm"

definition value_of :: "input \<Rightarrow> fvalue" where
  "value_of i = (if is_checkbox i then VBool (checked i) else VStr (input_value i))"

definition get_values :: "form \<Rightarrow> (string \<times> fvalue) list" where
  "get_values fm = map (\<lambda>(k, i). (k, value_of i)) (by_name fm)"

definition set_values :: "(string \<times> string) list \<Rightarrow> form \<Rightarrow> form" where
  "set_values kvs fm = fold (\<lambda>(k, v) fm. case map_of (by_name fm) k of None \<Rightarrow> fm
     | Some i \<Rightarrow> fm\<lparr>by_name := alist_set k (i\<lparr>input_value := v\<rparr>) (by_name fm)\<rparr>) kvs fm"

fun validate :: "field list \<Rightarrow> (string \<times> input) list \<Rightarrow> string option" where
  "validate [] inputs = None"
| "validate (f # fs) inputs =
     (let v = (case map_of inputs (name f) of Some i \<Rightarrow> input_value i | None \<Rightarrow> []) in
      if field_required f \<and> v = []
      then Some ((case field_label f of None \<Rightarrow> ''undefined'' | Some l \<Rightarrow> l) @ '' is required'')
      else let err = validator f v in if err \<noteq> [] then Some err else validate fs inputs)"

section \<open>\<open>formModal\<close>\<close>

text \<open>
  \<open>attached\<close>: the modal is in the document; \<open>calls\<close>: the inputs at each call of the spec's \<open>onSubmit\<close>;
  \<open>outstanding\<close>: promises it returned that have not settled.
\<close>

record form_modal =
  fm_form :: form
  attached :: bool
  submit_pending :: bool
  submit_disabled :: bool
  submit_text :: string
  outstanding :: nat
  calls :: "(string \<times> input) list list"
  cancels :: nat

record modal_spec =
  spec_fields :: "field list"
  submit_label :: string
  pending_label :: string
  no_click_outside :: bool

text \<open>What \<open>spec.onSubmit\<close> does: throw (with a message or not), return a value, or return a promise.\<close>

datatype submit_outcome = Throws "string option" | Returns | Promise

datatype modal_event = TypeInto string string | Tick string bool | Submit submit_outcome
  | Resolved | Rejected "string option" | Cancel | ClickBackdrop

definition error_message :: "string option \<Rightarrow> string" where
  "error_message e = (case e of None \<Rightarrow> ''Submit failed'' | Some m \<Rightarrow> or_str m ''Submit failed'')"

definition open_modal :: "modal_spec \<Rightarrow> form_modal" where
  "open_modal sp = \<lparr>fm_form = make_form (spec_fields sp), attached = True, submit_pending = False,
     submit_disabled = False, submit_text = or_str (submit_label sp) ''Submit'', outstanding = 0, calls = [], cancels = 0\<rparr>"

definition close_modal :: "form_modal \<Rightarrow> form_modal" where
  "close_modal m = m\<lparr>attached := False\<rparr>"

definition set_pending :: "modal_spec \<Rightarrow> bool \<Rightarrow> form_modal \<Rightarrow> form_modal" where
  "set_pending sp p m = m\<lparr>submit_pending := p, submit_disabled := p,
     submit_text := (if p then or_str (pending_label sp) (''Working'' @ ellipsis)
       else or_str (submit_label sp) ''Submit'')\<rparr>"

definition with_form :: "(form \<Rightarrow> form) \<Rightarrow> form_modal \<Rightarrow> form_modal" where
  "with_form f m = m\<lparr>fm_form := f (fm_form m)\<rparr>"

definition submit_handler :: "modal_spec \<Rightarrow> submit_outcome \<Rightarrow> form_modal \<Rightarrow> form_modal" where
  "submit_handler sp oc m = (if submit_pending m then m else
     let m1 = with_form clear_error m; m2 = m1\<lparr>calls := calls m1 @ [by_name (fm_form m1)]\<rparr> in
     case oc of Throws e \<Rightarrow> with_form (set_error (error_message e)) m2
       | Promise \<Rightarrow> (set_pending sp True m2)\<lparr>outstanding := Suc (outstanding m2)\<rparr>
       | Returns \<Rightarrow> close_modal m2)"

definition form_submit :: "modal_spec \<Rightarrow> submit_outcome \<Rightarrow> form_modal \<Rightarrow> form_modal" where
  "form_submit sp oc m = (case validate (spec_fields sp) (by_name (fm_form m)) of
      Some err \<Rightarrow> with_form (set_error err) m
    | None \<Rightarrow> submit_handler sp oc (with_form clear_error m))"

fun modal_step :: "modal_spec \<Rightarrow> form_modal \<Rightarrow> modal_event \<Rightarrow> form_modal" where
  "modal_step sp m (TypeInto k v) = (if attached m then with_form (set_values [(k, v)]) m else m)"
| "modal_step sp m (Tick k b) = (if attached m then with_form (\<lambda>fm. case map_of (by_name fm) k of None \<Rightarrow> fm
     | Some i \<Rightarrow> fm\<lparr>by_name := alist_set k (i\<lparr>checked := b\<rparr>) (by_name fm)\<rparr>) m else m)"
| "modal_step sp m (Submit oc) = (if attached m then form_submit sp oc m else m)"
| "modal_step sp m Resolved = (if outstanding m = 0 then m
     else close_modal (set_pending sp False (m\<lparr>outstanding := outstanding m - 1\<rparr>)))"
| "modal_step sp m (Rejected e) = (if outstanding m = 0 then m
     else with_form (set_error (error_message e)) (set_pending sp False (m\<lparr>outstanding := outstanding m - 1\<rparr>)))"
| "modal_step sp m Cancel = (if attached m then (close_modal m)\<lparr>cancels := Suc (cancels m)\<rparr> else m)"
| "modal_step sp m ClickBackdrop = (if attached m \<and> \<not> no_click_outside sp then close_modal m else m)"

section \<open>Lemmas\<close>

lemma with_form_fields [simp]: "submit_pending (with_form f m) = submit_pending m"
  "outstanding (with_form f m) = outstanding m" "submit_disabled (with_form f m) = submit_disabled m"
  "attached (with_form f m) = attached m" "calls (with_form f m) = calls m" "fm_form (with_form f m) = f (fm_form m)"
  by (simp_all add: with_form_def)

lemma close_fields [simp]: "submit_pending (close_modal m) = submit_pending m" "outstanding (close_modal m) = outstanding m"
  "submit_disabled (close_modal m) = submit_disabled m" "calls (close_modal m) = calls m" "fm_form (close_modal m) = fm_form m"
  by (simp_all add: close_modal_def)

lemma set_pending_fields [simp]: "submit_pending (set_pending sp p m) = p" "submit_disabled (set_pending sp p m) = p"
  "outstanding (set_pending sp p m) = outstanding m" "calls (set_pending sp p m) = calls m"
  "attached (set_pending sp p m) = attached m" "fm_form (set_pending sp p m) = fm_form m"
  by (simp_all add: set_pending_def)

lemma error_fields [simp]: "by_name (set_error msg fm) = by_name fm" "by_name (clear_error fm) = by_name fm"
  "error_text (set_error msg fm) = msg" "error_shown (set_error msg fm) = (msg \<noteq> [])"
  by (simp_all add: set_error_def clear_error_def)

lemma error_message_nonempty [simp]: "error_message e \<noteq> []"
  by (auto simp: error_message_def or_str_def split: option.splits)

interpretation form_flight: single_flight "modal_step sp" submit_pending outstanding for sp
proof (unfold_locales, goal_cases)
  case (1 m e)
  then show ?case
    by (cases e) (auto simp: form_submit_def submit_handler_def Let_def split: option.splits submit_outcome.splits)
next
  case (2 m e)
  then show ?case
    by (cases e) (auto simp: form_submit_def submit_handler_def Let_def split: option.splits submit_outcome.splits)
qed

definition modal_inv :: "modal_spec \<Rightarrow> form_modal \<Rightarrow> bool" where
  "modal_inv sp m \<longleftrightarrow> submit_disabled m = submit_pending m \<and>
     list_all (\<lambda>inputs. validate (spec_fields sp) inputs = None) (calls m)"

lemma modal_step_inv: "modal_inv sp m \<Longrightarrow> modal_inv sp (modal_step sp m e)"
  by (cases e) (auto simp: modal_inv_def form_submit_def submit_handler_def Let_def
      split: option.splits submit_outcome.splits)

lemma open_modal_inv: "modal_inv sp (open_modal sp)"
  by (simp add: modal_inv_def open_modal_def)

lemma modal_run_inv: "modal_inv sp (run_events (modal_step sp) (open_modal sp) es)"
  using open_modal_inv modal_step_inv by (rule run_events_invariant)

lemma map_of_get_values: "map_of (get_values fm) k = map_option value_of (map_of (by_name fm) k)"
  unfolding get_values_def by (induction "by_name fm") (auto simp: map_of_map)

lemma set_values_Cons: "set_values ((k, v) # kvs) fm = set_values kvs (set_values [(k, v)] fm)"
  by (simp add: set_values_def)

lemma set_values_one: "map_of (by_name (set_values [(k, v)] fm)) x =
    (if x = k then map_option (\<lambda>i. i\<lparr>input_value := v\<rparr>) (map_of (by_name fm) k) else map_of (by_name fm) x)"
  by (auto simp: set_values_def map_of_alist_set split: option.splits)

lemma set_values_get: "distinct (map fst kvs) \<Longrightarrow>
    map_of (by_name (set_values kvs fm)) x = (case map_of kvs x of None \<Rightarrow> map_of (by_name fm) x
      | Some v \<Rightarrow> map_option (\<lambda>i. i\<lparr>input_value := v\<rparr>) (map_of (by_name fm) x))"
proof (induction kvs arbitrary: fm)
  case (Cons kv kvs)
  obtain k v where kv: "kv = (k, v)" by (cases kv)
  have "map_of kvs k = None" using Cons.prems kv by (simp add: map_of_eq_None_iff)
  with Cons kv show ?case
    by (cases "x = k") (simp_all add: set_values_Cons [of k v kvs] set_values_one split: option.splits)
qed (simp add: set_values_def)

section \<open>Properties\<close>

text \<open>
  C4: however the user types, submits, cancels and waits, a form modal has at most one request out, its
  button is disabled exactly while one is, and its handler has only ever been called with values that
  pass the validation.
\<close>

theorem form_modal_submits_once:
  "let m = run_events (modal_step sp) (open_modal sp) es in
     outstanding m \<le> 1 \<and> submit_disabled m = (outstanding m = 1) \<and>
     list_all (\<lambda>inputs. validate (spec_fields sp) inputs = None) (calls m)"
  using modal_run_inv [of sp es] form_flight.run_flag [of "open_modal sp" sp es]
  by (simp add: Let_def modal_inv_def open_modal_def)

text \<open>
  A rejected submission (a throw, or a promise that rejects, with or without a message) never closes the
  modal or loses what was typed, and always shows a non-empty message; the button works again.
\<close>

theorem form_modal_failure_visible:
  assumes "attached m" and "(e = Rejected msg \<and> outstanding m = 1) \<or>
      (e = Submit (Throws msg) \<and> \<not> submit_pending m \<and> \<not> submit_disabled m \<and> validate (spec_fields sp) (by_name (fm_form m)) = None)"
  shows "let m' = modal_step sp m e in attached m' \<and> by_name (fm_form m') = by_name (fm_form m) \<and>
     error_shown (fm_form m') \<and> error_text (fm_form m') \<noteq> [] \<and> \<not> submit_disabled m'"
  using assms by (auto simp: Let_def form_submit_def submit_handler_def)

theorem form_modal_failure_visible_witness:
  "let sp = \<lparr>spec_fields = [], submit_label = ''Create'', pending_label = [], no_click_outside = False\<rparr> in
   error_shown (fm_form (modal_step sp (open_modal sp) (Submit (Throws None))))"
  using form_modal_failure_visible [of "open_modal \<lparr>spec_fields = [], submit_label = ''Create'', pending_label = [],
      no_click_outside = False\<rparr>" "Submit (Throws None)" None
      "\<lparr>spec_fields = [], submit_label = ''Create'', pending_label = [], no_click_outside = False\<rparr>"]
  by (simp add: open_modal_def Let_def)

text \<open>
  A required checkbox is never enforced: whatever its state, the validation accepts it, because it
  tests the input's value ("on") and not whether it is ticked.
\<close>

theorem required_checkbox_not_enforced:
  assumes "field_type f = Checkbox" and "validator f ''on'' = []"
  shows "validate [f] (by_name (make_form [f])) = None \<and>
    get_values (make_form [f]) = [(name f, VBool (field_checked f))]"
  using assms by (simp add: make_form_def make_input_def alist_set_def get_values_def value_of_def Let_def)

theorem required_checkbox_not_enforced_witness:
  "let f = \<lparr>name = ''accept'', field_label = Some ''Accept'', field_type = Checkbox, field_value = None,
       field_checked = False, field_required = True, validator = (\<lambda>_. []), field_options = [], field_rows = 0,
       placeholder = [], field_help = [], hint = []\<rparr> in
   validate [f] (by_name (make_form [f])) = None"
proof -
  let ?f = "\<lparr>name = ''accept'', field_label = Some ''Accept'', field_type = Checkbox, field_value = None,
       field_checked = False, field_required = True, validator = (\<lambda>_. []), field_options = [], field_rows = 0,
       placeholder = [], field_help = [], hint = []\<rparr>"
  have "field_type ?f = Checkbox" and "validator ?f ''on'' = []" by simp_all
  from required_checkbox_not_enforced [OF this] show ?thesis unfolding Let_def by blast
qed

text \<open>
  What \<open>setValues\<close> writes, \<open>getValues\<close> reads back, for every text field of the form named once; fields
  that are not named keep their value, and a checkbox ignores it.
\<close>

theorem set_get_values:
  assumes "distinct (map fst kvs)" and "map_of (by_name fm) k = Some i"
  shows "map_of (get_values (set_values kvs fm)) k =
    Some (if is_checkbox i then VBool (checked i)
      else VStr (case map_of kvs k of Some v \<Rightarrow> v | None \<Rightarrow> input_value i))"
  using assms by (cases "map_of kvs k") (simp_all add: map_of_get_values set_values_get value_of_def)

theorem set_get_values_witness:
  "map_of (get_values (set_values [(''a'', ''1'')] \<lparr>by_name = [(''a'', \<lparr>is_checkbox = False, input_value = [],
     checked = False\<rparr>)], error_text = [], error_shown = False\<rparr>)) ''a'' = Some (VStr ''1'')"
  using set_get_values [of "[(''a'', ''1'')]" "\<lparr>by_name = [(''a'', \<lparr>is_checkbox = False, input_value = [],
     checked = False\<rparr>)], error_text = [], error_shown = False\<rparr>" "''a''"
     "\<lparr>is_checkbox = False, input_value = [], checked = False\<rparr>"] by simp

end
