(* ===== verification/Undo.thy ===== *)
theory Undo
  imports Session
begin

text \<open>
  The undo bars of app.js: \<open>undoableDelete\<close>, \<open>renderUndoToast\<close> and \<open>undoableSystemPrune\<close>. A bar has a
  window in seconds, a countdown interval, a link that cancels the queued operation on the server, and an
  end timer. \<open>tr\<close> is the lookup \<open>t\<close> of I18n with its variables.
\<close>

section \<open>The contract\<close>

text \<open>
  Whatever the user and the server do, an undo is requested at most once per bar: the flag \<open>undone\<close> is set
  by the one request and never reset.
\<close>

locale undo_lane =
  fixes step :: "'s \<Rightarrow> 'e \<Rightarrow> 's"
    and undone :: "'s \<Rightarrow> bool"
    and sent :: "'s \<Rightarrow> nat"
  assumes step_undone: "undone s \<Longrightarrow> undone (step s e) \<and> sent (step s e) = sent s"
    and step_fresh: "\<not> undone s \<Longrightarrow> sent (step s e) = sent s + (if undone (step s e) then 1 else 0)"
begin

lemma run_undone: "undone s \<Longrightarrow> undone (run_events step s es) \<and> sent (run_events step s es) = sent s"
  by (induction es arbitrary: s) (simp_all add: step_undone)

lemma run_sent: "\<not> undone s \<Longrightarrow>
    sent (run_events step s es) = sent s + (if undone (run_events step s es) then 1 else 0)"
proof (induction es arbitrary: s)
  case (Cons e es)
  show ?case
  proof (cases "undone (step s e)")
    case True
    with Cons.prems show ?thesis using run_undone [OF True, of es] step_fresh [of s e] by simp
  next
    case False
    with Cons show ?thesis using step_fresh [of s e] by simp
  qed
qed simp

end

section \<open>The bar\<close>

record undo_bar =
  window_secs :: int
  started_at :: int
  was_undone :: bool
  bar_label :: string
  link_shown :: bool
  bar_attached :: bool
  bar_ticking :: bool
  end_pending :: bool
  undo_posts :: "string list"
  awaiting_undo :: bool
  refreshes :: nat
  bar_toasts :: "toast list"

datatype undo_event = ClickUndo | UndoOk | UndoFailed | TickAt int | EndAt int

type_synonym translator = "string \<Rightarrow> (string \<times> string) list option \<Rightarrow> string"

definition undo_url :: "string \<Rightarrow> string" where
  "undo_url token = ''/api/undo/'' @ encode_uri token"

definition remaining_secs :: "int \<Rightarrow> undo_bar \<Rightarrow> int" where
  "remaining_secs now b = max 0 (ceil_div (window_secs b * 1000 - (now - started_at b)) 1000)"

definition bar_say :: "string \<Rightarrow> toast_kind \<Rightarrow> undo_bar \<Rightarrow> undo_bar" where
  "bar_say m k b = b\<lparr>bar_toasts := bar_toasts b @ [(m, k)]\<rparr>"

definition bar_refresh :: "bool \<Rightarrow> undo_bar \<Rightarrow> undo_bar" where
  "bar_refresh hr b = (if hr then b\<lparr>refreshes := Suc (refreshes b)\<rparr> else b)"

text \<open>When the end timer is due: the window and the fixed buffer of 1500 ms.\<close>

definition end_time :: "undo_bar \<Rightarrow> int" where
  "end_time b = started_at b + window_secs b * 1000 + 1500"

definition new_bar :: "int \<Rightarrow> int \<Rightarrow> string \<Rightarrow> undo_bar" where
  "new_bar now secs lbl = \<lparr>window_secs = secs, started_at = now, was_undone = False, bar_label = lbl,
     link_shown = True, bar_attached = True, bar_ticking = True, end_pending = True, undo_posts = [],
     awaiting_undo = False, refreshes = 0, bar_toasts = []\<rparr>"

section \<open>\<open>undoableDelete\<close>\<close>

definition pending_label :: "translator \<Rightarrow> string \<Rightarrow> int \<Rightarrow> string" where
  "pending_label tr kind secs = tr ''undo.pending_label'' (Some [(''kind'', kind), (''seconds'', show_int secs)])"

definition delete_url :: "string \<Rightarrow> string" where
  "delete_url url = url @ (if CHR ''?'' \<in> set url then ''&'' else ''?'') @ ''undo=1''"

definition json_int :: "json option \<Rightarrow> int" where
  "json_int v = (case v of Some (JNum n) \<Rightarrow> n | _ \<Rightarrow> 0)"

definition delete_window :: "json \<Rightarrow> int" where
  "delete_window resp = max 1 (let e = json_int (json_get resp ''expires_in'') in if e = 0 then 5 else e)"

text \<open>What the answer to the DELETE does: the bar, if any, the toast, and the immediate refresh.\<close>

definition undoable_delete :: "translator \<Rightarrow> int \<Rightarrow> json \<Rightarrow> string \<Rightarrow> bool \<Rightarrow> undo_bar option \<times> toast \<times> nat"
where
  "undoable_delete tr now resp kind hr =
     (if truthy (json_get resp ''undo_token'') then
        let secs = delete_window resp in
        (Some (new_bar now secs (pending_label tr kind secs)),
         (kind @ '' delete queued '' @ em_dash @ '' undo available for '' @ show_int secs @ ''s'', Info),
         (if hr then 1 else 0))
      else (None, (kind @ tr ''undo.deleted_suffix'' None, Info), (if hr then 1 else 0)))"

definition delete_tick :: "translator \<Rightarrow> string \<Rightarrow> int \<Rightarrow> undo_bar \<Rightarrow> undo_bar" where
  "delete_tick tr kind now b = (if was_undone b then b\<lparr>bar_ticking := False\<rparr> else
     let r = remaining_secs now b in
     if r \<le> 0 then b\<lparr>bar_label := tr ''undo.pending_finalizing'' (Some [(''kind'', kind)]), link_shown := False,
       bar_ticking := False\<rparr>
     else b\<lparr>bar_label := pending_label tr kind r\<rparr>)"

definition click_undo :: "string \<Rightarrow> undo_bar \<Rightarrow> undo_bar" where
  "click_undo token b = (if was_undone b then b
     else b\<lparr>was_undone := True, undo_posts := undo_posts b @ [undo_url token], awaiting_undo := True\<rparr>)"

definition end_bar :: "bool \<Rightarrow> undo_bar \<Rightarrow> undo_bar" where
  "end_bar hr b = (let b1 = b\<lparr>bar_attached := False, bar_ticking := False, end_pending := False\<rparr> in
     if \<not> was_undone b1 then bar_refresh hr b1 else b1)"

text \<open>\<open>hr\<close>: a refresh function was given. The link can be clicked while it is shown.\<close>

fun delete_step :: "translator \<Rightarrow> string \<Rightarrow> string \<Rightarrow> bool \<Rightarrow> undo_bar \<Rightarrow> undo_event \<Rightarrow> undo_bar" where
  "delete_step tr kind token hr b ClickUndo = (if bar_attached b \<and> link_shown b then click_undo token b else b)"
| "delete_step tr kind token hr b UndoOk = (if \<not> awaiting_undo b then b
     else bar_refresh hr (bar_say (tr ''undo.toast'' None) Success (b\<lparr>awaiting_undo := False, bar_attached := False\<rparr>)))"
| "delete_step tr kind token hr b UndoFailed = (if \<not> awaiting_undo b then b
     else bar_say (tr ''undo.window_passed'' None) Error (b\<lparr>awaiting_undo := False\<rparr>))"
| "delete_step tr kind token hr b (TickAt now) = (if bar_ticking b then delete_tick tr kind now b else b)"
| "delete_step tr kind token hr b (EndAt now) =
     (if end_pending b \<and> end_time b \<le> now then end_bar hr b else b)"

section \<open>\<open>renderUndoToast\<close>\<close>

definition queue_label :: "string \<Rightarrow> int \<Rightarrow> string" where
  "queue_label lbl secs = lbl @ '' in '' @ show_int secs @ ''s '' @ em_dash @ '' click Undo to cancel''"

text \<open>\<open>None\<close>: no bar, the listing is refreshed at once. \<open>secs\<close> is 0 for a missing window.\<close>

definition render_undo_toast :: "int \<Rightarrow> string \<Rightarrow> int \<Rightarrow> (undo_bar \<times> toast) option" where
  "render_undo_toast now lbl secs0 = (if secs0 \<le> 0 then None else
     let secs = max 1 secs0 in
     Some (new_bar now secs (queue_label lbl secs),
       (lbl @ '' queued '' @ em_dash @ '' undo available for '' @ show_int secs @ ''s'', Info)))"

definition queue_tick :: "string \<Rightarrow> int \<Rightarrow> undo_bar \<Rightarrow> undo_bar" where
  "queue_tick lbl now b = (if was_undone b then b\<lparr>bar_ticking := False\<rparr> else
     let r = remaining_secs now b in
     if r \<le> 0 then b\<lparr>bar_label := lbl @ '' firing'' @ ellipsis, link_shown := False, bar_ticking := False\<rparr>
     else b\<lparr>bar_label := queue_label lbl r\<rparr>)"

fun queue_step :: "translator \<Rightarrow> string \<Rightarrow> string \<Rightarrow> bool \<Rightarrow> undo_bar \<Rightarrow> undo_event \<Rightarrow> undo_bar" where
  "queue_step tr lbl token hr b ClickUndo = (if bar_attached b \<and> link_shown b then click_undo token b else b)"
| "queue_step tr lbl token hr b UndoOk = (if \<not> awaiting_undo b then b
     else bar_say (tr ''undo.toast'' None) Success (b\<lparr>awaiting_undo := False, bar_attached := False\<rparr>))"
| "queue_step tr lbl token hr b UndoFailed = (if \<not> awaiting_undo b then b
     else bar_say (tr ''undo.window_passed'' None) Error (b\<lparr>awaiting_undo := False\<rparr>))"
| "queue_step tr lbl token hr b (TickAt now) = (if bar_ticking b then queue_tick lbl now b else b)"
| "queue_step tr lbl token hr b (EndAt now) =
     (if end_pending b \<and> end_time b \<le> now then end_bar hr b else b)"

section \<open>\<open>undoableSystemPrune\<close>\<close>

definition prune_part :: "json \<Rightarrow> string \<Rightarrow> string \<Rightarrow> string list" where
  "prune_part resp key unit = (if truthy (json_get resp key)
     then [js_string (the (json_get resp key)) @ '' '' @ unit] else [])"

definition prune_summary :: "json \<Rightarrow> toast" where
  "prune_summary resp =
     (let parts = prune_part resp ''containers_deleted'' ''container(s)'' @
            prune_part resp ''images_deleted'' ''image(s)'' @ prune_part resp ''networks_deleted'' ''network(s)'';
          m = (if parts \<noteq> [] then ''Pruned '' @ join '', '' parts else ''Nothing to prune'');
          mb = json_int (json_get resp ''space_reclaimed_mb'');
          m' = (if mb > 0 then m @ ''. Reclaimed '' @ show_int mb @ '' MB'' else m)
      in (m', if parts \<noteq> [] then Success else Info))"

definition undoable_system_prune :: "int \<Rightarrow> json \<Rightarrow> (undo_bar \<times> toast) option + toast" where
  "undoable_system_prune now resp =
     (if truthy (json_get resp ''undo_token'')
      then Inl (render_undo_toast now ''System prune'' (json_int (json_get resp ''expires_in'')))
      else Inr (prune_summary resp))"

section \<open>Lemmas\<close>

lemma bar_helpers [simp]:
  "was_undone (bar_say m k b) = was_undone b" "undo_posts (bar_say m k b) = undo_posts b"
  "was_undone (bar_refresh h b) = was_undone b" "undo_posts (bar_refresh h b) = undo_posts b"
  "refreshes (bar_say m k b) = refreshes b" "bar_attached (bar_say m k b) = bar_attached b"
  "refreshes (bar_refresh h b) = refreshes b + (if h then 1 else 0)" "bar_attached (bar_refresh h b) = bar_attached b"
  by (simp_all add: bar_say_def bar_refresh_def)

lemma end_bar_simps [simp]: "was_undone (end_bar h b) = was_undone b" "undo_posts (end_bar h b) = undo_posts b"
  by (simp_all add: end_bar_def Let_def)

interpretation delete_lane: undo_lane "delete_step tr kind token hr" was_undone "\<lambda>b. length (undo_posts b)"
  for tr kind token hr
proof (unfold_locales, goal_cases)
  case (1 b e)
  then show ?case by (cases e) (auto simp: click_undo_def delete_tick_def Let_def)
next
  case (2 b e)
  then show ?case by (cases e) (auto simp: click_undo_def delete_tick_def Let_def)
qed

interpretation queue_lane: undo_lane "queue_step tr lbl token hr" was_undone "\<lambda>b. length (undo_posts b)"
  for tr lbl token hr
proof (unfold_locales, goal_cases)
  case (1 b e)
  then show ?case by (cases e) (auto simp: click_undo_def queue_tick_def Let_def)
next
  case (2 b e)
  then show ?case by (cases e) (auto simp: click_undo_def queue_tick_def Let_def)
qed

text \<open>Without an undo, only the end timer refreshes, once.\<close>

definition quiet :: "undo_bar \<Rightarrow> bool" where
  "quiet b \<longleftrightarrow> (\<not> was_undone b \<longrightarrow> \<not> awaiting_undo b \<and> refreshes b = (if end_pending b then 0 else 1) \<and>
     bar_attached b = end_pending b)"

lemma quiet_new: "quiet (new_bar now secs lbl)"
  by (simp add: quiet_def new_bar_def)

lemma quiet_delete_step: "quiet b \<Longrightarrow> quiet (delete_step tr kind token True b e)"
  by (cases e) (auto simp: quiet_def click_undo_def delete_tick_def end_bar_def bar_refresh_def bar_say_def Let_def)

lemma quiet_queue_step: "quiet b \<Longrightarrow> quiet (queue_step tr lbl token True b e)"
  by (cases e) (auto simp: quiet_def click_undo_def queue_tick_def end_bar_def bar_refresh_def bar_say_def Let_def)

text \<open>Every request of a bar goes to the address of its token.\<close>

lemma own_posts_delete: "set (undo_posts b) \<subseteq> {undo_url token} \<Longrightarrow>
    set (undo_posts (run_events (delete_step tr kind token hr) b es)) \<subseteq> {undo_url token}"
proof (induction es arbitrary: b)
  case (Cons e es)
  then have "set (undo_posts (delete_step tr kind token hr b e)) \<subseteq> {undo_url token}"
    by (cases e) (auto simp: click_undo_def delete_tick_def Let_def)
  with Cons show ?case by simp
qed simp

lemma own_posts_queue: "set (undo_posts b) \<subseteq> {undo_url token} \<Longrightarrow>
    set (undo_posts (run_events (queue_step tr lbl token hr) b es)) \<subseteq> {undo_url token}"
proof (induction es arbitrary: b)
  case (Cons e es)
  then have "set (undo_posts (queue_step tr lbl token hr b e)) \<subseteq> {undo_url token}"
    by (cases e) (auto simp: click_undo_def queue_tick_def Let_def)
  with Cons show ?case by simp
qed simp

lemma one_post: "set xs \<subseteq> {u} \<Longrightarrow> length xs = (if c then 1 else 0) \<Longrightarrow> xs = (if c then [u] else [])"
  by (cases xs) (auto split: if_splits)

lemma ceil_div_pos: "0 < (b :: int) \<Longrightarrow> (ceil_div a b \<le> 0) = (a \<le> 0)"
  unfolding ceil_div_def by (simp add: pos_imp_zdiv_nonneg_iff)

lemma tick_times [simp]: "window_secs (delete_tick tr kind now b) = window_secs b"
  "started_at (delete_tick tr kind now b) = started_at b"
  by (simp_all add: delete_tick_def Let_def)

section \<open>Properties\<close>

text \<open>
  C6: a queued operation is undone at most once, whatever is clicked: a bar of either kind sends at most one
  undo request, to its own token's address, and if it sent none the listing is refreshed exactly once, when
  the bar ends.
\<close>

theorem undo_requested_once:
  "let b = run_events (delete_step tr kind token True) (new_bar now secs lbl) es;
       q = run_events (queue_step tr kind token True) (new_bar now secs lbl) es in
     undo_posts b = (if was_undone b then [undo_url token] else []) \<and>
     undo_posts q = (if was_undone q then [undo_url token] else []) \<and>
     (\<not> was_undone b \<longrightarrow> refreshes b = (if end_pending b then 0 else 1) \<and> bar_attached b = end_pending b) \<and>
     (\<not> was_undone q \<longrightarrow> refreshes q = (if end_pending q then 0 else 1) \<and> bar_attached q = end_pending q)"
proof -
  let ?b = "run_events (delete_step tr kind token True) (new_bar now secs lbl) es"
  let ?q = "run_events (queue_step tr kind token True) (new_bar now secs lbl) es"
  have "quiet ?b" using quiet_new quiet_delete_step by (rule run_events_invariant)
  moreover have "quiet ?q" using quiet_new quiet_queue_step by (rule run_events_invariant)
  moreover have new: "\<not> was_undone (new_bar now secs lbl)" "undo_posts (new_bar now secs lbl) = []"
    by (simp_all add: new_bar_def)
  have "undo_posts ?b = (if was_undone ?b then [undo_url token] else [])"
    using own_posts_delete [of "new_bar now secs lbl" token tr kind True es]
      delete_lane.run_sent [of "new_bar now secs lbl" tr kind token True es] new by (intro one_post) simp_all
  moreover have "undo_posts ?q = (if was_undone ?q then [undo_url token] else [])"
    using own_posts_queue [of "new_bar now secs lbl" token tr kind True es]
      queue_lane.run_sent [of "new_bar now secs lbl" tr kind token True es] new by (intro one_post) simp_all
  ultimately show ?thesis by (simp add: Let_def quiet_def)
qed

theorem undo_requested_once_witness:
  "let b = run_events (delete_step (\<lambda>k v. k) ''Volume'' ''t1'' True) (new_bar 0 5 []) [ClickUndo, ClickUndo, UndoFailed] in
   length (undo_posts b) = 1"
proof -
  have "was_undone (run_events (delete_step (\<lambda>k v. k) ''Volume'' ''t1'' True) (new_bar 0 5 [])
      [ClickUndo, ClickUndo, UndoFailed])" by (simp add: new_bar_def click_undo_def bar_say_def)
  then show ?thesis using undo_requested_once [of "\<lambda>k v. k" "''Volume''" "''t1''" 0 5 "[]" "[ClickUndo, ClickUndo, UndoFailed]"]
    by (simp add: Let_def)
qed

text \<open>
  An undo that fails is not recovered from: the operation will run on the server, but the bar's countdown
  stops, its end refreshes nothing, and no further click does anything.
\<close>

theorem failed_undo_never_refreshes:
  assumes "was_undone b" and "\<not> awaiting_undo b"
  shows "refreshes (run_events (queue_step tr lbl token True) b es) = refreshes b \<and>
    undo_posts (run_events (queue_step tr lbl token True) b es) = undo_posts b \<and>
    refreshes (run_events (delete_step tr lbl token True) b es) = refreshes b"
proof -
  have q: "was_undone b \<Longrightarrow> \<not> awaiting_undo b \<Longrightarrow> refreshes (run_events (queue_step tr lbl token True) b es) = refreshes b" for b
  proof (induction es arbitrary: b)
    case (Cons e es)
    then have "was_undone (queue_step tr lbl token True b e)" "\<not> awaiting_undo (queue_step tr lbl token True b e)"
      "refreshes (queue_step tr lbl token True b e) = refreshes b"
      by (cases e; auto simp: click_undo_def queue_tick_def end_bar_def Let_def)+
    with Cons show ?case by simp
  qed simp
  have d: "was_undone b \<Longrightarrow> \<not> awaiting_undo b \<Longrightarrow> refreshes (run_events (delete_step tr lbl token True) b es) = refreshes b" for b
  proof (induction es arbitrary: b)
    case (Cons e es)
    then have "was_undone (delete_step tr lbl token True b e)" "\<not> awaiting_undo (delete_step tr lbl token True b e)"
      "refreshes (delete_step tr lbl token True b e) = refreshes b"
      by (cases e; auto simp: click_undo_def delete_tick_def end_bar_def Let_def)+
    with Cons show ?case by simp
  qed simp
  have "undo_posts (run_events (queue_step tr lbl token True) b es) = undo_posts b" using assms(1)
  proof (induction es arbitrary: b)
    case (Cons e es)
    then have "was_undone (queue_step tr lbl token True b e)" "undo_posts (queue_step tr lbl token True b e) = undo_posts b"
      by (cases e; auto simp: click_undo_def queue_tick_def Let_def)+
    with Cons show ?case by simp
  qed simp
  with q d assms show ?thesis by simp
qed

theorem failed_undo_never_refreshes_witness:
  "refreshes (run_events (queue_step (\<lambda>k v. k) ''Prune'' ''t'' True)
     (run_events (queue_step (\<lambda>k v. k) ''Prune'' ''t'' True) (new_bar 0 5 []) [ClickUndo, UndoFailed])
     [TickAt 500, EndAt 6500]) = 0"
proof -
  let ?b = "run_events (queue_step (\<lambda>k v. k) ''Prune'' ''t'' True) (new_bar 0 5 []) [ClickUndo, UndoFailed]"
  have "was_undone ?b" "\<not> awaiting_undo ?b" "refreshes ?b = 0"
    by (simp_all add: new_bar_def click_undo_def bar_say_def)
  with failed_undo_never_refreshes [of ?b "\<lambda>k v. k" "''Prune''" "''t''" "[TickAt 500, EndAt 6500]"]
  show ?thesis by metis
qed

text \<open>
  The countdown never lies: while the window lasts a tick shows a number of seconds between 1 and the
  window, the link stays, and the first tick after the window hides it.
\<close>

theorem countdown_bounds:
  assumes "\<not> was_undone b" and "started_at b \<le> now" and "1 \<le> window_secs b"
  shows "let r = remaining_secs now b; b' = delete_tick tr kind now b in
    (now - started_at b < window_secs b * 1000 \<longrightarrow> 1 \<le> r \<and> r \<le> window_secs b \<and> link_shown b' = link_shown b \<and>
       bar_label b' = pending_label tr kind r) \<and>
    (window_secs b * 1000 \<le> now - started_at b \<longrightarrow> r = 0 \<and> \<not> link_shown b' \<and> \<not> bar_ticking b')"
proof -
  have "ceil_div (window_secs b * 1000 - (now - started_at b)) 1000 \<le> window_secs b"
    using assms(2) by (simp add: ceil_div_def)
  moreover have "(remaining_secs now b \<le> 0) = (window_secs b * 1000 \<le> now - started_at b)"
    using ceil_div_pos [of 1000 "window_secs b * 1000 - (now - started_at b)"] by (simp add: remaining_secs_def)
  ultimately show ?thesis using assms
    by (auto simp: Let_def delete_tick_def) (auto simp: remaining_secs_def)
qed

theorem countdown_bounds_witness: "remaining_secs 1200 (new_bar 0 5 []) = 4"
proof -
  have "remaining_secs 1200 (new_bar 0 5 []) \<le> 5"
    using countdown_bounds [of "new_bar 0 5 []" 1200] by (simp add: Let_def new_bar_def)
  then show ?thesis by (simp add: remaining_secs_def new_bar_def ceil_div_def)
qed

end
