(* ===== verification/Containers.thy ===== *)
theory Containers
  imports Undo "HOL-Library.Multiset" "HOL-Library.List_Lexorder" "HOL-Library.Char_ord"
begin

text \<open>
  The container list of app.js: loading and polling, the search, the sort, the selection and its bulk
  actions, the cells and buttons of a row, and the panels shown while the engine is unreachable.
\<close>

section \<open>Data and cells\<close>

text \<open>
  \<open>ports\<close> maps a container port to its bindings (\<open>None\<close>: null), each given by its host port; \<open>created\<close>
  is \<open>None\<close> when the field is missing, \<open>Some None\<close> when it is not a date.
\<close>

record container =
  cid :: string
  cname :: string
  cimage :: string
  state :: string
  cstatus :: string
  health :: string
  ports :: "(string \<times> string list option) list"
  created :: "int option option"

text \<open>\<open>Inl\<close>: reading \<open>HostPort\<close> of an empty binding list throws. \<open>Inr None\<close>: no ports at all.\<close>

definition format_port :: "string \<times> string list option \<Rightarrow> string + string" where
  "format_port p = (case snd p of None \<Rightarrow> Inr (fst p)
     | Some [] \<Rightarrow> Inl ''Cannot read properties of undefined (reading 'HostPort')''
     | Some (h # _) \<Rightarrow> Inr (h @ '':'' @ fst p))"

definition format_ports :: "(string \<times> string list option) list \<Rightarrow> string + string list option" where
  "format_ports ps = (if ps = [] then Inr None else res_bind (res_map format_port ps) (\<lambda>xs. Inr (Some xs)))"

definition rel_time :: "int \<Rightarrow> int option option \<Rightarrow> string" where
  "rel_time now c = (case c of None \<Rightarrow> [] | Some None \<Rightarrow> ''NaNd ago''
     | Some (Some d) \<Rightarrow> let s = (now - d) div 1000 in
        if s < 60 then show_int s @ ''s ago''
        else if s < 3600 then show_int (s div 60) @ ''m ago''
        else if s < 86400 then show_int (s div 3600) @ ''h ago''
        else show_int (s div 86400) @ ''d ago'')"

text \<open>One entry of the ports cell: a link to the host port, or plain text.\<close>

definition port_node :: "string \<Rightarrow> string \<Rightarrow> 'h node" where
  "port_node host ps = (let parts = split_on CHR '':'' ps in
     if length parts = 2 \<and> hd parts \<noteq> ''0''
     then Elem ((new_elem ''a'')\<lparr>class_name := ''port-link'', attributes := [(''href'', ''http://'' @ host @ '':'' @ hd parts),
       (''target'', ''_blank''), (''rel'', ''noopener'')]\<rparr>) (text_nodes ps)
     else Elem ((new_elem ''span'')\<lparr>css := Some ''font-size:12px;color:var(--muted)''\<rparr>) (text_nodes ps))"

fun intersperse_nodes :: "'h node list \<Rightarrow> 'h node list" where
  "intersperse_nodes [] = []"
| "intersperse_nodes [n] = [n]"
| "intersperse_nodes (n # m # ns) = n # Text '', '' # intersperse_nodes (m # ns)"

definition ports_cell :: "string \<Rightarrow> (string \<times> string list option) list \<Rightarrow> string + 'h node list" where
  "ports_cell host ps = res_bind (format_ports ps) (\<lambda>r. Inr (case r of None \<Rightarrow> [Text em_dash]
     | Some xs \<Rightarrow> intersperse_nodes (map (port_node host) xs)))"

section \<open>Search and sort\<close>

definition matches_search :: "string \<Rightarrow> container \<Rightarrow> bool" where
  "matches_search search c = (let q = to_lower search in
     has_sub (to_lower (cname c)) q \<or> has_sub (to_lower (cimage c)) q \<or> has_sub (cid c) q)"

definition filter_containers :: "string \<Rightarrow> container list \<Rightarrow> container list" where
  "filter_containers search cs = (if search = [] then cs else filter (matches_search search) cs)"

datatype sort_key_name = ByName | ByImage | ByState | ByCreated

definition text_key :: "sort_key_name \<Rightarrow> container \<Rightarrow> string" where
  "text_key k c = to_lower (case k of ByName \<Rightarrow> cname c | ByImage \<Rightarrow> cimage c | ByState \<Rightarrow> state c | ByCreated \<Rightarrow> [])"

text \<open>A comparison with NaN (a missing or malformed date) is false either way.\<close>

definition date_key :: "container \<Rightarrow> int option" where
  "date_key c = (case created c of Some d \<Rightarrow> d | None \<Rightarrow> None)"

definition nan_less :: "int option \<Rightarrow> int option \<Rightarrow> bool" where
  "nan_less a b = (case (a, b) of (Some x, Some y) \<Rightarrow> x < y | _ \<Rightarrow> False)"

definition key_less :: "sort_key_name \<Rightarrow> container \<Rightarrow> container \<Rightarrow> bool" where
  "key_less k a b = (if k = ByCreated then nan_less (date_key a) (date_key b) else text_key k a < text_key k b)"

definition compare :: "sort_key_name \<Rightarrow> int \<Rightarrow> container \<Rightarrow> container \<Rightarrow> int" where
  "compare k dir a b = (if key_less k a b then - 1 * dir else if key_less k b a then 1 * dir else 0)"

text \<open>\<open>Array.prototype.sort\<close> with a comparison function: stable.\<close>

fun insert_cmp :: "('a \<Rightarrow> 'a \<Rightarrow> int) \<Rightarrow> 'a \<Rightarrow> 'a list \<Rightarrow> 'a list" where
  "insert_cmp cmp x [] = [x]"
| "insert_cmp cmp x (y # ys) = (if cmp x y \<le> 0 then x # y # ys else y # insert_cmp cmp x ys)"

definition js_sort :: "('a \<Rightarrow> 'a \<Rightarrow> int) \<Rightarrow> 'a list \<Rightarrow> 'a list" where
  "js_sort cmp xs = foldr (insert_cmp cmp) xs []"

definition sort_containers :: "container list \<Rightarrow> sort_key_name \<Rightarrow> int \<Rightarrow> container list" where
  "sort_containers cs k dir = js_sort (compare k dir) cs"

text \<open>A click on a column's header.\<close>

definition click_header :: "sort_key_name \<Rightarrow> sort_key_name \<times> int \<Rightarrow> sort_key_name \<times> int" where
  "click_header k s = (if fst s = k then (k, snd s * - 1) else (k, 1))"

section \<open>The list and the selection\<close>

record list_view =
  last_list :: "container list"
  search :: string
  csort :: "sort_key_name \<times> int"
  selected :: "string list"
  visible :: "string list"
  bar_shown :: bool

text \<open>\<open>_renderBulkBar\<close>: the selection is cut down to the visible rows before the bar is drawn.\<close>

definition render_bulk_bar :: "string list \<Rightarrow> list_view \<Rightarrow> list_view" where
  "render_bulk_bar vis v = (let sel = filter (\<lambda>i. i \<in> set vis) (selected v) in
     v\<lparr>selected := sel, bar_shown := (sel \<noteq> [])\<rparr>)"

text \<open>\<open>renderContainers\<close>: nothing visible draws the empty state and returns before the bar.\<close>

definition render_containers :: "container list \<Rightarrow> list_view \<Rightarrow> list_view" where
  "render_containers cs v = (let filtered = filter_containers (search v) cs in
     if filtered = [] then v\<lparr>visible := [], bar_shown := False\<rparr>
     else let rows = sort_containers filtered (fst (csort v)) (snd (csort v)) in
       render_bulk_bar (map cid rows) (v\<lparr>visible := map cid rows, bar_shown := False\<rparr>))"

definition set_add :: "string list \<Rightarrow> string \<Rightarrow> string list" where
  "set_add s i = (if i \<in> set s then s else s @ [i])"

definition toggle_row :: "string \<Rightarrow> bool \<Rightarrow> list_view \<Rightarrow> list_view" where
  "toggle_row i on v = render_bulk_bar (visible v)
     (v\<lparr>selected := (if on then set_add (selected v) i else removeAll i (selected v))\<rparr>)"

definition toggle_all :: "bool \<Rightarrow> list_view \<Rightarrow> list_view" where
  "toggle_all on v = render_containers (last_list v)
     (v\<lparr>selected := (if on then fold (\<lambda>i s. set_add s i) (visible v) (selected v)
        else filter (\<lambda>i. i \<notin> set (visible v)) (selected v))\<rparr>)"

definition header_checked :: "list_view \<Rightarrow> bool" where
  "header_checked v = (visible v \<noteq> [] \<and> list_all (\<lambda>i. i \<in> set (selected v)) (visible v))"

definition load_list :: "container list \<Rightarrow> list_view \<Rightarrow> list_view" where
  "load_list cs v = render_containers cs (v\<lparr>last_list := cs\<rparr>)"

definition type_search :: "string \<Rightarrow> list_view \<Rightarrow> list_view" where
  "type_search q v = render_containers (last_list v) (v\<lparr>search := q\<rparr>)"

definition clear_selection :: "list_view \<Rightarrow> list_view" where
  "clear_selection v = render_containers (last_list v) (v\<lparr>selected := []\<rparr>)"

definition sort_click :: "sort_key_name \<Rightarrow> list_view \<Rightarrow> list_view" where
  "sort_click k v = render_containers (last_list v) (v\<lparr>csort := click_header k (csort v)\<rparr>)"

datatype list_event = Loaded "container list" | SearchFor string | SortBy sort_key_name | TickRow string bool
  | TickAll bool | ClearAll

fun list_step :: "list_view \<Rightarrow> list_event \<Rightarrow> list_view" where
  "list_step v (Loaded cs) = load_list cs v"
| "list_step v (SearchFor q) = type_search q v"
| "list_step v (SortBy k) = sort_click k v"
| "list_step v (TickRow i on) = (if i \<in> set (visible v) then toggle_row i on v else v)"
| "list_step v (TickAll on) = (if visible v = [] then v else toggle_all on v)"
| "list_step v ClearAll = (if bar_shown v then clear_selection v else v)"

definition list_init :: list_view where
  "list_init = \<lparr>last_list = [], search = [], csort = (ByName, 1), selected = [], visible = [], bar_shown = False\<rparr>"

text \<open>The requests of a bulk action and the toast that sums up their outcomes.\<close>

definition bulk_urls :: "string \<Rightarrow> list_view \<Rightarrow> string list" where
  "bulk_urls path v = map (\<lambda>i. ''/api/containers/'' @ i @ ''/'' @ path) (selected v)"

definition bulk_delete_urls :: "list_view \<Rightarrow> string list" where
  "bulk_delete_urls v = map (\<lambda>i. ''/api/containers/'' @ i @ ''?force=true'') (selected v)"

definition bulk_toast :: "string \<Rightarrow> string \<Rightarrow> string \<Rightarrow> (string + unit) list \<Rightarrow> toast" where
  "bulk_toast lbl verb unit_name results =
     (let failed = filter isl results; n = length failed; ok = length results - n in
      if n = 0 then (verb @ '' '' @ show_nat ok @ '' container(s)'', Success)
      else if ok = 0 then (lbl @ '' failed for all '' @ show_nat n @ unit_name @ '': '' @ projl (hd failed), Error)
      else (verb @ '' '' @ show_nat ok @ '', '' @ show_nat n @ '' failed: '' @ projl (hd failed), Error))"

section \<open>Row actions\<close>

text \<open>
  A button: its label, class and pending label; what it asks; the guard key; the path it posts to; the
  toast on success. \<open>Detail\<close> opens a tab, \<open>StartCheck\<close> looks at the container 600 ms after starting it.
\<close>

datatype row_command = Detail string | PostGuarded string string "toast option" | StartCheck string | DeleteRow

record row_button =
  button_label :: string
  button_class :: string
  pending :: string
  confirm_text :: "string option"
  button_command :: row_command

definition simple_btn :: "string \<Rightarrow> string \<Rightarrow> row_button" where
  "simple_btn lbl tab = \<lparr>button_label = lbl, button_class = ''btn'', pending = [], confirm_text = None,
     button_command = Detail tab\<rparr>"

definition post_btn :: "string \<Rightarrow> string \<Rightarrow> string \<Rightarrow> string \<Rightarrow> toast option \<Rightarrow> container \<Rightarrow> row_button" where
  "post_btn lbl cls pend verb done c = \<lparr>button_label = lbl, button_class = cls, pending = pend @ ellipsis,
     confirm_text = None, button_command = PostGuarded (verb @ ''-c-'' @ cid c)
       (''/api/containers/'' @ cid c @ ''/'' @ verb) done\<rparr>"

definition needs_stop :: "container \<Rightarrow> bool" where
  "needs_stop c = (state c = ''running'' \<or> state c = ''paused'')"

definition delete_prompt :: "int \<Rightarrow> container \<Rightarrow> string" where
  "delete_prompt undo_secs c = (if needs_stop c
     then ''Container '' @ dquote @ cname c @ dquote @ '' is '' @ state c @ ''. Stop and delete? (Undo available for ~'' @
       show_int undo_secs @ ''s.)''
     else ''Delete container '' @ dquote @ cname c @ dquote @ ''?'')"

definition delete_btn :: "int \<Rightarrow> container \<Rightarrow> row_button" where
  "delete_btn undo_secs c = \<lparr>button_label = ''Delete'', button_class = ''btn danger'', pending = [],
     confirm_text = Some (delete_prompt undo_secs c), button_command = DeleteRow\<rparr>"

definition row_buttons :: "int \<Rightarrow> container \<Rightarrow> row_button list" where
  "row_buttons undo_secs c =
     (if state c = ''running'' then
        [post_btn ''Stop'' ''btn'' ''Stopping'' ''stop'' (Some (cname c @ '' stopped'', Info)) c,
         post_btn ''Restart'' ''btn'' ''Restarting'' ''restart'' None c,
         post_btn ''Pause'' ''btn'' ''Pausing'' ''pause'' (Some (cname c @ '' paused'', Info)) c,
         simple_btn ''Logs'' ''logs'', simple_btn ''Terminal'' ''terminal'', simple_btn ''Inspect'' ''inspect'',
         simple_btn ''Stats'' ''stats'',
         (post_btn ''Kill'' ''btn danger small'' ''Killing'' ''kill'' (Some (cname c @ '' killed'', Info)) c)
           \<lparr>confirm_text := Some (''Force kill '' @ dquote @ cname c @ dquote @ ''?'')\<rparr>]
      else if state c = ''paused'' then
        [post_btn ''Unpause'' ''btn primary'' ''Unpausing'' ''unpause'' None c,
         simple_btn ''Logs'' ''logs'', simple_btn ''Inspect'' ''inspect'']
      else
        [\<lparr>button_label = ''Start'', button_class = ''btn primary'', pending = ''Starting'' @ ellipsis, confirm_text = None,
           button_command = StartCheck (''start-c-'' @ cid c)\<rparr>,
         simple_btn ''Logs'' ''logs'', simple_btn ''Inspect'' ''inspect'']) @
     [delete_btn undo_secs c]"

text \<open>The toast after the inspection that follows a start.\<close>

definition start_toast :: "container \<Rightarrow> string \<Rightarrow> int option \<Rightarrow> toast" where
  "start_toast c st exit_code = (if st = ''exited'' \<or> st = ''dead''
     then (cname c @ '' exited immediately (code '' @ (case exit_code of None \<Rightarrow> ''?'' | Some n \<Rightarrow> show_int n) @ '')'', Error)
     else (cname c @ '' started'', Success))"

text \<open>
  The requests of a delete, in order. \<open>stop_ok\<close>: whether the stop succeeded (a failure is tolerated);
  the delete goes through \<open>undoableDelete\<close>.
\<close>

definition delete_requests :: "bool \<Rightarrow> container \<Rightarrow> (string \<times> string) list" where
  "delete_requests stop_ok c = (if needs_stop c then [(''POST'', ''/api/containers/'' @ cid c @ ''/stop'')] else []) @
     [(''DELETE'', delete_url (''/api/containers/'' @ cid c))]"

text \<open>The context menu: label and what it does, a page request or a verb with its toast.\<close>

datatype ctx_command = CtxDetail string | CtxPost string "toast option" | CtxCommit | CtxDelete

definition ctx_items :: "container \<Rightarrow> (string \<times> ctx_command) list" where
  "ctx_items c = [(''Inspect'', CtxDetail ''inspect''), (''Logs'', CtxDetail ''logs''),
       (''Terminal'', CtxDetail ''terminal''), (''Stats'', CtxDetail ''stats'')] @
     (if state c = ''running'' then
        [(''Stop'', CtxPost (''/api/containers/'' @ cid c @ ''/stop'') (Some (cname c @ '' stopped'', Info))),
         (''Restart'', CtxPost (''/api/containers/'' @ cid c @ ''/restart'') (Some (cname c @ '' restarted'', Success))),
         (''Pause'', CtxPost (''/api/containers/'' @ cid c @ ''/pause'') None)]
      else [(''Start'', CtxPost (''/api/containers/'' @ cid c @ ''/start'') (Some (cname c @ '' started'', Success)))]) @
     [(''Commit to image'' @ ellipsis, CtxCommit), (''Delete'', CtxDelete)]"

definition ctx_position :: "int \<Rightarrow> int \<Rightarrow> int \<Rightarrow> int \<Rightarrow> int \<times> int" where
  "ctx_position x y width height = (min x (width - 180), min y (height - 200))"

text \<open>The commit modal: the query of its request, with \<open>URLSearchParams\<close>' encoding as a parameter.\<close>

definition commit_params :: "string \<Rightarrow> string \<Rightarrow> string \<Rightarrow> string \<Rightarrow> (string \<times> string) list" where
  "commit_params repository tg msg author =
     [(''repository'', repository), (''tag'', or_str tg ''latest'')] @
     (if msg = [] then [] else [(''message'', msg)]) @ (if author = [] then [] else [(''author'', author)])"

section \<open>Loading\<close>

datatype view = Loading | ListView "container list" | DetailView | OtherPage string | Unreachable | LoginView

record loader =
  load_in_flight :: bool
  on_page :: string
  detail_open :: bool
  known :: "container list option"
  main_view :: view
  poll_armed :: bool
  engine_ok :: bool
  outstanding_loads :: nat

datatype load_event = CallLoad | LoadOk "container list" | LoadFailed string | GoTo string | OpenDetail

definition load_call :: "loader \<Rightarrow> loader" where
  "load_call l = (if load_in_flight l then l
     else l\<lparr>load_in_flight := True, outstanding_loads := Suc (outstanding_loads l),
       main_view := (if known l = None then Loading else main_view l)\<rparr>)"

definition load_ok :: "container list \<Rightarrow> loader \<Rightarrow> loader" where
  "load_ok cs l = (let l1 = l\<lparr>known := Some cs, load_in_flight := False, engine_ok := True,
       outstanding_loads := outstanding_loads l - 1\<rparr> in
     if on_page l1 \<noteq> ''containers'' then l1 else if detail_open l1 then l1
     else l1\<lparr>main_view := ListView cs, poll_armed := True\<rparr>)"

definition load_failed :: "string \<Rightarrow> loader \<Rightarrow> loader" where
  "load_failed msg l = (let l1 = l\<lparr>load_in_flight := False, outstanding_loads := outstanding_loads l - 1\<rparr> in
     if msg = ''Authentication required'' then l1\<lparr>poll_armed := False, main_view := LoginView\<rparr>
     else let l2 = l1\<lparr>engine_ok := False\<rparr>;
              l3 = (if known l2 = None then l2\<lparr>main_view := Unreachable\<rparr> else l2)
          in l3\<lparr>poll_armed := True\<rparr>)"

text \<open>\<open>showPage\<close> and \<open>showDetail\<close>, as far as the loader sees them.\<close>

definition go_to :: "string \<Rightarrow> loader \<Rightarrow> loader" where
  "go_to p l = (let l1 = l\<lparr>on_page := p, detail_open := False, load_in_flight := False, known := None,
       poll_armed := False, main_view := OtherPage p\<rparr> in
     if p = ''containers'' then load_call l1 else l1)"

definition open_detail :: "loader \<Rightarrow> loader" where
  "open_detail l = l\<lparr>poll_armed := False, load_in_flight := False, detail_open := True, main_view := DetailView\<rparr>"

fun load_step :: "loader \<Rightarrow> load_event \<Rightarrow> loader" where
  "load_step l CallLoad = load_call l"
| "load_step l (LoadOk cs) = (if outstanding_loads l = 0 then l else load_ok cs l)"
| "load_step l (LoadFailed msg) = (if outstanding_loads l = 0 then l else load_failed msg l)"
| "load_step l (GoTo p) = go_to p l"
| "load_step l OpenDetail = open_detail l"

section \<open>The unreachable panels\<close>

record runtime =
  rt_name :: string
  rt_descr :: string
  rt_cmd :: string
  rt_tag :: string

definition is_mac :: "string \<Rightarrow> bool" where
  "is_mac platform = (let p = to_lower platform in
     has_sub p ''mac'' \<or> has_sub p ''iphone'' \<or> has_sub p ''ipod'' \<or> has_sub p ''ipad'')"

definition runtimes :: "string \<Rightarrow> runtime list" where
  "runtimes platform = (let mac = (platform \<noteq> [] \<and> is_mac platform); show_mac = (mac \<or> platform = []);
       show_linux = (\<not> mac \<or> platform = []) in
     (if show_mac then
        [\<lparr>rt_name = ''Colima'', rt_descr = ''Free, user-space container runtime. If not installed: brew install colima docker docker-compose'',
           rt_cmd = ''colima start'', rt_tag = ''recommended''\<rparr>,
         \<lparr>rt_name = ''OrbStack'', rt_descr = ''Commercial app with a free tier. Just open the app and it starts a user-space runtime.'',
           rt_cmd = ''open -a OrbStack'', rt_tag = []\<rparr>,
         \<lparr>rt_name = ''Rancher Desktop'', rt_descr = ''Open the Rancher Desktop app from Applications and wait for the green checkmark.'',
           rt_cmd = ''open -a '' @ dquote @ ''Rancher Desktop'' @ dquote, rt_tag = []\<rparr>] else []) @
     (if show_linux then
        [\<lparr>rt_name = ''Podman (rootless)'', rt_descr = ''User-space container runtime. Socket usually at /run/user/$UID/podman/podman.sock.'',
           rt_cmd = ''systemctl --user start podman.socket'', rt_tag = ''recommended''\<rparr>,
         \<lparr>rt_name = ''Docker Engine'', rt_descr = ''System-wide Docker daemon. Requires admin privileges.'',
           rt_cmd = ''sudo systemctl start docker'', rt_tag = ''sudo''\<rparr>] else []) @
     [\<lparr>rt_name = ''Nothing installed yet?'',
        rt_descr = (if show_mac then ''Install Colima via Homebrew: non-root, no GUI, works on Apple Silicon and Intel.''
          else ''Install Podman or Docker via your distro package manager.''),
        rt_cmd = (if show_mac then ''brew install colima docker docker-compose'' else ''sudo apt install podman''),
        rt_tag = (if show_mac then [] else ''sudo'')\<rparr>])"

text \<open>The panel's text; for a tunnel-shaped socket it depends on the answer about the tunnel.\<close>

datatype tunnel_status = Managed | Unmanaged | StatusFailed

definition unreachable_hint :: "string \<Rightarrow> string" where
  "unreachable_hint h = ''Your container runtime isn't responding at '' @ or_str h ''the configured socket'' @
     ''. Start it and reload this page.''"

definition tunnel_hint :: "string \<Rightarrow> tunnel_status \<Rightarrow> string \<times> bool" where
  "tunnel_hint h st = (case st of
      Managed \<Rightarrow> (''The managed SSH tunnel to your Docker host dropped. Reconnect to restore the link '' @ em_dash @
        '' SKIFF will reuse the SSH target it stored during setup.'', True)
    | Unmanaged \<Rightarrow> (''SKIFF is configured to use a tunnel socket at '' @ h @
        ''. Open your SSH tunnel, then reload this page.'', False)
    | StatusFailed \<Rightarrow> (''Could not query tunnel status. Try reloading the page.'', False))"

record reconnect =
  rc_disabled :: bool
  rc_text :: string
  rc_status :: string
  rc_out :: nat
  rc_reloads :: nat

datatype reconnect_event = ClickReconnect | Reconnected | ReconnectFailed string "string option" | ReloadDue

definition reconnect_init :: reconnect where
  "reconnect_init = \<lparr>rc_disabled = False, rc_text = ''Reconnect tunnel'', rc_status = [], rc_out = 0, rc_reloads = 0\<rparr>"

fun reconnect_step :: "reconnect \<Rightarrow> reconnect_event \<Rightarrow> reconnect" where
  "reconnect_step r ClickReconnect = (if rc_disabled r then r
     else r\<lparr>rc_disabled := True, rc_text := ''Reconnecting'' @ ellipsis, rc_status := [], rc_out := Suc (rc_out r)\<rparr>)"
| "reconnect_step r Reconnected = (if rc_out r = 0 then r
     else r\<lparr>rc_status := [CHR 0xE2, CHR 0x9C, CHR 0x93] @ '' Tunnel re-opened'', rc_out := rc_out r - 1,
       rc_reloads := Suc (rc_reloads r)\<rparr>)"
| "reconnect_step r (ReconnectFailed msg help) = (if rc_out r = 0 then r
     else r\<lparr>rc_disabled := False, rc_text := ''Reconnect tunnel'', rc_out := rc_out r - 1,
       rc_status := [CHR 0xE2, CHR 0x9C, CHR 0x97] @ '' '' @ or_str msg ''Reconnect failed'' @
         (case help of None \<Rightarrow> [] | Some h \<Rightarrow> '' '' @ em_dash @ '' '' @ h)\<rparr>)"
| "reconnect_step r ReloadDue = r"

section \<open>Lemmas\<close>

lemma mset_insert_cmp [simp]: "mset (insert_cmp cmp x ys) = add_mset x (mset ys)"
  by (induction ys) auto

lemma mset_js_sort [simp]: "mset (js_sort cmp xs) = mset xs"
  by (induction xs) (simp_all add: js_sort_def)

lemma set_js_sort [simp]: "set (js_sort cmp xs) = set xs"
  by (metis mset_js_sort set_mset_mset)

lemma set_insert_cmp [simp]: "set (insert_cmp cmp x ys) = insert x (set ys)"
  by (induction ys) auto

lemma sorted_insert_cmp:
  assumes "\<And>a b. cmp a b \<le> 0 \<longleftrightarrow> R a b" and "\<And>a b. R a b \<or> R b a" and "transp R"
  shows "sorted_wrt R ys \<Longrightarrow> sorted_wrt R (insert_cmp cmp x ys)"
proof (induction ys)
  case (Cons y ys)
  show ?case
  proof (cases "R x y")
    case True
    with Cons.prems assms(1,3) show ?thesis by (auto elim: transpE)
  next
    case False
    with assms(2) [of x y] Cons assms(1) show ?thesis by auto
  qed
qed simp

lemma sorted_js_sort:
  assumes "\<And>a b. cmp a b \<le> 0 \<longleftrightarrow> R a b" and "\<And>a b. R a b \<or> R b a" and "transp R"
  shows "sorted_wrt R (js_sort cmp xs)"
  by (induction xs) (simp_all add: js_sort_def sorted_insert_cmp [OF assms])

lemma stable_insert_cmp: "(\<And>a b. f a = f b \<Longrightarrow> cmp a b \<le> 0) \<Longrightarrow>
    filter (\<lambda>c. f c = v) (insert_cmp cmp x ys) = filter (\<lambda>c. f c = v) (x # ys)"
  by (induction ys) auto

lemma stable_js_sort: "(\<And>a b. f a = f b \<Longrightarrow> cmp a b \<le> 0) \<Longrightarrow>
    filter (\<lambda>c. f c = v) (js_sort cmp xs) = filter (\<lambda>c. f c = v) xs"
  by (induction xs) (simp_all add: js_sort_def stable_insert_cmp)

lemma compare_up: "k \<noteq> ByCreated \<Longrightarrow> compare k 1 a b \<le> 0 \<longleftrightarrow> text_key k a \<le> text_key k b"
  by (auto simp: compare_def key_less_def)

lemma compare_down: "k \<noteq> ByCreated \<Longrightarrow> compare k (- 1) a b \<le> 0 \<longleftrightarrow> text_key k b \<le> text_key k a"
  by (auto simp: compare_def key_less_def)

definition bar_inv :: "list_view \<Rightarrow> bool" where
  "bar_inv v \<longleftrightarrow> set (visible v) \<subseteq> cid ` set (last_list v) \<and>
     (bar_shown v \<longrightarrow> selected v \<noteq> [] \<and> set (selected v) \<subseteq> set (visible v))"

lemma render_bulk_bar_inv: "set vis \<subseteq> cid ` set (last_list v) \<Longrightarrow> visible v = vis \<Longrightarrow> bar_inv (render_bulk_bar vis v)"
  by (auto simp: bar_inv_def render_bulk_bar_def Let_def)

lemma set_filter_containers: "set (filter_containers q cs) \<subseteq> set cs"
  by (auto simp: filter_containers_def)

lemma render_containers_inv: "last_list v = cs \<Longrightarrow> bar_inv (render_containers cs v)"
proof (cases "filter_containers (search v) cs = []")
  case True
  then show ?thesis by (simp add: render_containers_def bar_inv_def)
next
  case False
  assume "last_list v = cs"
  then have "set (map cid (sort_containers (filter_containers (search v) cs) (fst (csort v)) (snd (csort v))))
      \<subseteq> cid ` set (last_list v)"
    using set_filter_containers [of "search v" cs] by (auto simp: sort_containers_def)
  then show ?thesis using False
    by (simp add: render_containers_def Let_def render_bulk_bar_inv)
qed

lemma list_step_inv: "bar_inv v \<Longrightarrow> bar_inv (list_step v e)"
proof (cases e)
  case (TickRow i on)
  assume "bar_inv v"
  with TickRow show ?thesis by (auto simp: toggle_row_def bar_inv_def render_bulk_bar_def Let_def)
qed (auto simp: load_list_def type_search_def sort_click_def toggle_all_def clear_selection_def
    intro!: render_containers_inv)

lemma list_run_inv: "bar_inv (run_events list_step list_init es)"
proof (rule run_events_invariant [where P = bar_inv])
  show "bar_inv list_init" by (simp add: bar_inv_def list_init_def)
qed (rule list_step_inv)

section \<open>Properties\<close>

text \<open>
  C14: sorting by name, image or state, up or down, loses and invents no container, orders the rows by
  the lower-cased column, and keeps the order of rows that are equal in it.
\<close>

theorem sort_containers_correct:
  assumes "k \<noteq> ByCreated" and "dir = 1 \<or> dir = - 1"
  shows "mset (sort_containers cs k dir) = mset cs \<and>
    sorted_wrt (\<lambda>a b. if dir = 1 then text_key k a \<le> text_key k b else text_key k b \<le> text_key k a)
      (sort_containers cs k dir) \<and>
    filter (\<lambda>c. text_key k c = v) (sort_containers cs k dir) = filter (\<lambda>c. text_key k c = v) cs"
proof -
  let ?R = "\<lambda>a b. if dir = 1 then text_key k a \<le> text_key k b else text_key k b \<le> text_key k a"
  have "compare k dir a b \<le> 0 \<longleftrightarrow> ?R a b" for a b
    using assms compare_up compare_down by (cases "dir = 1") auto
  moreover have "?R a b \<or> ?R b a" for a b by auto
  moreover have "transp ?R" by (rule transpI) (auto split: if_splits)
  ultimately have "sorted_wrt ?R (sort_containers cs k dir)"
    unfolding sort_containers_def by (rule sorted_js_sort)
  moreover have "filter (\<lambda>c. text_key k c = v) (sort_containers cs k dir) = filter (\<lambda>c. text_key k c = v) cs"
    unfolding sort_containers_def
    by (rule stable_js_sort) (use assms(1) in \<open>auto simp: compare_def key_less_def\<close>)
  ultimately show ?thesis by (simp add: sort_containers_def)
qed


abbreviation sample_container :: container where
  "sample_container \<equiv> \<lparr>cid = ''ab'', cname = ''web'', cimage = ''nginx'', state = ''running'', cstatus = ''Up'',
     health = ''none'', ports = [], created = None\<rparr>"

theorem sort_containers_correct_witness:
  "let cs = [sample_container, sample_container\<lparr>cid := ''cd'', cname := ''db''\<rparr>] in
   mset (sort_containers cs ByName (- 1)) = mset cs"
  using sort_containers_correct [of ByName "- 1" "[sample_container, sample_container\<lparr>cid := ''cd'', cname := ''db''\<rparr>]"]
  by (simp add: Let_def)

lemma bulk_target_shown: "bar_inv v \<Longrightarrow> bar_shown v \<Longrightarrow> i \<in> set (selected v) \<Longrightarrow>
    \<exists>c \<in> set (last_list v). i = cid c \<and> cid c \<in> set (visible v)"
  by (auto simp: bar_inv_def subset_iff image_iff)

text \<open>
  C5: through any sequence of reloads, searches, sorts and ticks, a bulk action acts only on rows the user
  sees: while its bar is shown the selection is not empty, every ticked row gets exactly one request of
  either kind, and every request, a lifecycle call or a forced delete, goes to the address of a visible
  container of the last list.
\<close>

theorem bulk_targets_visible:
  assumes "bar_shown (run_events list_step list_init es)"
  shows "let v = run_events list_step list_init es in
    selected v \<noteq> [] \<and> length (bulk_urls path v) = length (selected v) \<and>
    length (bulk_delete_urls v) = length (selected v) \<and>
    (\<forall>n < length (selected v). \<exists>c \<in> set (last_list v). cid c = selected v ! n \<and> cid c \<in> set (visible v) \<and>
       bulk_urls path v ! n = ''/api/containers/'' @ cid c @ ''/'' @ path \<and>
       bulk_delete_urls v ! n = ''/api/containers/'' @ cid c @ ''?force=true'')"
proof -
  let ?v = "run_events list_step list_init es"
  have "selected ?v \<noteq> []" using list_run_inv [of es] assms by (simp add: bar_inv_def)
  then show ?thesis
    unfolding Let_def bulk_urls_def bulk_delete_urls_def
    using bulk_target_shown [OF list_run_inv assms] nth_mem by fastforce
qed

theorem bulk_targets_visible_witness:
  "bulk_urls ''stop'' (run_events list_step list_init [Loaded [sample_container], TickRow ''ab'' True]) \<noteq> []"
proof -
  have "bar_shown (run_events list_step list_init [Loaded [sample_container], TickRow ''ab'' True])"
    by (simp add: list_init_def load_list_def render_containers_def filter_containers_def sort_containers_def
        js_sort_def render_bulk_bar_def toggle_row_def set_add_def Let_def)
  from bulk_targets_visible [OF this, of "''stop''"] show ?thesis unfolding Let_def by (metis length_0_conv)
qed

text \<open>
  Deleting one container always goes through the undo queue: the last request is the DELETE with
  \<open>undo=1\<close> and never forces, a running or paused container is stopped first, and every row offers it.
\<close>

theorem delete_is_undoable:
  assumes "CHR ''?'' \<notin> set (cid c)"
  shows "last (delete_requests ok c) = (''DELETE'', ''/api/containers/'' @ cid c @ ''?undo=1'') \<and>
    (needs_stop c \<longrightarrow> hd (delete_requests ok c) = (''POST'', ''/api/containers/'' @ cid c @ ''/stop'')) \<and>
    button_command (last (row_buttons secs c)) = DeleteRow \<and>
    confirm_text (last (row_buttons secs c)) \<noteq> None"
  using assms by (simp add: delete_requests_def delete_url_def row_buttons_def delete_btn_def)

theorem delete_is_undoable_witness:
  "last (delete_requests True sample_container) = (''DELETE'', ''/api/containers/ab?undo=1'')"
  using delete_is_undoable [of sample_container True] by simp

text \<open>
  A list that arrives late never overwrites what the user has moved on to: on another page or in a detail
  view it changes neither the view nor the poll; a list that arrives on the list page is shown and polled.
\<close>

theorem late_list_harmless:
  "(on_page l \<noteq> ''containers'' \<or> detail_open l \<longrightarrow>
      main_view (load_step l (LoadOk cs)) = main_view l \<and> poll_armed (load_step l (LoadOk cs)) = poll_armed l) \<and>
   (on_page l = ''containers'' \<and> \<not> detail_open l \<and> outstanding_loads l \<noteq> 0 \<longrightarrow>
      main_view (load_step l (LoadOk cs)) = ListView cs \<and> poll_armed (load_step l (LoadOk cs)))"
  by (simp add: load_ok_def Let_def)

theorem late_list_harmless_witness:
  "main_view (load_step \<lparr>load_in_flight = True, on_page = ''images'', detail_open = False, known = None,
     main_view = OtherPage ''images'', poll_armed = False, engine_ok = True, outstanding_loads = 1\<rparr> (LoadOk [])) =
   OtherPage ''images''"
  using late_list_harmless [of "\<lparr>load_in_flight = True, on_page = ''images'', detail_open = False, known = None,
     main_view = OtherPage ''images'', poll_armed = False, engine_ok = True, outstanding_loads = 1\<rparr>" "[]"] by simp

text \<open>
  A failure that arrives late is not harmless: leave the list for another page while it loads, let the
  request fail, and that page is replaced by the unreachable-engine panel and the container poll starts
  on it.
\<close>

theorem late_failure_stomps_page:
  assumes "page \<noteq> ''containers''" and "msg \<noteq> ''Authentication required''" and "outstanding_loads l = 0" and "\<not> load_in_flight l"
  shows "let l' = run_events load_step l [CallLoad, GoTo page, LoadFailed msg] in
    on_page l' = page \<and> main_view l' = Unreachable \<and> poll_armed l'"
  using assms by (simp add: Let_def load_call_def go_to_def load_failed_def)

theorem late_failure_stomps_page_witness:
  "main_view (run_events load_step \<lparr>load_in_flight = False, on_page = ''containers'', detail_open = False, known = None,
     main_view = Loading, poll_armed = False, engine_ok = True, outstanding_loads = 0\<rparr>
     [CallLoad, GoTo ''images'', LoadFailed ''Network error'']) = Unreachable"
  using late_failure_stomps_page [of "''images''" "''Network error''" "\<lparr>load_in_flight = False, on_page = ''containers'',
     detail_open = False, known = None, main_view = Loading, poll_armed = False, engine_ok = True, outstanding_loads = 0\<rparr>"]
  unfolding Let_def by simp

text \<open>
  On every platform the start-up panel offers a recommended command that needs no admin rights, and it
  flags a command as \<open>sudo\<close> exactly when it starts with it.
\<close>

theorem runtimes_flag_sudo:
  "(\<exists>r \<in> set (runtimes platform). rt_tag r = ''recommended'' \<and> \<not> starts_with ''sudo'' (rt_cmd r)) \<and>
   (\<forall>r \<in> set (runtimes platform). (rt_tag r = ''sudo'') = starts_with ''sudo'' (rt_cmd r))"
  by (cases "platform = []"; cases "is_mac platform") (simp_all add: runtimes_def Let_def)

end
