(* ===== verification/RunModal.thy ===== *)
theory RunModal
  imports Store Json
begin

text \<open>
  The "Run new container" modal of app.js: its fields, their prefill from a template or from a container to
  clone, the pre-flight check of the volume lines, and the request body built on submit.
\<close>

section \<open>Fields\<close>

record run_fields =
  f_image :: string
  f_name :: string
  f_command :: string
  f_ports :: string
  f_env :: string
  f_volumes :: string
  f_labels :: string
  f_restart :: string
  f_network :: string
  f_read_only :: bool
  f_replace :: bool

definition empty_fields :: run_fields where
  "empty_fields = \<lparr>f_image = [], f_name = [], f_command = [], f_ports = [], f_env = [], f_volumes = [],
     f_labels = [], f_restart = ''no'', f_network = [], f_read_only = True, f_replace = False\<rparr>"

definition valid_restart_policies :: "string list" where
  "valid_restart_policies = [''no'', ''on-failure'', ''unless-stopped'', ''always'']"

section \<open>Prefill from a template\<close>

text \<open>A template's ports are pairs (host, container), its volumes name hint, name and mount.\<close>

record template =
  t_image :: string
  t_name :: string
  t_command :: string
  t_ports :: "(string \<times> string) list"
  t_env :: "(string \<times> string) list"
  t_volumes :: "(string \<times> string \<times> string) list"

definition template_fields :: "template \<Rightarrow> run_fields" where
  "template_fields tp = empty_fields\<lparr>f_image := t_image tp, f_name := t_name tp, f_command := t_command tp,
     f_ports := join '', '' (map (\<lambda>(h, c). h @ '':'' @ c) (t_ports tp)),
     f_env := join newline (map (\<lambda>(k, v). k @ ''='' @ v) (t_env tp)),
     f_volumes := join newline (map (\<lambda>(hint, nm, mount). or_str (or_str hint nm) ''data'' @ '':'' @ mount) (t_volumes tp))\<rparr>"

section \<open>Prefill from a container\<close>

text \<open>
  The parts of an inspect response that are read. A port binding is its host port, empty when it has none;
  \<open>src_networks\<close> are the keys of its network map in order.
\<close>

record source =
  src_id :: string
  src_name :: string
  src_image :: string
  src_cmd :: "string list"
  src_bindings :: "(string \<times> string list) list"
  src_env :: "string list"
  src_binds :: "string list"
  src_labels :: "(string \<times> string) list"
  src_restart :: string
  src_read_only :: bool
  src_networks :: "string list"

definition port_number :: "string \<Rightarrow> string" where
  "port_number cp = hd (split_on CHR ''/'' cp)"

definition clone_ports :: "(string \<times> string list) list \<Rightarrow> string list" where
  "clone_ports bs = concat (map (\<lambda>(cp, hosts). map (\<lambda>h. h @ '':'' @ port_number cp) (nonempty hosts)) bs)"

definition is_user_label :: "string \<times> string \<Rightarrow> bool" where
  "is_user_label kv = (\<not> starts_with ''com.docker.'' (fst kv))"

definition label_lines :: "(string \<times> string) list \<Rightarrow> string list" where
  "label_lines ls = map (\<lambda>(k, v). k @ ''='' @ v) (filter is_user_label ls)"

text \<open>The names shown in the environment field's placeholder; the field itself stays empty.\<close>

definition preserved_keys :: "source \<Rightarrow> string list" where
  "preserved_keys s = nonempty (map (\<lambda>e. hd (split_on CHR ''='' e)) (src_env s))"

definition env_placeholder :: "source \<Rightarrow> string" where
  "env_placeholder s = (if preserved_keys s = [] then ''KEY=VALUE''
     else ''Add overrides as KEY=VALUE'' @ ellipsis @ newline @ ''(preserved from source: '' @
       join '', '' (preserved_keys s) @ '')'')"

text \<open>The network is selected once the engine's list (\<open>nets\<close>) has arrived; an unknown name selects nothing.\<close>

definition clone_network :: "string list \<Rightarrow> source \<Rightarrow> string" where
  "clone_network nets s = (case src_networks s of [] \<Rightarrow> []
     | n # _ \<Rightarrow> if n \<noteq> [] \<and> n \<noteq> ''bridge'' \<and> n \<in> set nets then n else [])"

definition clone_fields :: "string list \<Rightarrow> source \<Rightarrow> run_fields" where
  "clone_fields nets s = empty_fields\<lparr>f_image := src_image s, f_name := ''clone-'' @ src_name s,
     f_command := join '' '' (src_cmd s),
     f_ports := join '', '' (clone_ports (src_bindings s)),
     f_volumes := join newline (src_binds s),
     f_labels := join newline (label_lines (src_labels s)),
     f_restart := (if src_restart s \<in> set valid_restart_policies then src_restart s else ''no''),
     f_network := clone_network nets s, f_read_only := src_read_only s\<rparr>"

section \<open>Submit\<close>

text \<open>\<open>None\<close> is null; a port's key is missing (\<open>undefined\<close>) when the entry has no colon.\<close>

record run_body =
  b_ports :: "(string \<times> string) list option"
  b_environment :: "string list option"
  b_command :: "string option"
  b_volumes :: "string list option"
  b_restart :: string
  b_network :: "string option"
  b_labels :: "(string \<times> string) list option"
  b_read_only :: bool
  b_inherit_from :: "string option"
  b_replace_id :: "string option"

definition null_if_empty :: "string \<Rightarrow> string option" where
  "null_if_empty s = (if s = [] then None else Some s)"

definition port_pair :: "string \<Rightarrow> string \<times> string" where
  "port_pair p = (let s = split_on CHR '':'' (trim p) in
     (if length s > 1 then s ! 1 else ''undefined'', hd s))"

text \<open>
  \<open>Object.fromEntries\<close>: a repeated key keeps its place and takes the last value. The object is read as a
  map: that JavaScript lists integer-like keys first is not kept.
\<close>

definition from_entries :: "(string \<times> string) list \<Rightarrow> (string \<times> string) list" where
  "from_entries kvs = fold (\<lambda>(k, v) acc. alist_set k v acc) kvs []"

definition parse_ports :: "string \<Rightarrow> (string \<times> string) list option" where
  "parse_ports raw = (if raw = [] then None else Some (from_entries (map port_pair (split_on CHR '','' raw))))"

definition lines_of :: "string \<Rightarrow> string list" where
  "lines_of raw = nonempty (split_on CHR 0x0A (trim raw))"

definition parse_lines :: "string \<Rightarrow> string list option" where
  "parse_lines raw = (if raw = [] then None else Some (lines_of raw))"

definition label_pair :: "string \<Rightarrow> (string \<times> string) option" where
  "label_pair l = (let k = takeWhile (\<lambda>c. c \<noteq> CHR ''='') l in
     if length k < length l \<and> k \<noteq> [] then Some (k, drop (Suc (length k)) l) else None)"

definition parse_labels :: "string \<Rightarrow> (string \<times> string) list option" where
  "parse_labels raw = (if raw = [] then None
     else Some (from_entries (List.map_filter label_pair (lines_of raw))))"

text \<open>The pre-flight check: trimmed non-blank lines, the first without a colon is reported (counting from 1).\<close>

definition volume_lines :: "string \<Rightarrow> string list" where
  "volume_lines raw = nonempty (map trim (split_on CHR 0x0A raw))"

definition volume_error :: "nat \<Rightarrow> string \<Rightarrow> string" where
  "volume_error i l = (''Volume mount line '' @ show_nat i) @ '' is missing a mount path. Use NAME:/path (e.g. '' @ l @ '':/data).''"

definition preflight :: "string \<Rightarrow> string option" where
  "preflight raw = (case find (\<lambda>il. CHR '':'' \<notin> set (snd il)) (enumerate 1 (volume_lines raw)) of None \<Rightarrow> None
     | Some (i, l) \<Rightarrow> Some (volume_error i l))"

definition submit_body :: "source option \<Rightarrow> run_fields \<Rightarrow> run_body" where
  "submit_body src f = \<lparr>b_ports = parse_ports (f_ports f), b_environment = parse_lines (f_env f),
     b_command = null_if_empty (f_command f), b_volumes = parse_lines (f_volumes f), b_restart = f_restart f,
     b_network = null_if_empty (f_network f), b_labels = parse_labels (f_labels f), b_read_only = f_read_only f,
     b_inherit_from = map_option src_id src,
     b_replace_id = (case src of None \<Rightarrow> None | Some s \<Rightarrow> if f_replace f then Some (src_id s) else None)\<rparr>"

text \<open>\<open>Inl\<close>: the banner's message and the error thrown; \<open>Inr\<close>: the image, the name and the body to post.\<close>

definition submit_run :: "source option \<Rightarrow> run_fields \<Rightarrow> (string \<times> string) + (string \<times> string option \<times> run_body)" where
  "submit_run src f = (let img = trim (f_image f) in
     if img = [] then Inl (''Image name is required'', ''no image'')
     else case (if f_volumes f = [] then None else preflight (f_volumes f)) of
        Some msg \<Rightarrow> Inl (msg, ''bad volume spec'')
      | None \<Rightarrow> Inr (img, null_if_empty (f_name f), submit_body src f))"

definition run_toast :: "source option \<Rightarrow> bool \<Rightarrow> string" where
  "run_toast src replaced = (case src of None \<Rightarrow> ''Container launched''
     | Some s \<Rightarrow> (if replaced then ''Cloned and replaced '' else ''Cloned from '') @ src_name s)"

text \<open>The quick-pick list: the tags of all images, at most twenty.\<close>

definition quick_tags :: "(string list option \<times> string option) list \<Rightarrow> string list" where
  "quick_tags images = take 20 (filter (\<lambda>t. t \<noteq> [] \<and> t \<noteq> ''<none>:<none>'')
     (concat (map (\<lambda>(tags, tg). case tags of Some ts \<Rightarrow> ts | None \<Rightarrow> (case tg of Some t \<Rightarrow> [t] | None \<Rightarrow> [])) images)))"

definition registry_hint :: "string list \<Rightarrow> string" where
  "registry_hint regs = (if regs = [] then ''No registry restriction configured '' @ em_dash @ '' any image is permitted.''
     else ''Allowed registries: '' @ join '', '' regs @ ''. Images must be pulled to this engine before they can be run.'')"

section \<open>Lemmas\<close>

lemma from_entries_distinct: "distinct (map fst kvs) \<Longrightarrow> from_entries kvs = kvs"
proof -
  have "fold (\<lambda>(k, v) acc. alist_set k v acc) kvs acc = acc @ kvs"
    if "distinct (map fst (acc @ kvs))" for acc
    using that
  proof (induction kvs arbitrary: acc)
    case (Cons kv kvs)
    then have "alist_set (fst kv) (snd kv) acc = acc @ [kv]"
      by (cases kv) (force simp: alist_set_def)
    with Cons show ?case by (cases kv) simp
  qed simp
  from this [of "[]"] show "distinct (map fst kvs) \<Longrightarrow> from_entries kvs = kvs" by (simp add: from_entries_def)
qed

lemma from_entries_last: "map_of (from_entries kvs) k = map_of (rev kvs) k"
proof -
  have "map_of (fold (\<lambda>(k, v) acc. alist_set k v acc) kvs acc) k =
      (case map_of (rev kvs) k of Some v \<Rightarrow> Some v | None \<Rightarrow> map_of acc k)" for acc
    by (induction kvs arbitrary: acc) (auto simp: map_of_alist_set map_add_def split: option.splits)
  then show ?thesis by (simp add: from_entries_def split: option.splits)
qed

text \<open>What a well-formed port spec is: no separators, no surrounding space.\<close>

definition port_text :: "string \<Rightarrow> bool" where
  "port_text s \<longleftrightarrow> s \<noteq> [] \<and> CHR '','' \<notin> set s \<and> CHR '':'' \<notin> set s \<and> (\<forall>c \<in> set s. \<not> is_space c)"

lemma port_textD: "port_text s \<Longrightarrow> s \<noteq> []" "port_text s \<Longrightarrow> CHR '','' \<notin> set s" "port_text s \<Longrightarrow> CHR '':'' \<notin> set s"
  "port_text s \<Longrightarrow> c \<in> set s \<Longrightarrow> \<not> is_space c"
  by (auto simp: port_text_def)

lemma trim_no_space:
  assumes "\<forall>c \<in> set s. \<not> is_space c"
  shows "trim s = s"
proof (cases "s = []")
  case False
  then show ?thesis using assms by (intro trim_id) auto
qed (simp add: trim_def)

lemma trim_leading_space: "is_space c \<Longrightarrow> trim (c # s) = trim s"
  by (simp add: trim_def)

lemma port_pair_spec: "port_text h \<Longrightarrow> port_text c \<Longrightarrow> port_pair (h @ '':'' @ c) = (c, h)"
proof -
  assume h: "port_text h" and c: "port_text c"
  have "\<not> is_space (CHR '':'')" by (simp add: is_space_def)
  with h c have "trim (h @ CHR '':'' # c) = h @ CHR '':'' # c"
    by (intro trim_no_space) (auto dest: port_textD)
  moreover have "split_on CHR '':'' (h @ CHR '':'' # c) = [h, c]"
    using port_textD(3) [OF h] port_textD(3) [OF c]
    by (simp only: split_on_append_sep split_on_no_sep not_False_eq_True)
  ultimately have "port_pair (h @ CHR '':'' # c) = (c, h)" by (simp add: port_pair_def Let_def)
  then show ?thesis by simp
qed

lemma port_pair_space: "port_pair (CHR '' '' # p) = port_pair p"
  by (simp add: port_pair_def trim_leading_space is_space_def)

lemma split_join_comma_space:
  "xs \<noteq> [] \<Longrightarrow> \<forall>x \<in> set xs. CHR '','' \<notin> set x \<Longrightarrow>
   split_on CHR '','' (join '', '' xs) = hd xs # map (\<lambda>x. CHR '' '' # x) (tl xs)"
proof (induction "'', ''" xs rule: join.induct)
  case (3 x y ys)
  have "CHR '','' \<notin> set x" using 3 by simp
  then have "split_on CHR '','' (x @ CHR '','' # CHR '' '' # join '', '' (y # ys)) =
      x # split_on CHR '','' (CHR '' '' # join '', '' (y # ys))"
    by (rule split_on_append_sep)
  moreover obtain z zs where z: "split_on CHR '','' (join '', '' (y # ys)) = z # zs"
    by (cases "split_on CHR '','' (join '', '' (y # ys))") auto
  ultimately show ?case using 3 by (simp add: z)
qed (auto simp: split_on_no_sep)

lemma parse_ports_join:
  assumes "ps \<noteq> []" and "\<forall>(h, c) \<in> set ps. port_text h \<and> port_text c" and "distinct (map snd ps)"
  shows "parse_ports (join '', '' (map (\<lambda>(h, c). h @ '':'' @ c) ps)) = Some (map (\<lambda>(h, c). (c, h)) ps)"
proof -
  let ?xs = "map (\<lambda>(h, c). h @ '':'' @ c) ps"
  have nc: "\<forall>x \<in> set ?xs. CHR '','' \<notin> set x" using assms(2) by (auto dest: port_textD)
  have ne: "?xs \<noteq> []" using assms(1) by simp
  have "map port_pair (split_on CHR '','' (join '', '' ?xs)) = map port_pair ?xs"
    using split_join_comma_space [OF ne nc] ne by (cases ?xs) (simp_all add: port_pair_space o_def)
  also have "\<dots> = map (\<lambda>(h, c). (c, h)) ps"
    using assms(2) port_pair_spec by auto
  finally have pairs: "map port_pair (split_on CHR '','' (join '', '' ?xs)) = map (\<lambda>(h, c). (c, h)) ps" .
  have "distinct (map fst (map (\<lambda>(h, c). (c, h)) ps))"
    using assms(3) by (simp add: o_def case_prod_beta)
  moreover have "join '', '' ?xs \<noteq> []"
  proof (cases ps)
    case (Cons p qs)
    then show ?thesis by (cases p; cases qs) auto
  qed (use assms(1) in simp)
  ultimately show ?thesis using pairs by (simp add: parse_ports_def from_entries_distinct)
qed

lemma label_pair_line: "k \<noteq> [] \<Longrightarrow> CHR ''='' \<notin> set k \<Longrightarrow> label_pair (k @ ''='' @ v) = Some (k, v)"
proof -
  assume "k \<noteq> []" and "CHR ''='' \<notin> set k"
  then have "takeWhile (\<lambda>c. c \<noteq> CHR ''='') (k @ CHR ''='' # v) = k"
    by (subst takeWhile_append2) auto
  with \<open>k \<noteq> []\<close> show ?thesis by (simp add: label_pair_def Let_def)
qed

lemma find_enumerate_None: "find (\<lambda>il. P (snd il)) (enumerate n xs) = None \<longleftrightarrow> (\<forall>x \<in> set xs. \<not> P x)"
  by (induction xs arbitrary: n) auto

lemma find_enumerate_Some: "find (\<lambda>il. P (snd il)) (enumerate n xs) = Some (j, l) \<Longrightarrow>
    \<exists>i < length xs. j = n + i \<and> l = xs ! i \<and> P l"
proof (induction xs arbitrary: n)
  case (Cons x xs)
  show ?case
  proof (cases "P x")
    case True
    with Cons.prems show ?thesis by auto
  next
    case False
    with Cons obtain i where "i < length xs" "j = Suc n + i" "l = xs ! i" "P l" by fastforce
    then show ?thesis by (intro exI [of _ "Suc i"]) auto
  qed
qed simp

section \<open>Properties\<close>

text \<open>
  Cloning never moves an environment value through the browser: for every source the environment field is
  empty, the request carries no environment of its own and asks the server to inherit the source's, and
  only the names are ever shown.
\<close>

theorem clone_env_stays_on_server:
  "f_env (clone_fields nets s) = [] \<and>
   b_environment (submit_body (Some s) (clone_fields nets s)) = None \<and>
   b_inherit_from (submit_body (Some s) (clone_fields nets s)) = Some (src_id s) \<and>
   b_replace_id (submit_body (Some s) (clone_fields nets s)) = None \<and>
   (\<forall>k \<in> set (preserved_keys s). CHR ''='' \<notin> set k)"
proof -
  have "CHR ''='' \<notin> set (hd (split_on CHR ''='' e))" for e
    using split_on_parts [of "hd (split_on CHR ''='' e)" "CHR ''=''" e] by simp
  then show ?thesis
    by (auto simp: clone_fields_def empty_fields_def submit_body_def parse_lines_def preserved_keys_def nonempty_def)
qed

theorem clone_env_stays_on_server_witness:
  "let s = \<lparr>src_id = ''ab'', src_name = ''web'', src_image = ''nginx'', src_cmd = [], src_bindings = [],
       src_env = [''TOKEN=secret''], src_binds = [], src_labels = [], src_restart = ''no'', src_read_only = True,
       src_networks = []\<rparr> in
     preserved_keys s = [''TOKEN''] \<and> b_environment (submit_body (Some s) (clone_fields [] s)) = None"
  using clone_env_stays_on_server [of "[]" "\<lparr>src_id = ''ab'', src_name = ''web'', src_image = ''nginx'', src_cmd = [],
       src_bindings = [], src_env = [''TOKEN=secret''], src_binds = [], src_labels = [], src_restart = ''no'',
       src_read_only = True, src_networks = []\<rparr>"]
  by (simp add: Let_def) (simp add: preserved_keys_def nonempty_def)

text \<open>
  Cloning keeps the published TCP ports: when each container port has one binding, what the form shows and
  then parses is the source's own port map.
\<close>

theorem clone_ports_roundtrip:
  assumes "src_bindings s = map (\<lambda>(h, c). (c @ ''/tcp'', [h])) ps" and "ps \<noteq> []"
    and "\<forall>(h, c) \<in> set ps. port_text h \<and> port_text c \<and> CHR ''/'' \<notin> set c" and "distinct (map snd ps)"
  shows "b_ports (submit_body (Some s) (clone_fields nets s)) = Some (map (\<lambda>(h, c). (c, h)) ps)"
proof -
  have pn: "CHR ''/'' \<notin> set c \<Longrightarrow> port_number (c @ ''/tcp'') = c" for c
    using split_on_append_sep [of "CHR ''/''" c "''tcp''"] by (simp add: port_number_def)
  have "clone_ports (map (\<lambda>(h, c). (c @ ''/tcp'', [h])) ps) = map (\<lambda>(h, c). h @ '':'' @ c) ps"
    using assms(3) by (induction ps) (auto simp: clone_ports_def nonempty_def pn dest: port_textD)
  then show ?thesis using assms parse_ports_join [of ps]
    by (auto simp: submit_body_def clone_fields_def)
qed

abbreviation sample_source :: source where
  "sample_source \<equiv> \<lparr>src_id = ''ab'', src_name = ''web'', src_image = ''nginx'', src_cmd = [],
     src_bindings = [(''80/tcp'', [''8080''])], src_env = [''SECRET=x''], src_binds = [], src_labels = [],
     src_restart = ''always'', src_read_only = True, src_networks = []\<rparr>"

theorem clone_ports_roundtrip_witness:
  "b_ports (submit_body (Some sample_source) (clone_fields [] sample_source)) = Some [(''80'', ''8080'')]"
  using clone_ports_roundtrip [of sample_source "[(''8080'', ''80'')]" "[]"]
  by (simp add: port_text_def is_space_def)

text \<open>
  A UDP port is cloned as TCP, and of two host ports bound to one container port only the last survives.
\<close>

theorem clone_loses_protocol:
  assumes "port_text h" and "port_text h'" and "port_text c" and "CHR ''/'' \<notin> set c"
  shows "parse_ports (join '', '' (clone_ports [(c @ ''/udp'', [h])])) =
      parse_ports (join '', '' (clone_ports [(c @ ''/tcp'', [h])])) \<and>
    parse_ports (join '', '' (clone_ports [(c @ ''/tcp'', [h, h'])])) = Some [(c, h')]"
proof -
  have pn: "port_number (c @ CHR ''/'' # p) = c" for p
    using assms(4) split_on_append_sep [of "CHR ''/''" c p] by (simp add: port_number_def)
  have ne: "h \<noteq> []" "h' \<noteq> []" using assms by (auto dest: port_textD)
  have "\<forall>x \<in> set [h @ '':'' @ c, h' @ '':'' @ c]. CHR '','' \<notin> set x"
    using assms by (auto dest: port_textD)
  from split_join_comma_space [OF _ this]
  have "split_on CHR '','' (join '', '' [h @ '':'' @ c, h' @ '':'' @ c]) = [h @ '':'' @ c, CHR '' '' # (h' @ '':'' @ c)]"
    by simp
  moreover have "port_pair (h @ '':'' @ c) = (c, h)" "port_pair (CHR '' '' # (h' @ '':'' @ c)) = (c, h')"
    using assms port_pair_spec port_pair_space by simp_all
  ultimately show ?thesis using ne
    by (simp add: clone_ports_def nonempty_def pn parse_ports_def from_entries_def alist_set_def)
qed

theorem clone_loses_protocol_witness:
  "parse_ports (join '', '' (clone_ports [(''53'' @ ''/tcp'', [''53'', ''5353''])])) = Some [(''53'', ''5353'')]"
  using clone_loses_protocol [of "''53''" "''5353''" "''53''"] by (simp add: port_text_def is_space_def)

text \<open>
  A submission reaches the server only with a non-empty image and volume lines that all name a mount
  path; otherwise the banner says which line (or that the image) is missing, and nothing is sent.
\<close>

theorem submit_checked:
  "(\<forall>img nm body. submit_run src f = Inr (img, nm, body) \<longrightarrow>
      img = trim (f_image f) \<and> img \<noteq> [] \<and> (\<forall>l \<in> set (volume_lines (f_volumes f)). CHR '':'' \<in> set l)) \<and>
   (\<forall>msg err. submit_run src f = Inl (msg, err) \<longrightarrow>
      (msg = ''Image name is required'' \<and> trim (f_image f) = []) \<or>
      (\<exists>i < length (volume_lines (f_volumes f)). CHR '':'' \<notin> set (volume_lines (f_volumes f) ! i) \<and>
         starts_with (''Volume mount line '' @ show_nat (Suc i)) msg))"
proof -
  let ?ls = "volume_lines (f_volumes f)"
  have none: "preflight (f_volumes f) = None \<Longrightarrow> \<forall>l \<in> set ?ls. CHR '':'' \<in> set l"
    using find_enumerate_None [of "\<lambda>l. CHR '':'' \<notin> set l" 1 ?ls] by (auto simp: preflight_def split: option.splits)
  have empty: "f_volumes f = [] \<Longrightarrow> ?ls = []" by (simp add: volume_lines_def nonempty_def trim_def)
  have some: "\<exists>i < length ?ls. CHR '':'' \<notin> set (?ls ! i) \<and> starts_with (''Volume mount line '' @ show_nat (Suc i)) msg"
    if pf: "preflight (f_volumes f) = Some msg" for msg
  proof -
    obtain j l where f: "find (\<lambda>il. CHR '':'' \<notin> set (snd il)) (enumerate 1 ?ls) = Some (j, l)"
      and m: "msg = volume_error j l"
      using pf by (auto simp: preflight_def split: option.splits)
    from find_enumerate_Some [OF f] obtain i where "i < length ?ls" "j = Suc i" "l = ?ls ! i" and n: "CHR '':'' \<notin> set l"
      by auto
    with n m show ?thesis by (metis starts_with_append volume_error_def)
  qed
  show ?thesis using none empty some
    by (auto simp: submit_run_def Let_def split: option.splits if_splits)
qed

theorem submit_checked_witness:
  "submit_run None (empty_fields\<lparr>f_image := ''nginx''\<rparr>) =
     Inr (''nginx'', None, submit_body None (empty_fields\<lparr>f_image := ''nginx''\<rparr>)) \<and>
   trim (f_image (empty_fields\<lparr>f_image := ''nginx''\<rparr>)) \<noteq> []"
proof -
  have "trim ''nginx'' = ''nginx''" by (rule trim_no_space) (simp add: is_space_def)
  then have r: "submit_run None (empty_fields\<lparr>f_image := ''nginx''\<rparr>) =
     Inr (''nginx'', None, submit_body None (empty_fields\<lparr>f_image := ''nginx''\<rparr>))"
    by (simp add: submit_run_def empty_fields_def null_if_empty_def Let_def)
  with submit_checked [of None "empty_fields\<lparr>f_image := ''nginx''\<rparr>"] show ?thesis by metis
qed

text \<open>
  The labels a clone shows are parsed back to the source's own labels, without those of the engine's
  compose metadata.
\<close>

theorem clone_labels_roundtrip:
  assumes "distinct (map fst ls)" and "filter is_user_label ls \<noteq> []"
    and "\<forall>(k, v) \<in> set ls. k \<noteq> [] \<and> v \<noteq> [] \<and> CHR ''='' \<notin> set k \<and> (\<forall>c \<in> set (k @ v). \<not> is_space c)"
  shows "parse_labels (join newline (label_lines ls)) = Some (filter is_user_label ls)"
proof -
  let ?ks = "filter is_user_label ls" and ?lines = "label_lines ls"
  have ne: "?lines \<noteq> []" using assms(2) by (simp add: label_lines_def)
  have sp: "\<forall>c \<in> set l. \<not> is_space c" "l \<noteq> []" if "l \<in> set ?lines" for l
    using that assms(3) by (fastforce simp: label_lines_def is_space_def)+
  have nl: "\<forall>l \<in> set ?lines. CHR 0x0A \<notin> set l" using sp(1) by (fastforce simp: is_space_def)
  have nonsp: "xs \<noteq> [] \<Longrightarrow> (\<And>l. l \<in> set xs \<Longrightarrow> l \<noteq> [] \<and> (\<forall>c \<in> set l. \<not> is_space c)) \<Longrightarrow>
      join newline xs \<noteq> [] \<and> \<not> is_space (hd (join newline xs)) \<and> \<not> is_space (last (join newline xs))" for xs
  proof (induction xs rule: induct_list012)
    case (3 x y ys)
    have "join newline (y # ys) \<noteq> [] \<and> \<not> is_space (hd (join newline (y # ys))) \<and>
        \<not> is_space (last (join newline (y # ys)))"
      by (rule 3(2)) (use 3(4) in auto)
    moreover have "x \<noteq> [] \<and> \<not> is_space (hd x)" using 3(4) [of x] by auto
    ultimately show ?case by simp
  qed auto
  have "trim (join newline ?lines) = join newline ?lines"
    using nonsp [of ?lines] ne sp by (intro trim_id) auto
  then have "lines_of (join newline ?lines) = ?lines"
    using split_on_join [OF ne nl] sp(2) by (simp add: lines_of_def nonempty_id)
  moreover have "List.map_filter label_pair ?lines = ?ks"
    using assms(3) by (induction ls) (auto simp: label_lines_def List.map_filter_simps label_pair_line [simplified])
  moreover have "distinct (map fst ?ks)" using assms(1) by (simp add: distinct_map_filter)
  moreover have "join newline ?lines \<noteq> []" using nonsp [of ?lines] ne sp by auto
  ultimately show ?thesis by (simp add: parse_labels_def from_entries_distinct)
qed

theorem clone_labels_roundtrip_witness:
  "parse_labels (join newline (label_lines [(''app'', ''web''), (''com.docker.x'', ''y'')])) = Some [(''app'', ''web'')]"
  using clone_labels_roundtrip [of "[(''app'', ''web''), (''com.docker.x'', ''y'')]"]
  by (simp add: is_user_label_def is_space_def)

end
