(* ===== verification/Detail.thy ===== *)
theory Detail
  imports Actions Json
begin

text \<open>
  The tabs of the container detail view in app.js other than logs and terminal: inspect with its editable
  resources, the polls of stats and processes, and the file browser.
\<close>

section \<open>Quantities\<close>

text \<open>\<open>toFixed(1)\<close> of the exact quotient \<open>n / d\<close>: the nearest tenth, ties upwards.\<close>

definition to_fixed1 :: "int \<Rightarrow> int \<Rightarrow> string" where
  "to_fixed1 n d = (let k = (20 * n + d) div (2 * d) in show_int (k div 10) @ ''.'' @ show_int (k mod 10))"

text \<open>How often the loop divides by 1024: up to \<open>mx\<close> times, while the quotient is at least 1024.\<close>

function unit_index :: "nat \<Rightarrow> int \<Rightarrow> nat \<Rightarrow> nat" where
  "unit_index mx n i = (if n \<ge> 1024 ^ Suc i \<and> i < mx then unit_index mx n (Suc i) else i)"
  by pat_completeness auto
termination
  by (relation "measure (\<lambda>(mx, n, i). mx - i)") auto

declare unit_index.simps [simp del]

definition iec_units :: "string list" where
  "iec_units = [[], ''Ki'', ''Mi'', ''Gi'', ''Ti'']"

definition fmt_bytes :: "int \<Rightarrow> string" where
  "fmt_bytes n = (if n = 0 then ''0'' else let i = unit_index 4 n 0; d = 1024 ^ i in
     (if n mod d = 0 then show_int (n div d) else to_fixed1 n d) @ iec_units ! i)"

definition byte_units :: "string list" where
  "byte_units = [''B'', ''KB'', ''MB'', ''GB'']"

definition format_bytes :: "int \<Rightarrow> string" where
  "format_bytes n = (if n \<le> 0 then ''0 B'' else let i = unit_index 3 n 0 in
     (if i = 0 then show_int n else to_fixed1 n (1024 ^ i)) @ '' '' @ byte_units ! i)"

text \<open>\<open>fixed2\<close>: the double quotient printed with two decimals.\<close>

definition fmt_cpus :: "(int \<Rightarrow> int \<Rightarrow> string) \<Rightarrow> int \<Rightarrow> int \<Rightarrow> string" where
  "fmt_cpus fixed2 quota period = (if quota = 0 \<or> period = 0 then [] else
     let s = fixed2 quota period; n = length s in
     if n \<ge> 3 \<and> drop (n - 3) s = ''.00'' then take (n - 3) s else s)"

section \<open>Editable resources\<close>

text \<open>An input: its key, its value and the value it was rendered with.\<close>

record edit_field =
  edit_key :: string
  val :: string
  original :: string

definition changed :: "edit_field \<Rightarrow> bool" where
  "changed f = (val f \<noteq> original f)"

definition has_changes :: "edit_field list \<Rightarrow> bool" where
  "has_changes fs = list_ex changed fs"

definition revert :: "edit_field list \<Rightarrow> edit_field list" where
  "revert fs = map (\<lambda>f. f\<lparr>val := original f\<rparr>) fs"

record limits =
  memory_bytes :: int
  memory_reservation :: int
  cpu_quota :: int
  cpu_period :: int
  cpu_shares :: int
  pids_limit :: int
  rp_name :: string
  rp_retry :: int

definition num_or_empty :: "int \<Rightarrow> string" where
  "num_or_empty n = (if n = 0 then [] else show_int n)"

definition edit_field :: "string \<Rightarrow> string \<Rightarrow> edit_field" where
  "edit_field k v = \<lparr>edit_key = k, val = v, original = v\<rparr>"

text \<open>The select falls back to its first option when the policy is not one of them.\<close>

definition select_policy :: "string \<Rightarrow> string" where
  "select_policy p = (if p \<in> {''no'', ''on-failure'', ''unless-stopped'', ''always''} then p else ''no'')"

definition initial_fields :: "(int \<Rightarrow> int \<Rightarrow> string) \<Rightarrow> limits \<Rightarrow> edit_field list" where
  "initial_fields fixed2 l =
    [edit_field ''memory'' (fmt_bytes (memory_bytes l)),
     edit_field ''memory_reservation'' (fmt_bytes (memory_reservation l)),
     edit_field ''cpus'' (fmt_cpus fixed2 (cpu_quota l) (if cpu_period l = 0 then 100000 else cpu_period l)),
     edit_field ''cpu_shares'' (num_or_empty (cpu_shares l)),
     edit_field ''pids_limit'' (num_or_empty (pids_limit l)),
     \<lparr>edit_key = ''restart_policy_name'', val = select_policy (or_str (rp_name l) ''no''), original = or_str (rp_name l) ''no''\<rparr>,
     edit_field ''restart_policy_retry'' (num_or_empty (rp_retry l))]"

fun find_field :: "edit_field list \<Rightarrow> string \<Rightarrow> edit_field" where
  "find_field [] k = \<lparr>edit_key = k, val = [], original = []\<rparr>"
| "find_field (f # fs) k = (if edit_key f = k then f else find_field fs k)"

definition text_part :: "edit_field list \<Rightarrow> string \<Rightarrow> (string \<times> json) list" where
  "text_part fs k = (let f = find_field fs k in
     if changed f then [(k, if trim (val f) = [] then JNull else JStr (trim (val f)))] else [])"

text \<open>\<open>Inl\<close>: the status line shown and the save abandoned.\<close>

definition number_part :: "edit_field list \<Rightarrow> string \<Rightarrow> string + (string \<times> json) list" where
  "number_part fs k = (let f = find_field fs k in
     if \<not> changed f then Inr []
     else if trim (val f) = [] then Inr [(k, JNull)]
     else case parse_int (val f) of None \<Rightarrow> Inl (k @ '' must be a whole number'') | Some n \<Rightarrow> Inr [(k, JNum n)])"

definition policy_part :: "edit_field list \<Rightarrow> (string \<times> json) list" where
  "policy_part fs = (let p = find_field fs ''restart_policy_name''; r = find_field fs ''restart_policy_retry'' in
     if changed p \<or> changed r then
       [(''restart_policy'', JObj ((''Name'', JStr (val p)) #
         (if val p = ''on-failure'' then (case parse_int (val r) of None \<Rightarrow> [] | Some n \<Rightarrow> [(''MaximumRetryCount'', JNum n)])
          else [])))]
     else [])"

text \<open>The body of a save; an empty one is not sent.\<close>

definition save_body :: "edit_field list \<Rightarrow> string + (string \<times> json) list" where
  "save_body fs = res_bind (number_part fs ''cpu_shares'') (\<lambda>a. res_bind (number_part fs ''pids_limit'') (\<lambda>b.
     Inr (text_part fs ''memory'' @ text_part fs ''memory_reservation'' @ text_part fs ''cpus'' @ a @ b @ policy_part fs)))"

section \<open>Inspect\<close>

text \<open>The rename button: \<open>Inl\<close> is the error thrown, else the address posted to.\<close>

definition rename_url :: "string \<Rightarrow> string \<Rightarrow> string \<Rightarrow> string + string" where
  "rename_url cid old new_name = (if new_name = old then Inl ''Name unchanged''
     else Inr (''/api/containers/'' @ cid @ ''/rename?name='' @ encode_uri new_name))"

definition env_entry :: "string \<Rightarrow> string \<times> string" where
  "env_entry e = (let p = split_on CHR ''='' e in (hd p, join ''='' (tl p)))"

definition mount_entry :: "string \<times> string \<times> string \<times> bool \<Rightarrow> string \<times> string" where
  "mount_entry m = (case m of (dest, src, ty, rw) \<Rightarrow> (dest, src @ '' ('' @ ty @ (if rw then '',rw'' else '',ro'') @ '')''))"

section \<open>Polls\<close>

text \<open>
  Stats and processes: a refresh is skipped while one is in flight; a 3 s interval calls it, and clears
  itself when the detail view is gone (\<open>Tick False\<close>). On an error whose message names a stopped or missing container the code clears \<open>refreshTimer\<close>.
\<close>

record poll =
  poll_in_flight :: bool
  poll_out :: nat
  poll_id :: nat
  poll_timers :: timers

datatype poll_event = Tick bool | PollOk | PollFailed string

definition stops :: "string \<Rightarrow> bool" where
  "stops msg = (has_sub msg ''not running'' \<or> has_sub msg ''not found'' \<or> has_sub msg ''unreachable'')"

definition start_poll :: "timers \<Rightarrow> poll" where
  "start_poll tm = (let (i, tm') = managed_interval (clear_all_intervals tm) in
     \<lparr>poll_in_flight = True, poll_out = 1, poll_id = i, poll_timers = tm'\<rparr>)"

fun poll_step :: "poll \<Rightarrow> poll_event \<Rightarrow> poll" where
  "poll_step p (Tick present) = (if poll_id p \<notin> set (live (poll_timers p)) then p
     else if \<not> present then p\<lparr>poll_timers := clear_interval (Some (poll_id p)) (poll_timers p)\<rparr>
     else if poll_in_flight p then p
     else p\<lparr>poll_in_flight := True, poll_out := Suc (poll_out p)\<rparr>)"
| "poll_step p PollOk = (if poll_out p = 0 then p else p\<lparr>poll_in_flight := False, poll_out := poll_out p - 1\<rparr>)"
| "poll_step p (PollFailed msg) = (if poll_out p = 0 then p else
     (if stops msg then p\<lparr>poll_timers := clear_interval (refresh_timer (poll_timers p)) (poll_timers p)\<rparr> else p)
       \<lparr>poll_in_flight := False, poll_out := poll_out p - 1\<rparr>)"

interpretation detail_poll: single_flight poll_step poll_in_flight poll_out
proof (unfold_locales, goal_cases)
  case (1 p e)
  then show ?case by (cases e) auto
next
  case (2 p e)
  then show ?case by (cases e) auto
qed

text \<open>The cards of the stats grid.\<close>

definition stat_cards :: "(string \<Rightarrow> string) \<Rightarrow> (string \<times> string) list" where
  "stat_cards s = [(''CPU'', s ''cpu_percent'' @ ''%''), (''Memory'', s ''mem_usage_mb'' @ '' MB''),
     (''Mem Limit'', s ''mem_limit_mb'' @ '' MB''), (''Mem %'', s ''mem_percent'' @ ''%''),
     (''Net RX'', s ''net_rx_mb'' @ '' MB''), (''Net TX'', s ''net_tx_mb'' @ '' MB''),
     (''Disk Read'', s ''blk_read_mb'' @ '' MB''), (''Disk Write'', s ''blk_write_mb'' @ '' MB'')]"

section \<open>Files\<close>

definition strip_slashes :: "string \<Rightarrow> string" where
  "strip_slashes p = rev (dropWhile (\<lambda>c. c = CHR ''/'') (rev p))"

definition next_path :: "string \<Rightarrow> string \<Rightarrow> string" where
  "next_path p n = strip_slashes p @ ''/'' @ n"

definition parent_path :: "string \<Rightarrow> string" where
  "parent_path p = or_str (join ''/'' (butlast (split_on CHR ''/'' (strip_slashes p)))) ''/''"

fun crumb_paths :: "string \<Rightarrow> string list \<Rightarrow> (string \<times> string) list" where
  "crumb_paths acc [] = []"
| "crumb_paths acc (p # ps) = (p, acc @ ''/'' @ p) # crumb_paths (acc @ ''/'' @ p) ps"

definition breadcrumb :: "string \<Rightarrow> (string \<times> string) list" where
  "breadcrumb path = (''/'', ''/'') # crumb_paths [] (nonempty (split_on CHR ''/'' path))"

datatype entry_type = Dir | Link | File | Other

record dir_entry =
  ename :: string
  etype :: entry_type
  etarget :: string
  esize :: int
  emode :: string

definition entry_label :: "dir_entry \<Rightarrow> string" where
  "entry_label e = ename e @ (if etype e = Link \<and> etarget e \<noteq> [] then '' '' @ [CHR 0xE2, CHR 0x86, CHR 0x92] @ '' '' @ etarget e else [])"

definition entry_size :: "dir_entry \<Rightarrow> string" where
  "entry_size e = (if etype e = File then format_bytes (esize e) else [])"

text \<open>What a click on the name opens, and the addresses of download and delete.\<close>

definition entry_opens :: "string \<Rightarrow> dir_entry \<Rightarrow> string option" where
  "entry_opens path e = (if etype e = Dir \<or> etype e = Link then Some (next_path path (ename e)) else None)"

definition file_url :: "string \<Rightarrow> string \<Rightarrow> string" where
  "file_url cid full = ''/api/containers/'' @ cid @ ''/files?path='' @ encode_uri full"

definition entry_actions :: "string \<Rightarrow> string \<Rightarrow> dir_entry \<Rightarrow> (string \<times> string \<times> string) list" where
  "entry_actions cid path e = (let full = next_path path (ename e) in
     (if etype e = File \<or> etype e = Link then [(''GET'', file_url cid full, ename e @ ''.tar'')] else []) @
     (if etype e \<noteq> Other then [(''DELETE'', file_url cid full, ''del-file-'' @ cid @ ''-'' @ full)] else []))"

definition diff_class :: "string \<Rightarrow> string" where
  "diff_class kind = ''status '' @ (if kind = ''Added'' then ''running'' else if kind = ''Deleted'' then ''exited'' else ''created'')"

section \<open>Lemmas\<close>

lemma unit_index_exact:
  assumes "1 \<le> k" and "k < 1024" and "i \<le> mx" and "j \<le> i"
  shows "unit_index mx (k * 1024 ^ i) j = i"
  using assms(4)
proof (induction "i - j" arbitrary: j)
  case 0
  then have "j = i" by simp
  have "\<not> 1024 ^ Suc i \<le> k * 1024 ^ i" using assms(2) by simp
  then show ?case using \<open>j = i\<close> by (subst unit_index.simps) (simp del: power_Suc)
next
  case (Suc d)
  have "(1024 :: int) ^ Suc j \<le> 1024 ^ i" using Suc by (intro power_increasing) auto
  also have "\<dots> \<le> k * 1024 ^ i" using assms(1) by simp
  finally have "unit_index mx (k * 1024 ^ i) j = unit_index mx (k * 1024 ^ i) (Suc j)"
    using Suc assms(3) by (subst unit_index.simps) simp
  then show ?case using Suc by simp
qed

lemma find_field_changed: "changed (find_field fs k) \<Longrightarrow> find_field fs k \<in> set fs \<and> edit_key (find_field fs k) = k"
  by (induction fs) (auto simp: changed_def)

lemma text_part_keys: "kv \<in> set (text_part fs k) \<Longrightarrow> fst kv = k \<and> changed (find_field fs k)"
  by (auto simp: text_part_def Let_def split: if_splits)

lemma number_part_keys: "number_part fs k = Inr xs \<Longrightarrow> kv \<in> set xs \<Longrightarrow> fst kv = k \<and> changed (find_field fs k)"
  by (auto simp: number_part_def Let_def split: if_splits option.splits)

lemma strip_no_slash: "s = [] \<or> last s \<noteq> CHR ''/'' \<Longrightarrow> strip_slashes s = s"
  by (cases s rule: rev_cases) (auto simp: strip_slashes_def)

lemma split_last: "c \<notin> set t \<Longrightarrow> split_on c (s @ c # t) = split_on c s @ [t]"
proof (induction s)
  case (Cons x s)
  then show ?case
    by (cases "split_on c s") (auto split: list.splits)
qed (simp add: split_on_no_sep)

lemma poll_id_step [simp]: "poll_id (poll_step p e) = poll_id p"
  by (cases e) auto

lemma poll_alive: "list_all (\<lambda>e. e \<noteq> Tick False) es \<Longrightarrow> poll_id p \<in> set (live (poll_timers p)) \<Longrightarrow> refresh_timer (poll_timers p) = None \<Longrightarrow>
    poll_id (run_events poll_step p es) \<in> set (live (poll_timers (run_events poll_step p es)))"
proof (induction es arbitrary: p)
  case (Cons e es)
  then have "poll_id (poll_step p e) \<in> set (live (poll_timers (poll_step p e)))"
    "refresh_timer (poll_timers (poll_step p e)) = None"
    by (cases e; auto simp: clear_interval_def)+
  then show ?case using Cons by simp
qed simp

section \<open>Properties\<close>

text \<open>
  A whole quantity is shown exactly: k times 1024 to the power i is the number k with the i-th unit, for
  every k below 1024 and every unit up to Ti.
\<close>

theorem fmt_bytes_exact:
  assumes "1 \<le> k" and "k < 1024" and "i \<le> 4"
  shows "fmt_bytes (k * 1024 ^ i) = show_int k @ iec_units ! i"
proof -
  have "unit_index 4 (k * 1024 ^ i) 0 = i" using unit_index_exact [OF assms(1,2,3), of 0] by simp
  moreover have "k * 1024 ^ i \<noteq> 0" using assms(1) by simp
  ultimately show ?thesis by (simp add: fmt_bytes_def Let_def)
qed

theorem fmt_bytes_exact_witness: "fmt_bytes (256 * 1024 ^ 2) = show_int 256 @ iec_units ! 2"
  using fmt_bytes_exact [of 256 2] by simp

text \<open>
  Saving sends only what the user changed: every key of the body belongs to a changed input, an unchanged
  form sends nothing, reverting makes the form unchanged, and a limit that is not a number is never sent.
\<close>

theorem save_sends_only_changes:
  assumes "save_body fs = Inr body"
  shows "(\<forall>(k, v) \<in> set body. changed (find_field fs k) \<or>
      (k = ''restart_policy'' \<and> (changed (find_field fs ''restart_policy_name'') \<or> changed (find_field fs ''restart_policy_retry'')))) \<and>
    (\<not> has_changes fs \<longrightarrow> body = []) \<and> \<not> has_changes (revert fs)"
proof -
  obtain a b where a: "number_part fs ''cpu_shares'' = Inr a" and b: "number_part fs ''pids_limit'' = Inr b"
    and body: "body = text_part fs ''memory'' @ text_part fs ''memory_reservation'' @ text_part fs ''cpus'' @ a @ b @ policy_part fs"
    using assms by (auto simp: save_body_def res_bind_Inr_iff)
  have pol: "fst kv = ''restart_policy'' \<and> (changed (find_field fs ''restart_policy_name'') \<or> changed (find_field fs ''restart_policy_retry''))"
    if "kv \<in> set (policy_part fs)" for kv
    using that by (auto simp: policy_part_def Let_def split: if_splits)
  have keys: "changed (find_field fs (fst kv)) \<or> (fst kv = ''restart_policy'' \<and>
      (changed (find_field fs ''restart_policy_name'') \<or> changed (find_field fs ''restart_policy_retry'')))"
    if "kv \<in> set body" for kv
    using that text_part_keys [of kv fs] number_part_keys [OF a, of kv] number_part_keys [OF b, of kv] pol [of kv]
    unfolding body by fastforce
  moreover have "body = []" if "\<not> has_changes fs"
  proof (rule ccontr)
    assume "body \<noteq> []"
    then obtain kv where "kv \<in> set body" by (cases body) auto
    from keys [OF this] obtain k where "changed (find_field fs k)" by blast
    with find_field_changed [OF this] that show False by (auto simp: has_changes_def list_ex_iff)
  qed
  moreover have "\<not> has_changes (revert fs)" by (auto simp: has_changes_def revert_def changed_def list_ex_iff)
  ultimately show ?thesis by fastforce
qed

theorem save_sends_only_changes_witness:
  "\<not> has_changes (revert [\<lparr>edit_key = ''memory'', val = ''1Gi'', original = ''512Mi''\<rparr>])"
proof -
  have "save_body [\<lparr>edit_key = ''memory'', val = ''1Gi'', original = ''512Mi''\<rparr>] = Inr [(''memory'', JStr (trim ''1Gi''))]
      \<or> save_body [\<lparr>edit_key = ''memory'', val = ''1Gi'', original = ''512Mi''\<rparr>] = Inr [(''memory'', JNull)]"
    by (simp add: save_body_def number_part_def text_part_def policy_part_def changed_def Let_def)
  then show ?thesis using save_sends_only_changes by blast
qed

text \<open>
  The check that a limit "must be a whole number" accepts any text that starts with one: the digits are
  sent and the rest is dropped.
\<close>

theorem number_check_lenient:
  assumes "rest \<noteq> []" and "\<not> is_digit (hd rest)" and "\<not> is_space (last rest)" and "original f \<noteq> val f"
    and "val f = show_nat n @ rest" and "edit_key f = k"
  shows "number_part [f] k = Inr [(k, JNum (int n))]"
proof -
  obtain c r where cr: "show_nat n = c # r" by (cases "show_nat n") auto
  then have d: "is_digit c" using show_nat_digits [of c n] by simp
  then have c: "\<not> is_space c" "c \<noteq> CHR ''-''" "c \<noteq> CHR ''+''"
    by (auto simp: is_digit_def is_space_def Let_def)
  have "takeWhile is_digit (show_nat n @ rest) = show_nat n @ takeWhile is_digit rest"
    by (intro takeWhile_append2) (auto dest: show_nat_digits)
  also have "takeWhile is_digit rest = []" using assms(1,2) by (cases rest) auto
  finally have "parse_digits (show_nat n @ rest) = Some n"
    by (simp add: parse_digits_def Let_def)
  then have "parse_int (val f) = Some (int n)" using assms(5) cr c by (simp add: parse_int_def)
  moreover have "trim (val f) = val f" using assms(1,3,5) cr c by (intro trim_id) auto
  ultimately show ?thesis using assms(4-6) by (simp add: number_part_def changed_def Let_def)
qed

theorem number_check_lenient_witness:
  "number_part [\<lparr>edit_key = ''pids_limit'', val = show_nat 12 @ ''abc'', original = []\<rparr>] ''pids_limit'' = Inr [(''pids_limit'', JNum 12)]"
  using number_check_lenient [of "''abc''" "\<lparr>edit_key = ''pids_limit'', val = show_nat 12 @ ''abc'', original = []\<rparr>" 12 "''pids_limit''"]
  by (simp add: is_digit_def is_space_def)

text \<open>
  Opening an entry and going up returns to the directory, and the breadcrumb of a path ends in the path
  itself.
\<close>

theorem browse_roundtrip:
  assumes "n \<noteq> []" and "CHR ''/'' \<notin> set n"
  shows "parent_path (next_path p n) = or_str (strip_slashes p) ''/'' \<and>
    (breadcrumb (''/'' @ n) = [(''/'', ''/''), (n, ''/'' @ n)]) \<and>
    strip_slashes (next_path p n) = next_path p n"
proof -
  have "last n \<noteq> CHR ''/''"
    using assms last_in_set by metis
  then have st: "strip_slashes (next_path p n) = next_path p n"
    using assms by (intro strip_no_slash) (simp add: next_path_def)
  have "split_on CHR ''/'' (next_path p n) = split_on CHR ''/'' (strip_slashes p) @ [n]"
    using split_last [OF assms(2), of "strip_slashes p"] by (simp add: next_path_def)
  then have "parent_path (next_path p n) = or_str (strip_slashes p) ''/''"
    by (simp add: parent_path_def st)
  moreover have "breadcrumb (''/'' @ n) = [(''/'', ''/''), (n, ''/'' @ n)]"
    using assms by (simp add: breadcrumb_def split_on_no_sep nonempty_def)
  ultimately show ?thesis using st by simp
qed

theorem browse_roundtrip_witness: "parent_path (next_path ''/var'' ''log'') = or_str (strip_slashes ''/var'') ''/''"
  using browse_roundtrip [of "''log''" "''/var''"] by simp

text \<open>
  The poll of a detail tab never has two requests out, and while the view stands nothing stops it: on
  the error that says the container is gone the code clears the list's timer, and its own keeps firing.
\<close>

theorem detail_poll_never_stops:
  assumes "list_all (\<lambda>e. e \<noteq> Tick False) es"
  shows "let p = run_events poll_step (start_poll tm) es in
     poll_out p \<le> 1 \<and> poll_id p \<in> set (live (poll_timers p))"
proof -
  have "poll_id (start_poll tm) \<in> set (live (poll_timers (start_poll tm)))"
    "refresh_timer (poll_timers (start_poll tm)) = None"
    by (simp_all add: start_poll_def managed_interval_def)
  moreover have "poll_out (start_poll tm) = (if poll_in_flight (start_poll tm) then 1 else 0)"
    by (simp add: start_poll_def managed_interval_def)
  ultimately show ?thesis
    using poll_alive [OF assms] detail_poll.run_at_most_one unfolding Let_def by blast
qed

theorem detail_poll_never_stops_witness:
  "let p = run_events poll_step (start_poll timers_init) [PollFailed ''Container not found'', Tick True] in
     poll_id p \<in> set (live (poll_timers p))"
proof -
  have "list_all (\<lambda>e. e \<noteq> Tick False) [PollFailed ''Container not found'', Tick True]" by simp
  from detail_poll_never_stops [OF this, of timers_init] show ?thesis unfolding Let_def by blast
qed

end
