(* ===== verification/CspStyle.thy ===== *)
theory CspStyle
  imports Store
begin

text \<open>
  The inline-style helper of ui.js: under a strict content security policy no element may carry a style of
  its own, so \<open>setStyle\<close> gives each element a class \<open>_csp_N\<close> and writes to a rule for that class inserted into
  a style sheet, and an observer moves style attributes that arrive with markup. What a declaration text
  parses to, which values the browser accepts and what it computes without a rule are parameters.
\<close>

section \<open>The sheet\<close>

type_synonym decls = "(string \<times> string) list"

text \<open>A sheet of the document: its address (empty when it has none) and whether its rules may be read.\<close>

record sheet_info =
  sheet_href :: string
  readable :: bool

fun first_index :: "('a \<Rightarrow> bool) \<Rightarrow> 'a list \<Rightarrow> nat \<Rightarrow> nat option" where
  "first_index P [] i = None"
| "first_index P (x # xs) i = (if P x then Some i else first_index P xs (Suc i))"

definition pick_sheet :: "sheet_info list \<Rightarrow> nat option" where
  "pick_sheet ds = (case first_index (\<lambda>d. has_sub (sheet_href d) ''/static/styles.css'') ds 0 of
      Some i \<Rightarrow> Some i
    | None \<Rightarrow> first_index readable ds 0)"

text \<open>
  \<open>class_map\<close> is the WeakMap from elements (numbered) to classes, \<open>class_rules\<close> the map from classes to
  rules; a rule is its index in \<open>inserted\<close>, the selectors and declarations of the rules added to the sheet.
  \<open>class_list\<close> records the classes added to elements.
\<close>

record styles =
  sheet :: "nat option"
  class_map :: "(nat \<times> string) list"
  class_rules :: "(string \<times> nat) list"
  class_count :: nat
  inserted :: "(string \<times> decls) list"
  class_list :: "(nat \<times> string) list"

definition styles_init :: styles where
  "styles_init = \<lparr>sheet = None, class_map = [], class_rules = [], class_count = 0, inserted = [], class_list = []\<rparr>"

definition csp_class :: "nat \<Rightarrow> string" where
  "csp_class i = ''_csp_'' @ show_nat i"

definition get_sheet :: "sheet_info list \<Rightarrow> styles \<Rightarrow> styles" where
  "get_sheet ds st = (if sheet st \<noteq> None then st else st\<lparr>sheet := pick_sheet ds\<rparr>)"

definition name_node :: "nat \<Rightarrow> styles \<Rightarrow> string \<times> styles" where
  "name_node n st = (let c = csp_class (Suc (class_count st)) in
     (c, st\<lparr>class_count := Suc (class_count st), class_list := class_list st @ [(n, c)],
       class_map := alist_set n c (class_map st)\<rparr>))"

definition insert_rule :: "string \<Rightarrow> styles \<Rightarrow> nat \<times> styles" where
  "insert_rule c st = (let i = length (inserted st) in
     (i, st\<lparr>inserted := inserted st @ [(''.'' @ c, [])], class_rules := alist_set c i (class_rules st)\<rparr>))"

definition known_rule :: "nat \<Rightarrow> styles \<Rightarrow> nat option" where
  "known_rule n st = (case map_of (class_map st) n of None \<Rightarrow> None | Some c \<Rightarrow> map_of (class_rules st) c)"

definition rule_for :: "sheet_info list \<Rightarrow> nat \<Rightarrow> styles \<Rightarrow> nat option \<times> styles" where
  "rule_for ds n st = (case known_rule n st of
      Some r \<Rightarrow> (Some r, st)
    | None \<Rightarrow>
        let st1 = get_sheet ds st in
        if sheet st1 = None then (None, st1)
        else let (c, st2) = (case map_of (class_map st1) n of Some c \<Rightarrow> (c, st1) | None \<Rightarrow> name_node n st1);
                 (r, st3) = insert_rule c st2
             in (Some r, st3))"

section \<open>\<open>setStyle\<close> and \<open>getStyle\<close>\<close>

text \<open>\<open>_toKebab\<close>: each capital becomes a hyphen and its small letter.\<close>

definition is_capital :: "char \<Rightarrow> bool" where
  "is_capital c = (65 \<le> (of_char c :: nat) \<and> (of_char c :: nat) \<le> 90)"

definition to_kebab :: "string \<Rightarrow> string" where
  "to_kebab s = concat (map (\<lambda>c. if is_capital c then ''-'' @ [lower_char c] else [c]) s)"

record browser =
  parse_decls :: "string \<Rightarrow> decls"
  accepts :: "string \<Rightarrow> string \<Rightarrow> bool"
  computed :: "nat \<Rightarrow> string \<Rightarrow> string"

text \<open>The two call shapes; \<open>None\<close> is a null value.\<close>

datatype style_arg = CssText string | Prop string "string option"

definition apply_style :: "browser \<Rightarrow> style_arg \<Rightarrow> decls \<Rightarrow> decls" where
  "apply_style b arg ds = (case arg of
      CssText s \<Rightarrow> parse_decls b s
    | Prop p None \<Rightarrow> alist_del (to_kebab p) ds
    | Prop p (Some v) \<Rightarrow> if v = [] then alist_del (to_kebab p) ds
        else if accepts b (to_kebab p) v then alist_set (to_kebab p) v ds else ds)"

definition set_style :: "browser \<Rightarrow> sheet_info list \<Rightarrow> nat \<Rightarrow> style_arg \<Rightarrow> styles \<Rightarrow> styles" where
  "set_style b ds n arg st = (case rule_for ds n st of
      (None, st1) \<Rightarrow> st1
    | (Some r, st1) \<Rightarrow>
        st1\<lparr>inserted := (inserted st1)[r := (fst (inserted st1 ! r), apply_style b arg (snd (inserted st1 ! r)))]\<rparr>)"

text \<open>The declarations of the rule an element has, if any.\<close>

definition style_of :: "styles \<Rightarrow> nat \<Rightarrow> decls option" where
  "style_of st n = map_option (\<lambda>r. snd (inserted st ! r)) (known_rule n st)"

text \<open>What reaches an element: the declarations of the rules whose selector is a class on the element, in the order of the sheet.\<close>

definition matches :: "styles \<Rightarrow> nat \<Rightarrow> string \<times> decls \<Rightarrow> bool" where
  "matches st n r = list_ex (\<lambda>(m, c). m = n \<and> fst r = ''.'' @ c) (class_list st)"

definition applied :: "styles \<Rightarrow> nat \<Rightarrow> decls list" where
  "applied st n = map snd (filter (matches st n) (inserted st))"

definition get_style :: "browser \<Rightarrow> nat \<Rightarrow> string \<Rightarrow> styles \<Rightarrow> string" where
  "get_style b n p st = (case style_of st n of
      None \<Rightarrow> computed b n (to_kebab p)
    | Some ds \<Rightarrow> (case map_of ds (to_kebab p) of
          None \<Rightarrow> computed b n (to_kebab p)
        | Some v \<Rightarrow> if v \<noteq> [] then v else computed b n (to_kebab p)))"

section \<open>The migrator\<close>

text \<open>A subtree of the document: its element, its style attribute (empty: none or blank), its children.\<close>

datatype styled = Styled nat string "styled list" | Other

fun migrate :: "browser \<Rightarrow> sheet_info list \<Rightarrow> styled \<Rightarrow> styles \<Rightarrow> styled \<times> styles"
  and migrate_all :: "browser \<Rightarrow> sheet_info list \<Rightarrow> styled list \<Rightarrow> styles \<Rightarrow> styled list \<times> styles"
where
  "migrate b ds Other st = (Other, st)"
| "migrate b ds (Styled n a ts) st =
     (let st1 = (if a \<noteq> [] then set_style b ds n (CssText a) st else st);
          (ts', st2) = migrate_all b ds ts st1
      in (Styled n [] ts', st2))"
| "migrate_all b ds [] st = ([], st)"
| "migrate_all b ds (t # ts) st =
     (let (t', st1) = migrate b ds t st; (ts', st2) = migrate_all b ds ts st1 in (t' # ts', st2))"

section \<open>Lemmas\<close>

lemma csp_class_inj: "csp_class i = csp_class j \<longleftrightarrow> i = j"
proof
  assume "csp_class i = csp_class j"
  then have "parse_int (show_nat i) = parse_int (show_nat j)" by (simp add: csp_class_def)
  then show "i = j" by simp
qed simp

text \<open>Classes are numbered, no two elements share one, and a class's rule is the one with its selector.\<close>

definition classes_ok :: "styles \<Rightarrow> bool" where
  "classes_ok st \<longleftrightarrow>
     (\<forall>n c. map_of (class_map st) n = Some c \<longrightarrow> (\<exists>i. i \<le> class_count st \<and> c = csp_class i)) \<and>
     (\<forall>n m c. map_of (class_map st) n = Some c \<and> map_of (class_map st) m = Some c \<longrightarrow> n = m)"

definition rules_ok :: "styles \<Rightarrow> bool" where
  "rules_ok st \<longleftrightarrow> (\<forall>c r. map_of (class_rules st) c = Some r \<longrightarrow>
     r < length (inserted st) \<and> fst (inserted st ! r) = ''.'' @ c)"

lemma name_node_ok: "classes_ok st \<Longrightarrow> map_of (class_map st) n = None \<Longrightarrow> classes_ok (snd (name_node n st))"
  by (auto simp: classes_ok_def name_node_def Let_def map_of_alist_set csp_class_inj)
    (fastforce simp: csp_class_inj le_Suc_eq)+

lemma insert_rule_ok: "rules_ok st \<Longrightarrow> rules_ok (snd (insert_rule c st))"
  by (auto simp: rules_ok_def insert_rule_def Let_def map_of_alist_set nth_append split: if_splits)
    (auto dest: less_SucI)

lemma known_rule_inj:
  assumes "classes_ok st" and "rules_ok st" and "known_rule n st = Some r" and "known_rule m st = Some r"
  shows "n = m"
proof -
  obtain c d where c: "map_of (class_map st) n = Some c" "map_of (class_rules st) c = Some r"
    and d: "map_of (class_map st) m = Some d" "map_of (class_rules st) d = Some r"
    using assms(3,4) by (auto simp: known_rule_def split: option.splits)
  then have "''.'' @ c = ''.'' @ d" using assms(2) unfolding rules_ok_def by metis
  then have "c = d" by simp
  with c d assms(1) show ?thesis by (auto simp: classes_ok_def)
qed

lemma style_of_insert:
  assumes "rules_ok st" and "map_of (class_rules st) c = None"
  shows "style_of (snd (insert_rule c st)) m =
    (if map_of (class_map st) m = Some c then Some [] else style_of st m)"
proof (cases "map_of (class_map st) m")
  case (Some d)
  show ?thesis
  proof (cases "map_of (class_rules st) d")
    case None
    with Some show ?thesis by (simp add: style_of_def known_rule_def insert_rule_def Let_def map_of_alist_set)
  next
    case (Some r)
    with assms \<open>map_of (class_map st) m = Some d\<close> have "r < length (inserted st)" "d \<noteq> c"
      by (auto simp: rules_ok_def)
    with Some \<open>map_of (class_map st) m = Some d\<close> show ?thesis
      by (simp add: style_of_def known_rule_def insert_rule_def Let_def map_of_alist_set nth_append)
  qed
qed (simp add: style_of_def known_rule_def insert_rule_def Let_def)

lemma sheet_frame [simp]: "classes_ok (st\<lparr>sheet := i\<rparr>) = classes_ok st" "rules_ok (st\<lparr>sheet := i\<rparr>) = rules_ok st"
  "style_of (st\<lparr>sheet := i\<rparr>) = style_of st" "known_rule n (st\<lparr>sheet := i\<rparr>) = known_rule n st"
  by (simp_all add: classes_ok_def rules_ok_def style_of_def known_rule_def fun_eq_iff split: option.splits)

lemma insert_frame [simp]: "classes_ok (snd (insert_rule c st)) = classes_ok st"
  "class_map (snd (insert_rule c st)) = class_map st" "sheet (snd (insert_rule c st)) = sheet st"
  "map_of (class_rules (snd (insert_rule c st))) c = Some (fst (insert_rule c st))"
  by (simp_all add: classes_ok_def insert_rule_def Let_def map_of_alist_set)

lemma name_frame [simp]: "rules_ok (snd (name_node n st)) = rules_ok st" "sheet (snd (name_node n st)) = sheet st"
  "class_rules (snd (name_node n st)) = class_rules st"
  "map_of (class_map (snd (name_node n st))) m =
     (if m = n then Some (fst (name_node n st)) else map_of (class_map st) m)"
  by (simp_all add: rules_ok_def name_node_def Let_def map_of_alist_set)

text \<open>Every class with a rule has an element: a fresh class has none, so its rule is new.\<close>

definition rules_named :: "styles \<Rightarrow> bool" where
  "rules_named st \<longleftrightarrow> (\<forall>c r. map_of (class_rules st) c = Some r \<longrightarrow> (\<exists>i. i \<le> class_count st \<and> c = csp_class i))"

definition styles_inv :: "styles \<Rightarrow> bool" where
  "styles_inv st \<longleftrightarrow> classes_ok st \<and> rules_ok st \<and> rules_named st"

lemma styles_init_inv: "styles_inv styles_init"
  by (simp add: styles_inv_def classes_ok_def rules_ok_def rules_named_def styles_init_def)

lemma fresh_class: "rules_named st \<Longrightarrow> map_of (class_rules st) (fst (name_node n st)) = None"
  by (cases "map_of (class_rules st) (fst (name_node n st))")
    (auto simp: rules_named_def name_node_def Let_def csp_class_inj)

lemma insert_named: "rules_named st \<Longrightarrow> i \<le> class_count st \<Longrightarrow> rules_named (snd (insert_rule (csp_class i) st))"
  by (auto simp: rules_named_def insert_rule_def Let_def map_of_alist_set)

lemma name_named: "rules_named st \<Longrightarrow> rules_named (snd (name_node n st))"
  by (auto simp: rules_named_def name_node_def Let_def intro: le_SucI)

lemma name_others: "classes_ok st \<Longrightarrow> map_of (class_map (snd (name_node n st))) m = Some (fst (name_node n st)) \<longleftrightarrow> m = n"
  by (auto simp: classes_ok_def) (fastforce simp: name_node_def Let_def csp_class_inj)

lemma style_of_name: "m \<noteq> n \<Longrightarrow> style_of (snd (name_node n st)) m = style_of st m"
  by (auto simp: style_of_def known_rule_def name_node_def Let_def map_of_alist_set split: option.splits)

lemma name_count: "fst (name_node n st) = csp_class (class_count (snd (name_node n st)))"
  by (simp add: name_node_def Let_def)

text \<open>Inserting the missing rule of an element gives it empty declarations and touches no other element.\<close>

lemma fresh_rule:
  assumes inv: "styles_inv st" and none: "known_rule n st = None"
    and c: "(c, st1) = (case map_of (class_map st) n of Some c \<Rightarrow> (c, st) | None \<Rightarrow> name_node n st)"
  shows "styles_inv (snd (insert_rule c st1)) \<and>
    known_rule n (snd (insert_rule c st1)) = Some (fst (insert_rule c st1)) \<and>
    style_of (snd (insert_rule c st1)) = (style_of st)(n \<mapsto> [])"
proof (cases "map_of (class_map st) n")
  case None
  then have cs: "c = fst (name_node n st)" "st1 = snd (name_node n st)" using c by (metis fst_conv option.simps(4), metis snd_conv option.simps(4))
  have "styles_inv st1" using inv None by (simp add: cs styles_inv_def name_node_ok name_named)
  moreover have "map_of (class_rules st1) c = None" using inv fresh_class [of st n] by (simp add: cs styles_inv_def)
  moreover have "style_of (snd (insert_rule c st1)) m = ((style_of st)(n \<mapsto> [])) m" for m
    using style_of_insert [of st1 c m] calculation name_others [of st n m] style_of_name [of m n st] inv
    by (auto simp: cs styles_inv_def)
  moreover have "rules_named (snd (insert_rule c st1))"
    using insert_named [of st1 "class_count st1"] calculation(1) by (simp add: cs name_count styles_inv_def)
  ultimately show ?thesis
    by (auto simp: styles_inv_def insert_rule_ok known_rule_def cs fun_eq_iff)
next
  case (Some d)
  then have cs: "c = d" "st1 = st" using c by simp_all
  have r: "map_of (class_rules st) d = None" using none Some by (simp add: known_rule_def)
  obtain i where i: "i \<le> class_count st" "d = csp_class i"
    using inv Some by (auto simp: styles_inv_def classes_ok_def)
  have "map_of (class_map st) m = Some d \<longleftrightarrow> m = n" for m
    using inv Some by (auto simp: styles_inv_def classes_ok_def)
  then have "style_of (snd (insert_rule c st1)) m = ((style_of st)(n \<mapsto> [])) m" for m
    using style_of_insert [of st d m] inv r by (simp add: cs styles_inv_def)
  then show ?thesis
    using inv Some insert_named [of st i] i by (auto simp: cs styles_inv_def insert_rule_ok known_rule_def fun_eq_iff)
qed

lemma rule_for_spec:
  assumes "styles_inv st" and "pick_sheet ds \<noteq> None"
  shows "\<exists>r st1. rule_for ds n st = (Some r, st1) \<and> styles_inv st1 \<and> known_rule n st1 = Some r \<and>
    style_of st1 = (style_of st)(n \<mapsto> (case style_of st n of None \<Rightarrow> [] | Some d \<Rightarrow> d))"
proof (cases "known_rule n st")
  case (Some r)
  with assms show ?thesis by (auto simp: rule_for_def style_of_def fun_eq_iff)
next
  case None
  obtain i where i: "get_sheet ds st = st\<lparr>sheet := Some i\<rparr>"
  proof (cases "sheet st")
    case None
    with assms(2) show thesis by (intro that [of "the (pick_sheet ds)"]) (simp add: get_sheet_def)
  next
    case (Some j)
    then have "get_sheet ds st = st\<lparr>sheet := Some j\<rparr>" by (cases st) (simp add: get_sheet_def)
    then show thesis by (rule that)
  qed
  let ?st0 = "st\<lparr>sheet := Some i\<rparr>"
  have inv: "styles_inv ?st0" using assms(1) by (simp add: styles_inv_def rules_named_def)
  obtain c st1 where c: "(c, st1) = (case map_of (class_map ?st0) n of Some c \<Rightarrow> (c, ?st0) | None \<Rightarrow> name_node n ?st0)"
    by (metis prod.exhaust)
  obtain r st2 where st2: "insert_rule c st1 = (r, st2)" by (metis prod.exhaust)
  have "rule_for ds n st = (Some r, st2)"
    using None c st2 by (simp add: rule_for_def i Let_def split: prod.splits) (metis Pair_inject)
  moreover have "style_of st n = None" using None by (simp add: style_of_def)
  ultimately show ?thesis using fresh_rule [OF inv _ c] None st2 by simp
qed

lemma known_rule_inserted [simp]: "known_rule m (st\<lparr>inserted := x\<rparr>) = known_rule m st"
  by (simp add: known_rule_def split: option.splits)

lemma style_of_update:
  assumes "styles_inv st" and "known_rule n st = Some r" and "f = (\<lambda>p. (fst p, g (snd p)))"
  shows "style_of (st\<lparr>inserted := (inserted st)[r := f (inserted st ! r)]\<rparr>) = (style_of st)(n \<mapsto> g (the (style_of st n)))"
    and "styles_inv (st\<lparr>inserted := (inserted st)[r := f (inserted st ! r)]\<rparr>)"
proof -
  let ?st = "st\<lparr>inserted := (inserted st)[r := f (inserted st ! r)]\<rparr>"
  have len: "r < length (inserted st)"
    using assms(1,2) by (auto simp: styles_inv_def rules_ok_def known_rule_def split: option.splits)
  have "style_of ?st m = ((style_of st)(n \<mapsto> g (the (style_of st n)))) m" for m
  proof (cases "known_rule m st")
    case (Some q)
    have "q = r \<longleftrightarrow> m = n" using known_rule_inj [of st n r m] Some assms(1,2) by (auto simp: styles_inv_def)
    with Some len assms(2,3) show ?thesis by (auto simp: style_of_def)
  qed (use assms(2) in \<open>auto simp: style_of_def\<close>)
  then show "style_of ?st = (style_of st)(n \<mapsto> g (the (style_of st n)))" by blast
  have "fst ((inserted st)[r := f (inserted st ! r)] ! q) = fst (inserted st ! q)" if "q < length (inserted st)" for q
    using that len assms(3) by (simp add: nth_list_update)
  then show "styles_inv ?st"
    using assms(1) by (auto simp: styles_inv_def classes_ok_def rules_ok_def rules_named_def)
qed

definition style_call :: "browser \<Rightarrow> (nat \<rightharpoonup> decls) \<Rightarrow> nat \<times> style_arg \<Rightarrow> (nat \<rightharpoonup> decls)" where
  "style_call b m c = m(fst c \<mapsto> apply_style b (snd c) (case m (fst c) of None \<Rightarrow> [] | Some d \<Rightarrow> d))"

lemma set_style_refines:
  assumes "styles_inv st" and "pick_sheet ds \<noteq> None"
  shows "styles_inv (set_style b ds n arg st) \<and>
    style_of (set_style b ds n arg st) = style_call b (style_of st) (n, arg)"
proof -
  obtain r st1 where r: "rule_for ds n st = (Some r, st1)" "styles_inv st1" "known_rule n st1 = Some r"
    "style_of st1 = (style_of st)(n \<mapsto> (case style_of st n of None \<Rightarrow> [] | Some d \<Rightarrow> d))"
    using rule_for_spec [OF assms] by blast
  let ?f = "\<lambda>p. (fst p, apply_style b arg (snd p))"
  have "set_style b ds n arg st = st1\<lparr>inserted := (inserted st1)[r := ?f (inserted st1 ! r)]\<rparr>"
    using r(1) by (simp add: set_style_def)
  then show ?thesis
    using style_of_update [OF r(2,3), of ?f "apply_style b arg"] r(4) by (simp add: style_call_def)
qed

lemma style_run_refines:
  assumes "pick_sheet ds \<noteq> None"
  shows "styles_inv st \<Longrightarrow> styles_inv (run_events (\<lambda>st (n, a). set_style b ds n a st) st cs) \<and>
    style_of (run_events (\<lambda>st (n, a). set_style b ds n a st) st cs) = run_events (style_call b) (style_of st) cs"
  by (induction cs arbitrary: st) (use set_style_refines [OF _ assms] in \<open>auto\<close>)

text \<open>The calls a subtree stands for, in document order, and its elements.\<close>

fun inline_calls :: "styled \<Rightarrow> (nat \<times> style_arg) list" where
  "inline_calls Other = []"
| "inline_calls (Styled n a ts) = (if a \<noteq> [] then [(n, CssText a)] else []) @ concat (map inline_calls ts)"

fun no_inline :: "styled \<Rightarrow> bool" where
  "no_inline Other = True"
| "no_inline (Styled n a ts) = (a = [] \<and> list_all no_inline ts)"

lemma migrate_calls:
  "no_inline (fst (migrate b ds t st)) \<and>
     snd (migrate b ds t st) = run_events (\<lambda>st (n, a). set_style b ds n a st) st (inline_calls t)"
  "list_all no_inline (fst (migrate_all b ds ts st)) \<and>
     snd (migrate_all b ds ts st) = run_events (\<lambda>st (n, a). set_style b ds n a st) st (concat (map inline_calls ts))"
proof (induction b ds t st and b ds ts st rule: migrate_migrate_all.induct)
  case (2 b ds n a ts st)
  then show ?case by (auto simp: Let_def split: prod.splits)
next
  case (4 b ds t ts st)
  then show ?case by (auto simp: Let_def split: prod.splits)
qed auto

lemma run_style_calls_other: "n \<notin> fst ` set cs \<Longrightarrow> run_events (style_call b) m cs n = m n"
  by (induction cs arbitrary: m) (auto simp: style_call_def)

lemma run_style_calls:
  "distinct (map fst cs) \<Longrightarrow> (n, CssText s) \<in> set cs \<Longrightarrow> run_events (style_call b) m cs n = Some (parse_decls b s)"
proof (induction cs arbitrary: m)
  case (Cons c cs)
  show ?case
  proof (cases "c = (n, CssText s)")
    case True
    with Cons.prems have "n \<notin> fst ` set cs" by auto
    with True show ?thesis by (simp add: run_style_calls_other) (simp add: style_call_def apply_style_def)
  qed (use Cons in auto)
qed simp

section \<open>The sheet and the elements\<close>

text \<open>
  The two maps agree with the document: the classes on an element are those the code remembers, and each inserted rule is the one
  remembered for its class. So one rule at most applies to an element, the one remembered for it.
\<close>

definition doc_ok :: "styles \<Rightarrow> bool" where
  "doc_ok st \<longleftrightarrow> (\<forall>n c. (n, c) \<in> set (class_list st) \<longleftrightarrow> map_of (class_map st) n = Some c) \<and>
     (\<forall>r < length (inserted st). \<exists>c. fst (inserted st ! r) = ''.'' @ c \<and> map_of (class_rules st) c = Some r)"

lemma filter_single: "r < length xs \<Longrightarrow> (\<And>q. q < length xs \<Longrightarrow> P (xs ! q) \<longleftrightarrow> q = r) \<Longrightarrow> filter P xs = [xs ! r]"
proof (induction xs arbitrary: r)
  case (Cons x xs)
  show ?case
  proof (cases r)
    case 0
    with Cons.prems(2) [of 0] have "P x" by simp
    moreover have "\<not> P y" if y: "y \<in> set xs" for y
    proof -
      obtain q where "q < length xs" "y = xs ! q" using y by (auto simp: in_set_conv_nth)
      with Cons.prems(2) [of "Suc q"] 0 show ?thesis by simp
    qed
    ultimately show ?thesis using 0 by (simp add: filter_empty_conv)
  next
    case (Suc k)
    have "P (xs ! q) \<longleftrightarrow> q = k" if "q < length xs" for q using Cons.prems(2) [of "Suc q"] that Suc by simp
    with Cons.IH [of k] Cons.prems(1) Suc have "filter P xs = [xs ! k]" by simp
    with Cons.prems(2) [of 0] Suc show ?thesis by simp
  qed
qed simp

lemma applied_style_of:
  assumes "doc_ok st" and "rules_ok st"
  shows "applied st n = (case style_of st n of None \<Rightarrow> [] | Some d \<Rightarrow> [d])"
proof -
  have m: "matches st n (inserted st ! q) \<longleftrightarrow> known_rule n st = Some q" if q: "q < length (inserted st)" for q
  proof -
    obtain c where c: "fst (inserted st ! q) = ''.'' @ c" "map_of (class_rules st) c = Some q"
      using assms(1) q by (auto simp: doc_ok_def)
    have "matches st n (inserted st ! q) \<longleftrightarrow> (n, c) \<in> set (class_list st)"
      using c(1) by (auto simp: matches_def list_ex_iff)
    also have "\<dots> \<longleftrightarrow> map_of (class_map st) n = Some c" using assms(1) by (simp add: doc_ok_def)
    also have "\<dots> \<longleftrightarrow> known_rule n st = Some q"
    proof
      assume "known_rule n st = Some q"
      then obtain d where d: "map_of (class_map st) n = Some d" "map_of (class_rules st) d = Some q"
        by (auto simp: known_rule_def split: option.splits)
      with assms(2) c(1) have "d = c" by (auto simp: rules_ok_def)
      with d show "map_of (class_map st) n = Some c" by simp
    qed (simp add: known_rule_def c(2))
    finally show ?thesis .
  qed
  show ?thesis
  proof (cases "known_rule n st")
    case None
    have "\<not> matches st n x" if x: "x \<in> set (inserted st)" for x
    proof -
      obtain q where "q < length (inserted st)" "x = inserted st ! q" using x by (auto simp: in_set_conv_nth)
      with m [of q] None show ?thesis by simp
    qed
    then have "filter (matches st n) (inserted st) = []" by (simp add: filter_empty_conv)
    with None show ?thesis by (simp add: applied_def style_of_def)
  next
    case (Some r)
    then have "r < length (inserted st)" using assms(2) by (auto simp: known_rule_def rules_ok_def split: option.splits)
    from filter_single [OF this, of "matches st n"] m Some have "filter (matches st n) (inserted st) = [inserted st ! r]" by auto
    with Some show ?thesis by (simp add: applied_def style_of_def)
  qed
qed

lemma name_doc: "doc_ok st \<Longrightarrow> map_of (class_map st) n = None \<Longrightarrow> doc_ok (snd (name_node n st))"
  by (auto simp: doc_ok_def name_node_def Let_def map_of_alist_set)

lemma insert_doc:
  assumes "doc_ok st" and "map_of (class_rules st) c = None"
  shows "doc_ok (snd (insert_rule c st))"
proof -
  have "\<exists>d. fst ((inserted st @ [(''.'' @ c, [])]) ! r) = ''.'' @ d \<and> map_of (alist_set c (length (inserted st)) (class_rules st)) d = Some r"
    if r: "r < Suc (length (inserted st))" for r
  proof (cases "r = length (inserted st)")
    case True
    then show ?thesis by (intro exI [of _ c]) (simp add: map_of_alist_set)
  next
    case False
    with r have lt: "r < length (inserted st)" by simp
    with assms(1) obtain d where d: "fst (inserted st ! r) = ''.'' @ d" "map_of (class_rules st) d = Some r"
      by (auto simp: doc_ok_def)
    with assms(2) have "d \<noteq> c" by auto
    with d lt show ?thesis by (intro exI [of _ d]) (simp add: nth_append map_of_alist_set)
  qed
  then show ?thesis using assms(1) unfolding doc_ok_def insert_rule_def Let_def by simp
qed

lemma get_sheet_doc [simp]: "doc_ok (get_sheet ds st) = doc_ok st" "class_map (get_sheet ds st) = class_map st"
  "class_rules (get_sheet ds st) = class_rules st"
  by (simp_all add: get_sheet_def doc_ok_def)

lemma get_sheet_named: "rules_named (get_sheet ds st) = rules_named st"
  by (simp add: get_sheet_def rules_named_def)

lemma rule_for_doc:
  assumes "doc_ok st" and "rules_named st"
  shows "doc_ok (snd (rule_for ds n st))"
proof (cases "known_rule n st")
  case None
  let ?st1 = "get_sheet ds st"
  have "doc_ok (snd (insert_rule c st2))"
    if c: "(c, st2) = (case map_of (class_map ?st1) n of Some c \<Rightarrow> (c, ?st1) | None \<Rightarrow> name_node n ?st1)" for c st2
  proof (cases "map_of (class_map ?st1) n")
    case None
    then have st2: "st2 = snd (name_node n ?st1)" "c = fst (name_node n ?st1)" using c by (metis option.simps(4) snd_conv, metis option.simps(4) fst_conv)
    have "doc_ok st2" using assms(1) None unfolding st2 by (intro name_doc) simp_all
    moreover have "map_of (class_rules st2) c = None"
      using assms(2) fresh_class [of ?st1 n] by (simp add: st2 get_sheet_named)
    ultimately show ?thesis by (rule insert_doc)
  next
    case (Some d)
    with c None assms(1) show ?thesis by (intro insert_doc) (simp_all add: known_rule_def)
  qed
  then show ?thesis using None assms(1) by (simp add: rule_for_def Let_def split: prod.split) (metis snd_conv)
qed (simp add: rule_for_def assms(1))

lemma update_selectors: "q < length xs \<Longrightarrow> fst (xs[r := (fst (xs ! r), d)] ! q) = fst (xs ! q)"
  by (cases "q = r") simp_all

lemma set_style_doc:
  assumes "doc_ok st" and "rules_named st"
  shows "doc_ok (set_style b ds n arg st)"
proof -
  obtain r st1 where r: "rule_for ds n st = (r, st1)" by (metis prod.exhaust)
  have "doc_ok st1" using rule_for_doc [OF assms, of ds n] by (simp add: r)
  then show ?thesis by (simp add: set_style_def r doc_ok_def update_selectors split: option.split)
qed

lemma style_run_doc:
  assumes "pick_sheet ds \<noteq> None"
  shows "doc_ok st \<Longrightarrow> styles_inv st \<Longrightarrow> doc_ok (run_events (\<lambda>st (n, a). set_style b ds n a st) st cs)"
proof (induction cs arbitrary: st)
  case (Cons c cs)
  with set_style_refines [OF _ assms, of st b "fst c" "snd c"] set_style_doc [of st b ds "fst c" "snd c"] show ?case
    by (simp add: styles_inv_def split_beta)
qed simp

section \<open>Properties\<close>

text \<open>
  C26: setting styles through the shared sheet is setting them on the elements. Whenever the document has a sheet to write to, after any
  sequence of calls on any elements, the rules of the sheet that match an element's classes are none when it was never styled, and
  otherwise exactly one, which holds the element's own declarations: those its own calls alone produce, in order. (Other rules of the
  page's style sheet aside, and as long as nothing overwrites the class attribute of a styled element: the sources assign it before they
  set styles, as \<open>UI.el\<close> does on purpose.)
\<close>

theorem set_style_is_per_element:
  assumes "pick_sheet ds \<noteq> None"
  shows "applied (run_events (\<lambda>st (n, a). set_style b ds n a st) styles_init cs) n =
      (case run_events (style_call b) Map.empty cs n of None \<Rightarrow> [] | Some d \<Rightarrow> [d]) \<and>
    style_of (run_events (\<lambda>st (n, a). set_style b ds n a st) styles_init cs) = run_events (style_call b) Map.empty cs"
proof -
  let ?st = "run_events (\<lambda>st (n, a). set_style b ds n a st) styles_init cs"
  have "style_of styles_init = Map.empty" by (simp add: style_of_def known_rule_def styles_init_def fun_eq_iff)
  then have inv: "styles_inv ?st" "style_of ?st = run_events (style_call b) Map.empty cs"
    using style_run_refines [OF assms styles_init_inv, of b cs] by simp_all
  have "doc_ok styles_init" by (simp add: doc_ok_def styles_init_def)
  from style_run_doc [OF assms this styles_init_inv, of b cs] inv(1) have "applied ?st n = (case style_of ?st n of None \<Rightarrow> [] | Some d \<Rightarrow> [d])"
    by (intro applied_style_of) (simp_all add: styles_inv_def)
  then show ?thesis unfolding inv(2) by blast
qed

theorem set_style_is_per_element_witness:
  "applied (run_events (\<lambda>st (n, a). set_style \<lparr>parse_decls = \<lambda>s. [], accepts = \<lambda>p v. True, computed = \<lambda>n p. []\<rparr>
     [\<lparr>sheet_href = ''/static/styles.css'', readable = True\<rparr>] n a st) styles_init
     [(1, Prop ''maxWidth'' (Some ''4px'')), (2, Prop ''color'' (Some ''red''))]) 1 = [[(''max-width'', ''4px'')]]"
proof -
  have sh: "pick_sheet [\<lparr>sheet_href = ''/static/styles.css'', readable = True\<rparr>] \<noteq> None" by (simp add: pick_sheet_def)
  have kebab: "to_kebab ''maxWidth'' = ''max-width''" "to_kebab ''color'' = ''color''" by code_simp+
  from conjunct1 [OF set_style_is_per_element [OF sh, of "\<lparr>parse_decls = \<lambda>s. [], accepts = \<lambda>p v. True,
      computed = \<lambda>n p. []\<rparr>" "[(1, Prop ''maxWidth'' (Some ''4px'')), (2, Prop ''color'' (Some ''red''))]" 1]]
  show ?thesis by (simp add: kebab style_call_def apply_style_def alist_set_def)
qed

text \<open>
  The migrator loses no style: after it has run over a subtree that arrived with markup, no element
  carries a style attribute, and each one that did has exactly the declarations of that attribute.
\<close>

theorem migrate_keeps_styles:
  assumes "pick_sheet ds \<noteq> None" and "styles_inv st" and "distinct (map fst (inline_calls t))"
  shows "no_inline (fst (migrate b ds t st)) \<and>
    (\<forall>n s. (n, CssText s) \<in> set (inline_calls t) \<longrightarrow> style_of (snd (migrate b ds t st)) n = Some (parse_decls b s)) \<and>
    (\<forall>n. n \<notin> fst ` set (inline_calls t) \<longrightarrow> style_of (snd (migrate b ds t st)) n = style_of st n)"
  using migrate_calls(1) [of b ds t st] style_run_refines [OF assms(1,2), of b "inline_calls t"]
    run_style_calls [OF assms(3)] run_style_calls_other by metis

theorem migrate_keeps_styles_witness:
  "style_of (snd (migrate \<lparr>parse_decls = \<lambda>s. [(s, s)], accepts = \<lambda>p v. True, computed = \<lambda>n p. []\<rparr>
     [\<lparr>sheet_href = ''/static/styles.css'', readable = True\<rparr>]
     (Styled 0 [] [Styled 1 ''color:red'' [], Other]) styles_init)) 1 = Some [(''color:red'', ''color:red'')]"
proof -
  have "pick_sheet [\<lparr>sheet_href = ''/static/styles.css'', readable = True\<rparr>] \<noteq> None" by (simp add: pick_sheet_def)
  moreover have "distinct (map fst (inline_calls (Styled 0 [] [Styled 1 ''color:red'' [], Other])))" by simp
  ultimately show ?thesis
    using migrate_keeps_styles [OF _ styles_init_inv, of "[\<lparr>sheet_href = ''/static/styles.css'', readable = True\<rparr>]"
      "Styled 0 [] [Styled 1 ''color:red'' [], Other]"] by simp
qed

end
