(* ===== verification/HubSearch.thy ===== *)
theory HubSearch
  imports Dom
begin

text \<open>
  The Docker Hub search of app.js (\<open>buildHubSearch\<close>): the popular images, the search and its rows, the tag
  panel with its filter, which asks the server when no recent tag matches, and the rows' markup, which is
  built as HTML text with every foreign string passed through \<open>esc\<close>.
\<close>

section \<open>Markup\<close>

definition popular_images :: "(string \<times> string) list" where
  "popular_images = [(''nginx'', ''Web server''), (''postgres'', ''SQL database''), (''redis'', ''In-memory cache''),
     (''alpine'', ''Minimal Linux''), (''ubuntu'', ''Ubuntu Linux''), (''mysql'', ''MySQL database''),
     (''node'', ''Node.js runtime''), (''python'', ''Python runtime'')]"

definition span_html :: "string \<Rightarrow> string \<Rightarrow> string" where
  "span_html style s = ''<span style='' @ dquote @ style @ dquote @ ''>'' @ s @ ''</span>''"

definition chip_html :: "string \<times> string \<Rightarrow> string" where
  "chip_html img = ''<strong>'' @ esc (fst img) @ ''</strong>'' @
     span_html ''color:var(--muted)'' ('' '' @ [CHR 0xC2, CHR 0xB7] @ '' '' @ esc (snd img))"

definition tag_row_html :: "string \<Rightarrow> string" where
  "tag_row_html tg = span_html ''font-size:13px;font-family:monospace'' (esc tg) @
     span_html ''font-size:11px;color:var(--accent,#0d9488)'' (''Select '' @ [CHR 0xE2, CHR 0x86, CHR 0xB5])"

text \<open>\<open>Math.round(n / 1e6)\<close> and \<open>Math.round(n / 1e3)\<close>; no count, or zero, is the empty text.\<close>

definition pulls_text :: "int option \<Rightarrow> string" where
  "pulls_text n = (case n of None \<Rightarrow> [] | Some n \<Rightarrow>
     if n > 1000000 then show_int ((n + 500000) div 1000000) @ ''M''
     else if n > 1000 then show_int ((n + 500) div 1000) @ ''K''
     else if n = 0 then [] else show_int n)"

record hub_item =
  repo_name :: string
  item_name :: string
  short_description :: string
  pull_count :: "int option"

definition item_image :: "hub_item \<Rightarrow> string" where
  "item_image i = or_str (repo_name i) (item_name i)"

definition div_html :: "string \<Rightarrow> string \<Rightarrow> string" where
  "div_html style s = ''<div style='' @ dquote @ style @ dquote @ ''>'' @ s @ ''</div>''"

definition result_row_html :: "hub_item \<Rightarrow> string" where
  "result_row_html i = (let pulls = pulls_text (pull_count i) in
     div_html ''flex:1;min-width:0''
       (div_html ''font-size:13px;font-weight:500;white-space:nowrap;overflow:hidden;text-overflow:ellipsis'' (esc (item_image i)) @
        div_html ''font-size:11px;color:var(--muted);overflow:hidden;text-overflow:ellipsis'' (esc (short_description i))) @
     (if pulls \<noteq> [] then span_html ''font-size:11px;color:var(--muted);white-space:nowrap'' (esc pulls @ '' pulls'') else []))"

section \<open>The tag panel\<close>

definition tag_char :: "char \<Rightarrow> bool" where
  "tag_char c = (is_digit c \<or> (65 \<le> (of_char c :: nat) \<and> (of_char c :: nat) \<le> 90) \<or>
     (97 \<le> (of_char c :: nat) \<and> (of_char c :: nat) \<le> 122) \<or> c = CHR ''_'')"

text \<open>The tag grammar the code tests before it asks the server.\<close>

definition tag_grammar :: "string \<Rightarrow> bool" where
  "tag_grammar q = (case q of [] \<Rightarrow> False
     | c # s \<Rightarrow> tag_char c \<and> list_all (\<lambda>c. tag_char c \<or> c = CHR ''.'' \<or> c = CHR ''-'') s)"

definition local_matches :: "string list \<Rightarrow> string \<Rightarrow> string list" where
  "local_matches tags q = filter (\<lambda>tg. has_sub (to_lower tg) (to_lower q)) tags"

definition askable :: "string \<Rightarrow> bool" where
  "askable q = (\<not> length (to_lower q) < 2 \<and> tag_grammar q)"

datatype tag_view = TagRows "string list" | NoneRecent string nat | SearchingAll string | NoneAtAll string | TagSearchFailed

text \<open>
  \<open>asked\<close> is the query of the request that is out, \<open>answer\<close> the last answer that arrived. The panel is
  created with all tags shown.
\<close>

record tag_panel =
  panel_image :: string
  tags :: "string list"
  filter_text :: string
  fetch_pending :: bool
  asked :: string
  answer :: "(string \<times> string list) option"
  tag_view :: tag_view
  tag_requests :: "string list"

definition open_panel :: "string \<Rightarrow> string list \<Rightarrow> tag_panel" where
  "open_panel img ts = \<lparr>panel_image = img, tags = ts, filter_text = [], fetch_pending = False, asked = [],
     answer = None, tag_view = TagRows ts, tag_requests = []\<rparr>"

definition tags_url :: "string \<Rightarrow> string" where
  "tags_url img = ''/api/registry/tags?image='' @ encode_uri img"

definition render_tags :: "string \<Rightarrow> tag_panel \<Rightarrow> tag_panel" where
  "render_tags q p =
     (if to_lower q = [] then p\<lparr>tag_view := TagRows (tags p)\<rparr>
      else if local_matches (tags p) q \<noteq> [] then p\<lparr>tag_view := TagRows (local_matches (tags p) q)\<rparr>
      else if \<not> askable q then p\<lparr>tag_view := NoneRecent q (length (tags p))\<rparr>
      else if fetch_pending p then p
      else p\<lparr>fetch_pending := True, asked := q, tag_view := SearchingAll q,
             tag_requests := tag_requests p @ [tags_url (panel_image p) @ ''&name='' @ encode_uri q]\<rparr>)"

definition remote_answer :: "string list \<Rightarrow> tag_panel \<Rightarrow> tag_panel" where
  "remote_answer remote p0 = (let q = asked p0; p = p0\<lparr>fetch_pending := False, answer := Some (q, remote)\<rparr> in
     if filter_text p \<noteq> q then render_tags (filter_text p) p
     else if remote = [] then p\<lparr>tag_view := NoneAtAll q\<rparr>
     else p\<lparr>tag_view := TagRows remote\<rparr>)"

datatype tag_event = TypeTag string | RemoteTags "string list" | RemoteFailed

fun tag_step :: "tag_panel \<Rightarrow> tag_event \<Rightarrow> tag_panel" where
  "tag_step p (TypeTag q) = render_tags q (p\<lparr>filter_text := q\<rparr>)"
| "tag_step p (RemoteTags remote) = (if \<not> fetch_pending p then p else remote_answer remote p)"
| "tag_step p RemoteFailed = (if \<not> fetch_pending p then p
     else p\<lparr>fetch_pending := False, tag_view := TagSearchFailed\<rparr>)"

text \<open>The line beside the panel's title.\<close>

definition count_label :: "bool \<Rightarrow> nat option \<Rightarrow> string list \<Rightarrow> string" where
  "count_label truncated upstream ts =
     (if truncated \<and> (case upstream of Some n \<Rightarrow> n \<noteq> 0 | None \<Rightarrow> False)
      then ''showing '' @ show_nat (length ts) @ '' of '' @ show_nat (the upstream) @ '' tags '' @ em_dash @
        '' type to filter beyond the recent window''
      else if truncated then show_nat (length ts) @ ''+ tags (type to filter for older tags)''
      else show_nat (length ts) @ '' tags'')"

section \<open>The search\<close>

text \<open>
  The results area: what it shows and the requests that are out, in order. Each answer repaints the area when
  it arrives, whatever was asked since.
\<close>

datatype hub_request = AskTags string | AskSearch string

datatype hub_area = Empty | LoadingTags string | Searching | TagPanel "tag_panel option" string
  | HubResults "hub_item list" | NoResults | TagsFailed | SearchFailed

record hub =
  hub_input :: string
  area :: hub_area
  out_requests :: "hub_request list"
  selected_image :: "string option"

definition hub_init :: hub where
  "hub_init = \<lparr>hub_input = [], area = Empty, out_requests = [], selected_image = None\<rparr>"

definition show_tags :: "string \<Rightarrow> hub \<Rightarrow> hub" where
  "show_tags img h = h\<lparr>area := LoadingTags img, out_requests := out_requests h @ [AskTags img]\<rparr>"

definition do_search :: "hub \<Rightarrow> hub" where
  "do_search h = (let q = trim (hub_input h) in
     if q = [] then h else h\<lparr>area := Searching, out_requests := out_requests h @ [AskSearch q]\<rparr>)"

definition request_url :: "hub_request \<Rightarrow> string" where
  "request_url r = (case r of AskTags img \<Rightarrow> tags_url img | AskSearch q \<Rightarrow> ''/api/registry/search?q='' @ encode_uri q)"

text \<open>An image without tags has a panel with a title and no filter.\<close>

definition tags_arrived :: "string \<Rightarrow> string list \<Rightarrow> hub_area" where
  "tags_arrived img ts = TagPanel (if ts = [] then None else Some (open_panel img ts)) img"

definition results_arrived :: "hub_item list \<Rightarrow> hub_area" where
  "results_arrived items = (if items = [] then NoResults else HubResults items)"

definition drop_nth :: "nat \<Rightarrow> 'a list \<Rightarrow> 'a list" where
  "drop_nth i xs = take i xs @ drop (Suc i) xs"

text \<open>The images that can be clicked: the popular ones, always, and the rows of the results.\<close>

definition pickable :: "hub \<Rightarrow> string list" where
  "pickable h = map fst popular_images @ (case area h of HubResults items \<Rightarrow> map item_image items | _ \<Rightarrow> [])"

definition tag_rows :: "tag_panel \<Rightarrow> string list" where
  "tag_rows p = (case tag_view p of TagRows l \<Rightarrow> l | _ \<Rightarrow> [])"

text \<open>
  The events. \<open>Tags i ts\<close>, \<open>Results i items\<close>, \<open>Failed i\<close>: the i-th of the requests that are out is answered.
  Only a panel with tags has a Back that works: the text for an image without tags is added with
  \<open>innerHTML +=\<close>, which parses the panel again and drops the handler of its Back line.
\<close>

datatype hub_event = TypeHub string | EnterSearch | PickImage string | Tags nat "string list" | Results nat "hub_item list"
  | Failed nat | Back | PickTag string | InPanel tag_event

fun hub_step :: "hub \<Rightarrow> hub_event \<Rightarrow> hub" where
  "hub_step h (TypeHub s) = h\<lparr>hub_input := s\<rparr>"
| "hub_step h EnterSearch = do_search h"
| "hub_step h (PickImage img) = (if img \<in> set (pickable h) then show_tags img h else h)"
| "hub_step h (Tags i ts) = (if i < length (out_requests h)
     then (case out_requests h ! i of AskTags img \<Rightarrow>
         h\<lparr>out_requests := drop_nth i (out_requests h), area := tags_arrived img ts\<rparr> | AskSearch q \<Rightarrow> h) else h)"
| "hub_step h (Results i items) = (if i < length (out_requests h)
     then (case out_requests h ! i of AskSearch q \<Rightarrow>
         h\<lparr>out_requests := drop_nth i (out_requests h), area := results_arrived items\<rparr> | AskTags img \<Rightarrow> h) else h)"
| "hub_step h (Failed i) = (if i < length (out_requests h)
     then h\<lparr>out_requests := drop_nth i (out_requests h),
       area := (case out_requests h ! i of AskTags img \<Rightarrow> TagsFailed | AskSearch q \<Rightarrow> SearchFailed)\<rparr> else h)"
| "hub_step h Back = (case area h of TagPanel (Some p) img \<Rightarrow> h\<lparr>area := Empty\<rparr> | _ \<Rightarrow> h)"
| "hub_step h (PickTag tg) = (case area h of TagPanel (Some p) img \<Rightarrow>
       if tg \<in> set (tag_rows p) then h\<lparr>selected_image := Some (img @ '':'' @ tg), area := Empty, hub_input := []\<rparr> else h
     | _ \<Rightarrow> h)"
| "hub_step h (InPanel e) = (case area h of TagPanel (Some p) img \<Rightarrow> h\<lparr>area := TagPanel (Some (tag_step p e)) img\<rparr> | _ \<Rightarrow> h)"

text \<open>The section is hidden unless docker.io is among the allowed registries.\<close>

definition hub_allowed :: "string list \<Rightarrow> bool" where
  "hub_allowed regs = list_ex (\<lambda>r. (if r \<noteq> [] \<and> last r = CHR ''/'' then butlast r else r) = ''docker.io'') regs"

section \<open>Lemmas\<close>

text \<open>What the list should show for the text in the filter, given the last answer.\<close>

definition view_right :: "tag_panel \<Rightarrow> bool" where
  "view_right p = (let q = filter_text p in
     if q = [] then tag_view p = TagRows (tags p)
     else if local_matches (tags p) q \<noteq> [] then tag_view p = TagRows (local_matches (tags p) q)
     else if \<not> askable q then tag_view p = NoneRecent q (length (tags p))
     else (case answer p of None \<Rightarrow> False
       | Some (a, remote) \<Rightarrow> a = q \<and> tag_view p = (if remote = [] then NoneAtAll q else TagRows remote)))"

definition panel_inv :: "tag_panel \<Rightarrow> bool" where
  "panel_inv p \<longleftrightarrow> (if fetch_pending p
     then asked p \<noteq> [] \<and> local_matches (tags p) (asked p) = [] \<and> askable (asked p) else view_right p)"

lemma to_lower_Nil [simp]: "to_lower s = [] \<longleftrightarrow> s = []"
  by (simp add: to_lower_def)

lemma render_tags_inv: "filter_text p = q \<Longrightarrow> \<not> fetch_pending p \<or> panel_inv p \<Longrightarrow> panel_inv (render_tags q p)"
  by (auto simp: panel_inv_def render_tags_def view_right_def Let_def)

lemma tag_step_inv: "panel_inv p \<Longrightarrow> e \<noteq> RemoteFailed \<Longrightarrow> panel_inv (tag_step p e)"
proof (cases e)
  case (TypeTag q)
  assume "panel_inv p"
  then have "panel_inv (p\<lparr>filter_text := q\<rparr>) \<or> \<not> fetch_pending (p\<lparr>filter_text := q\<rparr>)" by (simp add: panel_inv_def)
  with TypeTag show ?thesis by (auto intro: render_tags_inv)
next
  case (RemoteTags remote)
  assume inv: "panel_inv p"
  show ?thesis
  proof (cases "fetch_pending p \<and> filter_text p = asked p")
    case True
    with inv RemoteTags show ?thesis by (auto simp: remote_answer_def panel_inv_def view_right_def Let_def)
  next
    case False
    with inv RemoteTags show ?thesis by (auto simp: remote_answer_def Let_def intro: render_tags_inv)
  qed
qed simp

lemma open_panel_inv: "panel_inv (open_panel img ts)"
  by (simp add: panel_inv_def view_right_def open_panel_def)

text \<open>The angle brackets of a piece of markup, in order: all the parser takes tags from.\<close>

definition angles :: "string \<Rightarrow> string" where
  "angles s = filter (\<lambda>c. c = CHR ''<'' \<or> c = CHR ''>'') s"

lemma angles_Nil [simp]: "angles [] = []"
  by (simp add: angles_def)

lemma angles_Cons [simp]: "angles (c # s) = (if c = CHR ''<'' \<or> c = CHR ''>'' then c # angles s else angles s)"
  by (simp add: angles_def)

lemma angles_append [simp]: "angles (s @ u) = angles s @ angles u"
  by (simp add: angles_def)

lemma angles_esc [simp]: "angles (esc s) = []"
  using esc_no_angle [of s] by (auto simp: angles_def filter_empty_conv)

lemma angles_span [simp]: "angles (span_html st s) = ''<'' @ angles st @ ''>'' @ angles s @ ''<>''"
  by (simp add: span_html_def)

lemma angles_div [simp]: "angles (div_html st s) = ''<'' @ angles st @ ''>'' @ angles s @ ''<>''"
  by (simp add: div_html_def)

section \<open>Properties\<close>

text \<open>
  The rows of the hub search cannot be injected into: whatever names, tags and descriptions the registry
  returns, the markup of a row has exactly the tags of the template (the same angle brackets in the same
  order as for empty strings); the popular images' chips as well.
\<close>

theorem hub_rows_no_injection:
  "angles (tag_row_html tg) = angles (tag_row_html []) \<and>
   angles (result_row_html i) = angles (result_row_html (i\<lparr>repo_name := [], item_name := [], short_description := []\<rparr>)) \<and>
   angles (chip_html img) = angles (chip_html ([], []))"
  by (simp add: tag_row_html_def result_row_html_def chip_html_def Let_def)

text \<open>
  The tag list is right for what is typed: as long as no request fails, whenever none is out the list
  shows all tags for an empty filter, the recent tags that match it, or the server's answer to that very
  text; an answer to an older text never stays.
\<close>

theorem tag_view_follows_filter:
  assumes "RemoteFailed \<notin> set es" and "\<not> fetch_pending (run_events tag_step (open_panel img ts) es)"
  shows "view_right (run_events tag_step (open_panel img ts) es)"
proof -
  have "panel_inv p \<Longrightarrow> panel_inv (run_events tag_step p es)" for p
    using assms(1) by (induction es arbitrary: p) (auto intro: tag_step_inv dest: not_sym)
  from this [OF open_panel_inv] show ?thesis using assms(2) by (simp add: panel_inv_def)
qed

theorem tag_view_follows_filter_witness:
  "tag_view (run_events tag_step (open_panel ''python'' [''latest'']) [TypeTag ''3.12'', RemoteTags [''3.12-slim'']]) =
     TagRows [''3.12-slim'']"
proof -
  have lm: "local_matches [''latest''] ''3.12'' = []" "askable ''3.12''" by code_simp+
  have "\<not> fetch_pending (run_events tag_step (open_panel ''python'' [''latest'']) [TypeTag ''3.12'', RemoteTags [''3.12-slim'']])"
    by (simp add: open_panel_def render_tags_def remote_answer_def Let_def lm)
  from tag_view_follows_filter [OF _ this] show ?thesis
    by (simp add: view_right_def Let_def open_panel_def render_tags_def remote_answer_def lm)
qed

text \<open>
  A request that fails after the user has typed on hides the tags that match: the failure is shown although
  the text in the filter matches recent tags.
\<close>

theorem tag_failure_hides_matches:
  assumes "local_matches ts q = []" and "askable q" and "r \<noteq> []" and "local_matches ts r \<noteq> []"
  shows "let p = run_events tag_step (open_panel img ts) [TypeTag q, TypeTag r, RemoteFailed] in
    filter_text p = r \<and> \<not> fetch_pending p \<and> tag_view p = TagSearchFailed \<and> \<not> view_right p"
proof -
  have "q \<noteq> []" using assms(2) by (auto simp: askable_def tag_grammar_def)
  then show ?thesis using assms by (auto simp: Let_def open_panel_def render_tags_def view_right_def)
qed

text \<open>
  The results area is repainted by the answer that arrives last, not by the one asked for last: of two images
  picked in a row, a slow answer to the first replaces the tags of the second.
\<close>

theorem hub_last_answer_wins:
  assumes "out_requests h = []" and "a \<in> set (map fst popular_images)" and "b \<in> set (map fst popular_images)"
  shows "area (run_events hub_step h [PickImage a, PickImage b, Tags 1 tb, Tags 0 ta]) = tags_arrived a ta"
  using assms by (simp add: show_tags_def drop_nth_def pickable_def)

text \<open>The panel of an image without tags cannot be left with its Back line.\<close>

theorem back_dead_without_tags:
  assumes "out_requests h = [AskTags img]"
  shows "area (run_events hub_step h [Tags 0 [], Back]) = TagPanel None img"
  using assms by (simp add: tags_arrived_def)

text \<open>
  Only what is shown can be selected: an image handed to the caller by a click on a tag is the panel's
  image with a tag that the panel shows, and the search is cleared with it.
\<close>

theorem picked_tag_was_shown:
  assumes "selected_image (hub_step h e) \<noteq> selected_image h"
  shows "\<exists>p img tg. area h = TagPanel (Some p) img \<and> tag_view p = TagRows (tag_rows p) \<and> tg \<in> set (tag_rows p) \<and>
    selected_image (hub_step h e) = Some (img @ '':'' @ tg) \<and> area (hub_step h e) = Empty \<and>
    hub_input (hub_step h e) = []"
proof (cases e)
  case (PickTag tg)
  then show ?thesis using assms
    by (auto split: hub_area.splits option.splits if_splits tag_view.splits simp: tag_rows_def)
qed (use assms in \<open>auto simp: do_search_def show_tags_def Let_def
       split: hub_area.splits option.splits if_splits hub_request.splits\<close>)

end
