(* ===== verification/Wizard.thy ===== *)
theory Wizard
  imports StatusBanner I18n
begin

text \<open>
  pages/wizard.js: the first-run wizard. The countdown of the setup window, which the client carries on
  between the polls of \<open>/api/setup-state\<close>; the life cycle of the generated token; the two tabs with the
  tunnel form; the submission. The wizard is a machine whose events are the clicks, the timers with the
  clock's value, and the answers of the server in any order.
\<close>

section \<open>Data\<close>

text \<open>What \<open>/api/setup-state\<close> answers; an absent field, or one of another type, is \<open>None\<close>.\<close>

record setup_state =
  configured :: bool
  from_env :: bool
  window_open :: "bool option"
  window_expires_in :: "int option"
  lockout_remaining_secs :: "int option"
  tunnel_active :: bool
  tunnel_socket :: "string option"

text \<open>\<open>d.detail\<close> of an error answer: absent (or falsy), a text, or \<open>{message, code, help}\<close>.\<close>

datatype detail = NoDetail | DetailText string | DetailObj string string string

record wizard =
  countdown :: string
  countdown_shown :: bool
  expired_look :: bool
  save_disabled :: bool
  session_disabled :: bool
  token_ack :: bool
  deadline_ms :: int
  local_tick :: bool
  poll_timer :: bool
  polls_out :: nat
  banners :: "unit banner"
  tunnel_panel :: bool
  sw_host :: string
  host_custom :: string
  ssh_target :: string
  sw_token :: string
  token_warned :: bool
  copy_label :: string
  clips_out :: nat
  sw_regs :: string
  tunnel_status :: "string list"
  tunnel_busy :: bool
  tunnel_asked :: "string list"
  detect_hint :: "string option"
  sw_error :: string
  error_shown :: bool
  env_files :: "string list"
  setups_out :: "(string \<times> string \<times> string) list"
  stored_token :: "string option"
  reloads :: nat

definition default_host :: string where
  "default_host = ''unix:///var/run/docker.sock''"

definition tick_mark :: string where
  "tick_mark = [CHR 0xE2, CHR 0x9C, CHR 0x93]"

definition cross_mark :: string where
  "cross_mark = [CHR 0xE2, CHR 0x9C, CHR 0x97]"

section \<open>The countdown\<close>

text \<open>\<open>_formatRemaining\<close>\<close>

definition format_remaining :: "int \<Rightarrow> string" where
  "format_remaining secs =
     (if 60 \<le> secs then let m = secs div 60; s = secs mod 60 in
        show_int m @ ''m '' @ (if s < 10 then ''0'' else []) @ show_int s @ ''s''
      else show_int secs @ ''s'')"

definition paint_countdown :: "int \<Rightarrow> wizard \<Rightarrow> wizard" where
  "paint_countdown secs w =
     (if secs \<le> 0 then w\<lparr>countdown := [], countdown_shown := False\<rparr>
      else w\<lparr>countdown := ''Setup window closes in '' @ format_remaining secs, countdown_shown := True\<rparr>)"

definition window_is_open :: "setup_state \<Rightarrow> bool" where
  "window_is_open st = (case window_open st of Some b \<Rightarrow> b
     | None \<Rightarrow> (case window_expires_in st of None \<Rightarrow> True | Some r \<Rightarrow> 0 < r))"

definition set_banner :: "int \<Rightarrow> string \<Rightarrow> string \<Rightarrow> int option \<Rightarrow> wizard \<Rightarrow> wizard" where
  "set_banner now key msg ms w = w\<lparr>banners := banner_set now key (Some \<lparr>opt_severity = ''error'', opt_message = msg,
     opt_action = None, expires_in_ms = ms\<rparr>) (banners w)\<rparr>"

definition clear_banner :: "int \<Rightarrow> string \<Rightarrow> wizard \<Rightarrow> wizard" where
  "clear_banner now key w = w\<lparr>banners := banner_clear now key (banners w)\<rparr>"

definition show_open :: "int \<Rightarrow> int \<Rightarrow> wizard \<Rightarrow> wizard" where
  "show_open now remaining w =
     (let w1 = paint_countdown remaining (w\<lparr>deadline_ms := now + remaining * 1000\<rparr>) in
      clear_banner now ''setup_window_expired''
        (w1\<lparr>local_tick := True, expired_look := False, save_disabled := False,
            session_disabled := (if token_ack w1 then False else session_disabled w1)\<rparr>))"

definition show_expired :: "int \<Rightarrow> wizard \<Rightarrow> wizard" where
  "show_expired now w =
     (let w1 = set_banner now ''setup_window_expired'' (t skiff_strings ''banner.setup_window_expired'' None) None
        (w\<lparr>countdown_shown := False, expired_look := True, save_disabled := True, session_disabled := True\<rparr>)
      in w1\<lparr>poll_timer := False, local_tick := False\<rparr>)"

definition show_lockout :: "int \<Rightarrow> setup_state \<Rightarrow> wizard \<Rightarrow> wizard" where
  "show_lockout now st w = (case lockout_remaining_secs st of
      None \<Rightarrow> clear_banner now ''setup_lockout'' w
    | Some s \<Rightarrow> if s > 0
        then set_banner now ''setup_lockout''
          (''Too many failed setup attempts '' @ em_dash @ '' try again in {seconds}s.'') (Some (s * 1000)) w
        else clear_banner now ''setup_lockout'' w)"

text \<open>\<open>_applyWizardState\<close>; \<open>closed_state\<close> is the object the local ticker passes when it reaches zero.\<close>

definition apply_wizard_state :: "int \<Rightarrow> setup_state \<Rightarrow> wizard \<Rightarrow> wizard" where
  "apply_wizard_state now st w = show_lockout now st
     (case window_expires_in st of
        None \<Rightarrow> show_expired now w
      | Some r \<Rightarrow> if window_is_open st then show_open now r w else show_expired now w)"

definition closed_state :: setup_state where
  "closed_state = \<lparr>configured = False, from_env = False, window_open = Some False, window_expires_in = Some 0,
     lockout_remaining_secs = None, tunnel_active = False, tunnel_socket = None\<rparr>"

definition secs_left :: "int \<Rightarrow> wizard \<Rightarrow> int" where
  "secs_left now w = max 0 (ceil_div (deadline_ms w - now) 1000)"

definition local_tick_at :: "int \<Rightarrow> wizard \<Rightarrow> wizard" where
  "local_tick_at now w = (if \<not> local_tick w then w
     else let s = secs_left now w; w1 = paint_countdown s w in
       if s \<le> 0 then apply_wizard_state now closed_state (w1\<lparr>local_tick := False\<rparr>) else w1)"

text \<open>\<open>_pollSetupState\<close>: the request, and its answer (an HTTP error and a network failure are ignored).\<close>

definition poll_setup_state :: "bool \<Rightarrow> wizard \<Rightarrow> wizard" where
  "poll_setup_state hidden w = (if hidden then w else w\<lparr>polls_out := Suc (polls_out w)\<rparr>)"

definition poll_answered :: "int \<Rightarrow> setup_state option \<Rightarrow> wizard \<Rightarrow> wizard" where
  "poll_answered now res w0 = (let w = w0\<lparr>polls_out := polls_out w0 - 1\<rparr> in
     case res of None \<Rightarrow> w
     | Some st \<Rightarrow> if configured st then w\<lparr>poll_timer := False\<rparr> else apply_wizard_state now st w)"

definition start_polling :: "int \<Rightarrow> setup_state \<Rightarrow> wizard \<Rightarrow> wizard" where
  "start_polling now st w = (apply_wizard_state now st w)\<lparr>poll_timer := True\<rparr>"

section \<open>The token\<close>

text \<open>\<open>b.toString(16).padStart(2, '0')\<close> of each of the 24 random bytes.\<close>

definition hex_lower :: "nat \<Rightarrow> char" where
  "hex_lower d = (if d < 10 then char_of (48 + d) else char_of (87 + d))"

definition byte_hex :: "nat \<Rightarrow> string" where
  "byte_hex b = [hex_lower (b div 16), hex_lower (b mod 16)]"

definition token_of :: "nat list \<Rightarrow> string" where
  "token_of bs = concat (map byte_hex bs)"

text \<open>Random bytes: \<open>crypto.getRandomValues(new Uint8Array(24))\<close>.\<close>

definition random_bytes :: "nat list \<Rightarrow> bool" where
  "random_bytes bs = (length bs = 24 \<and> list_all (\<lambda>b. b < 256) bs)"

definition generate_token :: "nat list \<Rightarrow> wizard \<Rightarrow> wizard" where
  "generate_token bs w = w\<lparr>sw_token := token_of bs, token_warned := True, session_disabled := True, token_ack := False\<rparr>"

definition unlock_session :: "wizard \<Rightarrow> wizard" where
  "unlock_session w = w\<lparr>session_disabled := False, token_ack := True\<rparr>"

definition copy_token :: "wizard \<Rightarrow> wizard" where
  "copy_token w = (if sw_token w = [] then w else (unlock_session w)\<lparr>clips_out := Suc (clips_out w)\<rparr>)"

definition copy_settled :: "bool \<Rightarrow> wizard \<Rightarrow> wizard" where
  "copy_settled ok w = (if clips_out w = 0 then w else w\<lparr>clips_out := clips_out w - 1,
     copy_label := (if ok then ''Copied!'' else ''Select + '' @ [CHR 0xE2, CHR 0x8C, CHR 0x98] @ ''C'')\<rparr>)"

section \<open>The tabs and the tunnel\<close>

definition set_mode :: "bool \<Rightarrow> wizard \<Rightarrow> wizard" where
  "set_mode is_tunnel w = (if is_tunnel then w\<lparr>tunnel_panel := True\<rparr>
     else w\<lparr>tunnel_panel := False, sw_host := or_str (trim (host_custom w)) default_host\<rparr>)"

definition type_custom :: "string \<Rightarrow> wizard \<Rightarrow> wizard" where
  "type_custom s w = (if tunnel_panel w then w\<lparr>host_custom := s\<rparr>
     else w\<lparr>host_custom := s, sw_host := or_str (trim s) default_host\<rparr>)"

text \<open>The answer of the probe for a local runtime; \<open>None\<close> when the request failed.\<close>

definition probe_answered :: "string list option \<Rightarrow> wizard \<Rightarrow> wizard" where
  "probe_answered res w = (case res of
      None \<Rightarrow> w
    | Some [] \<Rightarrow> w\<lparr>detect_hint := Some ''No runtime detected. Start one first (see Containers tab after setup for help).''\<rparr>
    | Some (h # hs) \<Rightarrow> w\<lparr>host_custom := h, sw_host := h,
        detect_hint := Some (tick_mark @ '' Runtime detected at '' @ h @
          (if hs \<noteq> [] then '' (and '' @ show_nat (length hs) @ '' other)'' else []))\<rparr>)"

definition connect_tunnel :: "wizard \<Rightarrow> wizard" where
  "connect_tunnel w = (if tunnel_busy w then w
     else let target = trim (ssh_target w) in
       if target = [] then w\<lparr>tunnel_status := [''Enter user@host first.'']\<rparr>
       else w\<lparr>tunnel_status := [''Connecting'' @ ellipsis], tunnel_busy := True, tunnel_asked := tunnel_asked w @ [target]\<rparr>)"

definition shell_command :: "string \<Rightarrow> string \<Rightarrow> string option" where
  "shell_command code target =
     (if code = ''host_key_mismatch'' then Some (''ssh '' @ target)
      else if code = ''no_key'' then Some (''ssh-keygen -t ed25519 && ssh-copy-id '' @ target)
      else if code = ''auth_failed'' then Some (''ssh-copy-id '' @ target)
      else None)"

text \<open>\<open>_renderTunnelError\<close>: the texts of the lines that are appended.\<close>

definition tunnel_error :: "detail \<Rightarrow> string \<Rightarrow> string list" where
  "tunnel_error d target =
     (let (code, msg, help) = (case d of
          NoDetail \<Rightarrow> (''other'', ''Connection failed'', [])
        | DetailText s \<Rightarrow> (''other'', or_str s ''Connection failed'', [])
        | DetailObj m c h \<Rightarrow> (or_str c ''other'', or_str m ''Connection failed'', h))
      in [cross_mark @ '' '' @ msg] @ (if help \<noteq> [] then [help] else []) @
         (case shell_command code target of None \<Rightarrow> []
          | Some cmd \<Rightarrow> [cmd, ''Run this in your terminal, then click Connect again. SKIFF never sees your password.'']))"

text \<open>
  The answers to \<open>POST /api/setup/tunnel\<close>: the socket path and the docker host, where a missing field reads
  \<open>undefined\<close>; an HTTP error with its detail; or no answer.
\<close>

datatype tunnel_answer = TunnelUp "string option" "string option" | TunnelRefused detail | TunnelUnreachable

definition undef_text :: "string option \<Rightarrow> string" where
  "undef_text x = (case x of None \<Rightarrow> ''undefined'' | Some s \<Rightarrow> s)"

definition tunnel_answered :: "tunnel_answer \<Rightarrow> wizard \<Rightarrow> wizard" where
  "tunnel_answered a w = (case tunnel_asked w of
      [] \<Rightarrow> w
    | target # rest \<Rightarrow>
        (case a of
           TunnelUp path dh \<Rightarrow> w\<lparr>tunnel_status := [tick_mark @ '' Tunnel active '' @ em_dash @ '' '' @ undef_text path],
             sw_host := undef_text dh\<rparr>
         | TunnelRefused d \<Rightarrow> w\<lparr>tunnel_status := tunnel_error d target\<rparr>
         | TunnelUnreachable \<Rightarrow> w\<lparr>tunnel_status := [cross_mark @ '' Could not reach server'']\<rparr>)
        \<lparr>tunnel_busy := False, tunnel_asked := rest\<rparr>)"

section \<open>The submission\<close>

definition show_error :: "string \<Rightarrow> wizard \<Rightarrow> wizard" where
  "show_error msg w = w\<lparr>sw_error := msg, error_shown := True\<rparr>"

definition env_file :: "string \<Rightarrow> string \<Rightarrow> string \<Rightarrow> string" where
  "env_file token host regs = join newline [''API_TOKEN='' @ token, ''DOCKER_HOST='' @ host,
     (if regs \<noteq> [] then ''ALLOWED_REGISTRIES='' @ regs else ''# ALLOWED_REGISTRIES=docker.io,ghcr.io''),
     ''# ALLOWED_ORIGINS=http://127.0.0.1:8080'', ''# AUDIT_LOG=./audit.jsonl'']"

definition tunnel_ready :: "wizard \<Rightarrow> bool" where
  "tunnel_ready w = starts_with tick_mark (concat (tunnel_status w))"

definition submit_host :: "wizard \<Rightarrow> string" where
  "submit_host w = (if tunnel_panel w then trim (sw_host w) else or_str (trim (host_custom w)) (trim (sw_host w)))"

text \<open>\<open>swSubmit\<close> up to the request: its bodies are (docker_host, api_token, allowed_registries).\<close>

definition sw_submit :: "bool \<Rightarrow> wizard \<Rightarrow> wizard" where
  "sw_submit save_env w0 =
     (let host = submit_host w0; token = trim (sw_token w0); regs = trim (sw_regs w0); w = w0\<lparr>error_shown := False\<rparr> in
      if tunnel_panel w \<and> \<not> tunnel_ready w
      then show_error ''Connect the SSH tunnel first, or switch to Local / Custom.'' w
      else if host = [] then show_error ''Docker host is required.'' w
      else if token = [] \<or> length token < 16
      then show_error ''Generate a token first (minimum 16 characters).'' w
      else w\<lparr>env_files := (if save_env then env_files w @ [env_file token host regs] else env_files w),
             setups_out := setups_out w @ [(host, token, regs)]\<rparr>)"

datatype setup_answer = SetupOk | SetupRefused detail | SetupUnreachable

definition setup_message :: "detail \<Rightarrow> string" where
  "setup_message d = (case d of
      NoDetail \<Rightarrow> ''Setup failed.''
    | DetailText s \<Rightarrow> or_str s ''Setup failed.''
    | DetailObj m c h \<Rightarrow> or_str m (or_str c ''Setup failed.''))"

text \<open>The i-th of the requests that are out is answered.\<close>

definition setup_answered :: "nat \<Rightarrow> setup_answer \<Rightarrow> wizard \<Rightarrow> wizard" where
  "setup_answered i a w0 = (if i < length (setups_out w0)
     then let token = fst (snd (setups_out w0 ! i));
              w = w0\<lparr>setups_out := take i (setups_out w0) @ drop (Suc i) (setups_out w0)\<rparr> in
       (case a of
          SetupOk \<Rightarrow> w\<lparr>stored_token := Some token, reloads := Suc (reloads w)\<rparr>
        | SetupRefused d \<Rightarrow> show_error (setup_message d) w
        | SetupUnreachable \<Rightarrow> show_error ''Could not reach server.'' w)
     else w0)"

section \<open>The wizard\<close>

text \<open>\<open>showSetupWizard\<close>: the page as it is built, the tab for a tunnel that is still open, the poll.\<close>

definition wizard_page :: wizard where
  "wizard_page = \<lparr>countdown = [], countdown_shown = False, expired_look = False, save_disabled = False,
     session_disabled = True, token_ack = False, deadline_ms = 0, local_tick = False, poll_timer = False,
     polls_out = 0, banners = banner_init, tunnel_panel = False, sw_host = [], host_custom = default_host,
     ssh_target = [], sw_token = [], token_warned = False, copy_label = ''Copy'', clips_out = 0, sw_regs = [],
     tunnel_status = [], tunnel_busy = False, tunnel_asked = [], detect_hint = None, sw_error = [],
     error_shown = False, env_files = [], setups_out = [], stored_token = None, reloads = 0\<rparr>"

definition show_setup_wizard :: "int \<Rightarrow> setup_state \<Rightarrow> wizard" where
  "show_setup_wizard now st = start_polling now st
     (if tunnel_active st
      then let sock = (case tunnel_socket st of Some s \<Rightarrow> or_str s ''/tmp/skiff-docker.sock''
                       | None \<Rightarrow> ''/tmp/skiff-docker.sock'') in
        (set_mode True wizard_page)\<lparr>sw_host := ''unix://'' @ sock,
          tunnel_status := [tick_mark @ '' Tunnel active '' @ em_dash @ '' '' @ sock]\<rparr>
      else wizard_page\<lparr>tunnel_status := [''Requires key-based SSH auth (no passphrase).''], sw_host := default_host\<rparr>)"

text \<open>\<open>checkSetupState\<close>: the wizard is shown only to a server without a configuration of its own.\<close>

definition check_setup_state :: "int \<Rightarrow> setup_state option \<Rightarrow> wizard option" where
  "check_setup_state now res = (case res of None \<Rightarrow> None
     | Some st \<Rightarrow> if \<not> configured st \<and> \<not> from_env st then Some (show_setup_wizard now st) else None)"

datatype wizard_event = LocalTick int | BannerTick int | PollTimer bool | TabVisible | PollAnswer int "setup_state option"
  | Generate "nat list" | CopyClick | CopySettled bool | CopyReset | LocalTab | TunnelTab | TypeCustom string
  | TypeTarget string | TypeRegs string | ProbeAnswer "string list option" | ConnectClick | TunnelAnswer tunnel_answer
  | SaveClick | SessionClick | SetupAnswer nat setup_answer

fun wizard_step :: "wizard \<Rightarrow> wizard_event \<Rightarrow> wizard" where
  "wizard_step w (LocalTick now) = local_tick_at now w"
| "wizard_step w (BannerTick now) = w\<lparr>banners := tick now (banners w)\<rparr>"
| "wizard_step w (PollTimer hidden) = (if poll_timer w then poll_setup_state hidden w else w)"
| "wizard_step w TabVisible = poll_setup_state False w"
| "wizard_step w (PollAnswer now res) = (if polls_out w = 0 then w else poll_answered now res w)"
| "wizard_step w (Generate bs) = (if random_bytes bs then generate_token bs w else w)"
| "wizard_step w CopyClick = copy_token w"
| "wizard_step w (CopySettled ok) = copy_settled ok w"
| "wizard_step w CopyReset = w\<lparr>copy_label := ''Copy''\<rparr>"
| "wizard_step w LocalTab = set_mode False w"
| "wizard_step w TunnelTab = set_mode True w"
| "wizard_step w (TypeCustom s) = type_custom s w"
| "wizard_step w (TypeTarget s) = w\<lparr>ssh_target := s\<rparr>"
| "wizard_step w (TypeRegs s) = w\<lparr>sw_regs := s\<rparr>"
| "wizard_step w (ProbeAnswer res) = probe_answered res w"
| "wizard_step w ConnectClick = connect_tunnel w"
| "wizard_step w (TunnelAnswer a) = tunnel_answered a w"
| "wizard_step w SaveClick = (if save_disabled w then w else sw_submit True w)"
| "wizard_step w SessionClick = (if session_disabled w then w else sw_submit False w)"
| "wizard_step w (SetupAnswer i a) = setup_answered i a w"

section \<open>Lemmas\<close>

lemma expired_text: "t skiff_strings ''banner.setup_window_expired'' None =
    ''Setup window expired '' @ em_dash @ '' restart the server to try again.''"
  by code_simp

lemma set_banner_get:
  "key \<noteq> [] \<Longrightarrow> msg \<noteq> [] \<Longrightarrow> get (banners (set_banner now key msg ms w)) k =
     (if k = key then Some \<lparr>severity = SevError, message = msg, action = None,
        expires_at = (case ms of None \<Rightarrow> None | Some n \<Rightarrow> if n = 0 then None else Some (now + n))\<rparr>
      else get (banners w) k)"
  by (simp add: set_banner_def banner_set_valid severity_of_def entry_of_def status_banner.lookup_put)

lemma clear_banner_get: "get (banners (clear_banner now key w)) k = (if k = key then None else get (banners w) k)"
  by (simp add: clear_banner_def status_banner.lookup_del)

lemma banners_timed [intro]:
  "timed_ticks (banners w) \<Longrightarrow> timed_ticks (banners (set_banner now key msg ms w))"
  "timed_ticks (banners w) \<Longrightarrow> timed_ticks (banners (clear_banner now key w))"
  "timed_ticks (banners w) \<Longrightarrow> timed_ticks (tick now (banners w))"
  using timed_ticks_step [of "banners w" "Set now key _"] timed_ticks_step [of "banners w" "Clear now key"]
    timed_ticks_step [of "banners w" "Tick now"] by (simp_all add: set_banner_def clear_banner_def)

text \<open>The two looks of the window: counting down with saving possible, or expired with its banner.\<close>

definition looks_open :: "wizard \<Rightarrow> bool" where
  "looks_open w \<longleftrightarrow> local_tick w \<and> \<not> expired_look w \<and> \<not> save_disabled w \<and>
     get (banners w) ''setup_window_expired'' = None"

definition looks_expired :: "wizard \<Rightarrow> bool" where
  "looks_expired w \<longleftrightarrow> \<not> local_tick w \<and> expired_look w \<and> save_disabled w \<and> \<not> countdown_shown w \<and>
     (\<exists>e. get (banners w) ''setup_window_expired'' = Some e \<and> expires_at e = None)"

definition window_inv :: "wizard \<Rightarrow> bool" where
  "window_inv w \<longleftrightarrow> timed_ticks (banners w) \<and> (looks_open w \<or> looks_expired w)"

lemmas window_defs = window_inv_def looks_open_def looks_expired_def

lemma banner_other_fields [simp]:
  "local_tick (set_banner now k m ms w) = local_tick w" "expired_look (set_banner now k m ms w) = expired_look w"
  "save_disabled (set_banner now k m ms w) = save_disabled w" "deadline_ms (set_banner now k m ms w) = deadline_ms w"
  "countdown_shown (set_banner now k m ms w) = countdown_shown w" "poll_timer (set_banner now k m ms w) = poll_timer w"
  "session_disabled (set_banner now k m ms w) = session_disabled w" "token_ack (set_banner now k m ms w) = token_ack w"
  "sw_token (set_banner now k m ms w) = sw_token w" "countdown (set_banner now k m ms w) = countdown w"
  "local_tick (clear_banner now k w) = local_tick w" "expired_look (clear_banner now k w) = expired_look w"
  "save_disabled (clear_banner now k w) = save_disabled w" "deadline_ms (clear_banner now k w) = deadline_ms w"
  "countdown_shown (clear_banner now k w) = countdown_shown w" "poll_timer (clear_banner now k w) = poll_timer w"
  "session_disabled (clear_banner now k w) = session_disabled w" "token_ack (clear_banner now k w) = token_ack w"
  "sw_token (clear_banner now k w) = sw_token w" "countdown (clear_banner now k w) = countdown w"
  by (simp_all add: set_banner_def clear_banner_def)

lemma show_lockout_fields [simp]:
  "local_tick (show_lockout now st w) = local_tick w" "expired_look (show_lockout now st w) = expired_look w"
  "save_disabled (show_lockout now st w) = save_disabled w" "deadline_ms (show_lockout now st w) = deadline_ms w"
  "countdown_shown (show_lockout now st w) = countdown_shown w" "poll_timer (show_lockout now st w) = poll_timer w"
  "session_disabled (show_lockout now st w) = session_disabled w" "token_ack (show_lockout now st w) = token_ack w"
  "sw_token (show_lockout now st w) = sw_token w" "countdown (show_lockout now st w) = countdown w"
  by (simp_all add: show_lockout_def split: option.splits)

lemma show_lockout_get: "k \<noteq> ''setup_lockout'' \<Longrightarrow> get (banners (show_lockout now st w)) k = get (banners w) k"
  by (simp add: show_lockout_def set_banner_get clear_banner_get split: option.splits)

lemma show_lockout_timed: "timed_ticks (banners w) \<Longrightarrow> timed_ticks (banners (show_lockout now st w))"
  by (auto simp: show_lockout_def split: option.splits)

lemma show_lockout_looks [simp]: "looks_open (show_lockout now st w) = looks_open w"
  "looks_expired (show_lockout now st w) = looks_expired w"
  by (simp_all add: looks_open_def looks_expired_def show_lockout_get)

lemma paint_fields [simp]:
  "banners (paint_countdown s w) = banners w" "local_tick (paint_countdown s w) = local_tick w"
  "expired_look (paint_countdown s w) = expired_look w" "save_disabled (paint_countdown s w) = save_disabled w"
  "session_disabled (paint_countdown s w) = session_disabled w" "token_ack (paint_countdown s w) = token_ack w"
  "deadline_ms (paint_countdown s w) = deadline_ms w" "poll_timer (paint_countdown s w) = poll_timer w"
  "sw_token (paint_countdown s w) = sw_token w"
  by (simp_all add: paint_countdown_def)

lemma show_open_window: "timed_ticks (banners w) \<Longrightarrow>
    timed_ticks (banners (show_open now r w)) \<and> looks_open (show_open now r w)"
  by (auto simp: show_open_def Let_def looks_open_def clear_banner_get)

lemma show_expired_window: "timed_ticks (banners w) \<Longrightarrow>
    timed_ticks (banners (show_expired now w)) \<and> looks_expired (show_expired now w)"
  by (auto simp: show_expired_def Let_def looks_expired_def set_banner_get expired_text)

lemma apply_state_window:
  assumes "timed_ticks (banners w)"
  shows "window_inv (apply_wizard_state now st w) \<and>
    looks_open (apply_wizard_state now st w) = (window_is_open st \<and> window_expires_in st \<noteq> None)"
proof -
  have "looks_open w \<Longrightarrow> \<not> looks_expired w" for w by (simp add: looks_open_def looks_expired_def)
  with show_open_window [OF assms] show_expired_window [OF assms] show ?thesis
    by (auto simp: apply_wizard_state_def window_inv_def show_lockout_timed split: option.splits)
qed

lemma window_inv_poll [simp]: "window_inv (w\<lparr>polls_out := n\<rparr>) = window_inv w"
  "window_inv (w\<lparr>poll_timer := b\<rparr>) = window_inv w"
  by (simp_all add: window_defs)

lemmas quiet_defs = generate_token_def unlock_session_def copy_token_def copy_settled_def set_mode_def type_custom_def
  probe_answered_def connect_tunnel_def tunnel_answered_def sw_submit_def setup_answered_def show_error_def
  poll_setup_state_def Let_def

text \<open>Which part of the state only the countdown and the polls write.\<close>

definition window_part :: "wizard \<Rightarrow> bool \<times> bool \<times> bool \<times> int \<times> bool \<times> string \<times> unit banner" where
  "window_part w = (local_tick w, expired_look w, save_disabled w, deadline_ms w, countdown_shown w, countdown w, banners w)"

lemma window_part_inv: "window_part w = window_part v \<Longrightarrow> window_inv w = window_inv v"
  by (simp add: window_part_def window_defs)

fun window_event :: "wizard_event \<Rightarrow> bool" where
  "window_event (LocalTick now) = True"
| "window_event (BannerTick now) = True"
| "window_event (PollAnswer now res) = True"
| "window_event e = False"

lemma quiet_step: "\<not> window_event e \<Longrightarrow> window_part (wizard_step w e) = window_part w"
  by (cases e) (auto simp: quiet_defs window_part_def split: list.splits option.splits tunnel_answer.splits setup_answer.splits)

lemma window_step: "window_inv w \<Longrightarrow> window_inv (wizard_step w e)"
proof (cases e)
  case (LocalTick now)
  assume inv: "window_inv w"
  let ?w1 = "paint_countdown (secs_left now w) w"
  have shown: "countdown_shown ?w1 = (\<not> secs_left now w \<le> 0)" by (simp add: paint_countdown_def)
  have "timed_ticks (banners (?w1\<lparr>local_tick := False\<rparr>))" using inv by (simp add: window_inv_def)
  from apply_state_window [OF this, of now closed_state] inv shown LocalTick show ?thesis
    by (auto simp: local_tick_at_def Let_def) (auto simp: window_defs)
next
  case (BannerTick now)
  assume inv: "window_inv w"
  then have "get (tick now (banners w)) ''setup_window_expired'' = get (banners w) ''setup_window_expired''"
    by (subst get_tick) (auto simp: window_defs expired_iff expires_def split: option.splits)
  with inv BannerTick banners_timed(3) [of w now] show ?thesis by (auto simp: window_defs)
next
  case (PollAnswer now res)
  assume inv: "window_inv w"
  then have "timed_ticks (banners (w\<lparr>polls_out := n\<rparr>))" for n by (simp add: window_inv_def)
  from apply_state_window [OF this] inv PollAnswer show ?thesis
    by (auto simp: poll_answered_def Let_def split: option.splits)
qed (use quiet_step [of e w] window_part_inv [of "wizard_step w e" w] in simp_all)

lemma banner_init_timed: "timed_ticks (banner_init :: unit banner)"
  by (simp add: timed_ticks_def banner_init_def)

lemma show_wizard_window: "window_inv (show_setup_wizard now st)"
  unfolding show_setup_wizard_def start_polling_def Let_def
  by (simp only: window_inv_poll, rule apply_state_window [THEN conjunct1])
    (simp add: wizard_page_def set_mode_def banner_init_timed)

lemma wizard_run_window: "window_inv (run_events wizard_step (show_setup_wizard now st) es)"
  using show_wizard_window window_step by (rule run_events_invariant)

lemma secs_left_zero: "secs_left now w \<le> 0 \<longleftrightarrow> deadline_ms w \<le> now"
  by (auto simp: secs_left_def ceil_div_def)

section \<open>Properties\<close>

text \<open>
  C30: the setup window always closes on screen. After any history of clicks, polls and ticks the wizard
  either counts down, with Save enabled and no expiry banner, or shows the window expired, with Save
  disabled, the countdown hidden and a banner that never times out; a counting wizard reaches the second at
  the first tick at or after its deadline, whether or not the server answers, and then stops polling.
\<close>

theorem wizard_window_closes:
  assumes w_def: "w = run_events wizard_step (show_setup_wizard now0 st) es"
  shows "(looks_open w \<or> looks_expired w) \<and>
    (deadline_ms w \<le> now \<longrightarrow> looks_open w \<longrightarrow> looks_expired (wizard_step w (LocalTick now)) \<and>
       session_disabled (wizard_step w (LocalTick now)) \<and> \<not> poll_timer (wizard_step w (LocalTick now)))"
proof -
  have inv: "window_inv w" unfolding w_def by (rule wizard_run_window)
  have "looks_expired (wizard_step w (LocalTick now)) \<and> session_disabled (wizard_step w (LocalTick now)) \<and>
      \<not> poll_timer (wizard_step w (LocalTick now))" if "deadline_ms w \<le> now" "looks_open w"
  proof -
    let ?w1 = "(paint_countdown (secs_left now w) w)\<lparr>local_tick := False\<rparr>"
    have "wizard_step w (LocalTick now) = show_lockout now closed_state (show_expired now ?w1)"
      using that by (simp add: local_tick_at_def secs_left_zero looks_open_def apply_wizard_state_def closed_state_def
        window_is_open_def Let_def)
    moreover have "looks_expired (show_expired now ?w1)"
      using show_expired_window [of ?w1] inv by (simp add: window_inv_def)
    moreover have "session_disabled (show_expired now v)" "\<not> poll_timer (show_expired now v)" for v
      by (simp_all add: show_expired_def Let_def)
    ultimately show ?thesis by simp
  qed
  with inv show ?thesis by (auto simp: window_inv_def)
qed

theorem wizard_window_closes_witness:
  "save_disabled (run_events wizard_step (show_setup_wizard 1000 \<lparr>configured = False, from_env = False,
     window_open = Some True, window_expires_in = Some 5, lockout_remaining_secs = None, tunnel_active = False,
     tunnel_socket = None\<rparr>) [TunnelTab, LocalTick 3000, LocalTick 6000])"
proof -
  let ?w = "run_events wizard_step (show_setup_wizard 1000 \<lparr>configured = False, from_env = False,
     window_open = Some True, window_expires_in = Some 5, lockout_remaining_secs = None, tunnel_active = False,
     tunnel_socket = None\<rparr>) [TunnelTab, LocalTick 3000]"
  have d: "deadline_ms ?w \<le> 6000 \<and> local_tick ?w"
    by (simp add: show_setup_wizard_def start_polling_def apply_wizard_state_def window_is_open_def show_open_def Let_def
      set_mode_def local_tick_at_def secs_left_def ceil_div_def paint_countdown_def)
  have h: "looks_open ?w \<or> looks_expired ?w" using wizard_window_closes [OF refl] by blast
  with d have "looks_open ?w" by (auto simp: looks_expired_def)
  with d wizard_window_closes [OF refl, of 1000 _ "[TunnelTab, LocalTick 3000]" 6000]
  show ?thesis by (simp add: looks_expired_def)
qed

text \<open>A Copy with a token in the field, and no fresh token generated since.\<close>

definition acked :: "wizard \<Rightarrow> wizard_event list \<Rightarrow> bool" where
  "acked w es \<longleftrightarrow> (\<exists>pre post. es = pre @ CopyClick # post \<and> sw_token (run_events wizard_step w pre) \<noteq> [] \<and>
     (\<forall>bs. Generate bs \<in> set post \<longrightarrow> \<not> random_bytes bs))"

lemma acked_snoc: "acked w es \<Longrightarrow> (\<forall>bs. e = Generate bs \<longrightarrow> \<not> random_bytes bs) \<Longrightarrow> acked w (es @ [e])"
proof -
  assume "acked w es" and e: "\<forall>bs. e = Generate bs \<longrightarrow> \<not> random_bytes bs"
  then obtain pre post where *: "es = pre @ CopyClick # post" "sw_token (run_events wizard_step w pre) \<noteq> []"
    "\<forall>bs. Generate bs \<in> set post \<longrightarrow> \<not> random_bytes bs" by (auto simp: acked_def)
  then have "es @ [e] = pre @ CopyClick # (post @ [e])" by simp
  moreover have "\<forall>bs. Generate bs \<in> set (post @ [e]) \<longrightarrow> \<not> random_bytes bs" using * e by auto
  ultimately show ?thesis using *(2) unfolding acked_def by blast
qed

lemma apply_state_session:
  "token_ack (apply_wizard_state now st w) = token_ack w"
  "sw_token (apply_wizard_state now st w) = sw_token w"
  "\<not> session_disabled (apply_wizard_state now st w) \<Longrightarrow> \<not> session_disabled w \<or> token_ack w"
  "session_disabled w \<Longrightarrow> \<not> token_ack w \<Longrightarrow> session_disabled (apply_wizard_state now st w)"
  by (auto simp: apply_wizard_state_def show_open_def show_expired_def Let_def split: option.splits if_splits)

lemma session_step:
  assumes "\<not> session_disabled w \<longrightarrow> token_ack w"
    and "e \<noteq> CopyClick" and "\<And>bs. e = Generate bs \<Longrightarrow> \<not> random_bytes bs"
  shows "token_ack (wizard_step w e) = token_ack w \<and> (\<not> session_disabled (wizard_step w e) \<longrightarrow> token_ack w)"
proof (cases e)
  case (LocalTick now)
  with assms(1) apply_state_session(1,3) [of now closed_state "(paint_countdown (secs_left now w) w)\<lparr>local_tick := False\<rparr>"]
  show ?thesis by (auto simp: local_tick_at_def Let_def)
next
  case (PollAnswer now res)
  with assms(1) apply_state_session(1,3) [of now _ "w\<lparr>polls_out := polls_out w - 1\<rparr>"] show ?thesis
    by (auto simp: poll_answered_def Let_def split: option.splits)
qed (use assms in \<open>auto simp: quiet_defs split: list.splits option.splits tunnel_answer.splits setup_answer.splits\<close>)

lemma session_run:
  "(\<not> session_disabled (run_events wizard_step (show_setup_wizard now st) es) \<longrightarrow>
      token_ack (run_events wizard_step (show_setup_wizard now st) es)) \<and>
   (token_ack (run_events wizard_step (show_setup_wizard now st) es) \<longrightarrow> acked (show_setup_wizard now st) es)"
proof (induction es rule: rev_induct)
  case Nil
  let ?w = "show_setup_wizard now st"
  have "\<not> token_ack ?w" "session_disabled ?w"
    by (simp_all add: show_setup_wizard_def start_polling_def wizard_page_def set_mode_def Let_def
      apply_state_session(1,4))
  then show ?case by simp
next
  case (snoc e es)
  let ?w = "run_events wizard_step (show_setup_wizard now st) es"
  consider "e = CopyClick" | bs where "e = Generate bs" "random_bytes bs"
    | "e \<noteq> CopyClick" "\<And>bs. e = Generate bs \<Longrightarrow> \<not> random_bytes bs" by blast
  then show ?case
  proof cases
    case 1
    show ?thesis
    proof (cases "sw_token ?w = []")
      case False
      then have "acked (show_setup_wizard now st) (es @ [e])" using 1 unfolding acked_def by fastforce
      with False 1 show ?thesis by (simp add: copy_token_def unlock_session_def)
    next
      case True
      with 1 snoc acked_snoc [of "show_setup_wizard now st" es e] show ?thesis by (simp add: copy_token_def)
    qed
  next
    case 2
    then show ?thesis by (simp add: generate_token_def)
  next
    case 3
    from session_step [OF _ 3, of ?w] snoc acked_snoc [of "show_setup_wizard now st" es e] 3 show ?thesis by auto
  qed
qed

text \<open>
  C28: the token guard. Whatever is clicked, polled and answered, the button that keeps the configuration in memory
  only is enabled only after the user has pressed Copy on the token that is in the field: a fresh token locks it
  again, and no poll of the setup state opens it. Saving the .env file does not unlock it either, although the comment
  above the handlers (wizard.js) counts it as an acknowledgement.
\<close>

theorem session_needs_copied_token:
  assumes "\<not> session_disabled (run_events wizard_step (show_setup_wizard now st) es)"
  shows "acked (show_setup_wizard now st) es"
  using session_run [of now st es] assms by blast

lemma apply_state_looks: "looks_open (apply_wizard_state now st w) \<Longrightarrow> token_ack w \<Longrightarrow>
    \<not> session_disabled (apply_wizard_state now st w)"
  by (auto simp: apply_wizard_state_def show_open_def show_expired_def Let_def looks_expired_def looks_open_def
    split: option.splits if_splits)

text \<open>Tokens: 48 hexadecimal digits, from which the 24 bytes can be read back.\<close>

definition hex_char :: "char \<Rightarrow> bool" where
  "hex_char c \<longleftrightarrow> (\<exists>d < 16. c = hex_lower d)"

definition lower_val :: "char \<Rightarrow> nat" where
  "lower_val c = (let n = of_char c in if n \<le> 57 then n - 48 else n - 87)"

fun token_bytes :: "string \<Rightarrow> nat list" where
  "token_bytes (a # b # s) = (16 * lower_val a + lower_val b) # token_bytes s"
| "token_bytes s = []"

lemma lower_val_hex [simp]: "d < 16 \<Longrightarrow> lower_val (hex_lower d) = d"
  by (auto simp: lower_val_def hex_lower_def Let_def)

lemma hex_not_space: "hex_char c \<Longrightarrow> \<not> is_space c"
  by (auto simp: hex_char_def hex_lower_def is_space_def Let_def split: if_splits)

lemma token_chars: "random_bytes bs \<Longrightarrow> c \<in> set (token_of bs) \<Longrightarrow> hex_char c"
proof -
  assume "random_bytes bs" "c \<in> set (token_of bs)"
  then obtain b where "b < 256" "c = hex_lower (b div 16) \<or> c = hex_lower (b mod 16)"
    by (auto simp: token_of_def byte_hex_def random_bytes_def list_all_iff)
  moreover have "b div 16 < 16" "b mod 16 < 16" if "b < 256" for b :: nat using that by auto
  ultimately show ?thesis unfolding hex_char_def by blast
qed

lemma length_token: "length (token_of bs) = 2 * length bs"
  by (induction bs) (simp_all add: token_of_def byte_hex_def)

lemma token_bytes_token: "list_all (\<lambda>b. b < 256) bs \<Longrightarrow> token_bytes (token_of bs) = bs"
proof (induction bs)
  case (Cons b bs)
  then have "b div 16 < 16" "b mod 16 < 16" by auto
  with Cons show ?case by (simp add: token_of_def byte_hex_def)
qed (simp add: token_of_def)

definition token_ok :: "string \<Rightarrow> bool" where
  "token_ok s \<longleftrightarrow> length s = 48 \<and> list_all hex_char s \<and> token_of (token_bytes s) = s"

lemma token_ok_random: "random_bytes bs \<Longrightarrow> token_ok (token_of bs)"
  using token_chars [of bs] by (auto simp: token_ok_def list_all_iff length_token random_bytes_def token_bytes_token)

lemma token_ok_trim: "token_ok s \<Longrightarrow> trim s = s"
  by (rule trim_id) (auto simp: token_ok_def list_all_iff intro!: hex_not_space hd_in_set last_in_set)

text \<open>\<open>G\<close> says which random bytes were drawn: the field is empty or shows a token of some, and so does every request.\<close>

definition drawn_token :: "(nat list \<Rightarrow> bool) \<Rightarrow> string \<Rightarrow> bool" where
  "drawn_token G tk \<longleftrightarrow> (\<exists>bs. G bs \<and> random_bytes bs \<and> tk = token_of bs)"

lemma drawn_token_ok: "drawn_token G tk \<Longrightarrow> token_ok tk"
  by (auto simp: drawn_token_def token_ok_random)

definition posts_typed :: "(nat list \<Rightarrow> bool) \<Rightarrow> wizard \<Rightarrow> bool" where
  "posts_typed G w \<longleftrightarrow> (sw_token w = [] \<or> drawn_token G (sw_token w)) \<and>
     list_all (\<lambda>(h, tk, rs). h \<noteq> [] \<and> drawn_token G tk) (setups_out w)"

lemma apply_state_form [simp]:
  "setups_out (apply_wizard_state now st w) = setups_out w" "sw_token (apply_wizard_state now st w) = sw_token w"
  by (simp_all add: apply_wizard_state_def show_open_def show_expired_def show_lockout_def set_banner_def clear_banner_def
    paint_countdown_def Let_def split: option.splits)

lemma list_all_drop_nth: "list_all P xs \<Longrightarrow> list_all P (take i xs @ drop (Suc i) xs)"
  by (auto simp: list_all_iff dest: in_set_takeD in_set_dropD)

lemma posts_submit: "posts_typed G w \<Longrightarrow> posts_typed G (sw_submit b w)"
proof -
  assume p: "posts_typed G w"
  show ?thesis
  proof (cases "sw_token w = []")
    case True
    then have "trim (sw_token w) = []" by (simp add: trim_def)
    with p show ?thesis by (simp add: sw_submit_def show_error_def posts_typed_def Let_def)
  next
    case False
    with p have d: "drawn_token G (sw_token w)" by (simp add: posts_typed_def)
    then have "trim (sw_token w) = sw_token w" by (intro token_ok_trim drawn_token_ok)
    with p d show ?thesis by (simp add: sw_submit_def show_error_def posts_typed_def Let_def)
  qed
qed

lemma posts_step: "posts_typed G w \<Longrightarrow> (\<And>bs. e = Generate bs \<Longrightarrow> G bs) \<Longrightarrow> posts_typed G (wizard_step w e)"
proof (cases e)
  case (SetupAnswer i a)
  assume "posts_typed G w"
  then show ?thesis using SetupAnswer list_all_drop_nth [of _ "setups_out w" i]
    by (auto simp: posts_typed_def setup_answered_def show_error_def Let_def split: setup_answer.splits)
next
  case SaveClick
  assume "posts_typed G w"
  with SaveClick posts_submit show ?thesis by simp
next
  case SessionClick
  assume "posts_typed G w"
  with SessionClick posts_submit show ?thesis by simp
next
  case (Generate bs)
  assume "posts_typed G w" and "\<And>bs. e = Generate bs \<Longrightarrow> G bs"
  with Generate show ?thesis by (auto simp: posts_typed_def generate_token_def drawn_token_def)
qed (auto simp: posts_typed_def local_tick_at_def paint_countdown_def poll_answered_def poll_setup_state_def
    copy_token_def unlock_session_def copy_settled_def set_mode_def type_custom_def probe_answered_def
    connect_tunnel_def tunnel_answered_def Let_def split: option.splits list.splits tunnel_answer.splits)

lemma posts_events: "posts_typed G w \<Longrightarrow> (\<And>bs. Generate bs \<in> set es \<Longrightarrow> G bs) \<Longrightarrow> posts_typed G (run_events wizard_step w es)"
proof (induction es arbitrary: w)
  case (Cons e es)
  have "posts_typed G (wizard_step w e)" by (rule posts_step [OF Cons.prems(1)]) (use Cons.prems(2) in auto)
  with Cons show ?case by simp
qed simp

lemma posts_run: "posts_typed (\<lambda>bs. Generate bs \<in> set es) (run_events wizard_step (show_setup_wizard now st) es)"
proof (rule posts_events)
  show "posts_typed (\<lambda>bs. Generate bs \<in> set es) (show_setup_wizard now st)"
    by (simp add: show_setup_wizard_def start_polling_def posts_typed_def wizard_page_def set_mode_def Let_def)
qed

text \<open>
  C31: every setup request is well-typed, whatever was typed, probed and clicked before it: the docker host is
  not empty, and the token is one that a press of Generate drew in this wizard, the 48 hexadecimal digits that
  encode the 24 random bytes of that press, and the same text that an accepted request leaves in the session
  storage. (The field is read-only: a token cannot be pasted, although the head of wizard.js speaks of it.)
\<close>

theorem setup_requests_typed:
  assumes "setups_out (run_events wizard_step (show_setup_wizard now st) es) = pre @ (h, tk, rs) # post"
  shows "h \<noteq> [] \<and> (\<exists>bs. Generate bs \<in> set es \<and> random_bytes bs \<and> tk = token_of bs \<and> token_bytes tk = bs) \<and>
    length tk = 48 \<and> list_all hex_char tk \<and>
    stored_token (run_events wizard_step (show_setup_wizard now st) (es @ [SetupAnswer (length pre) SetupOk])) = Some tk"
proof -
  have h: "h \<noteq> []" and d: "drawn_token (\<lambda>bs. Generate bs \<in> set es) tk"
    using posts_run [of es now st] assms by (simp_all add: posts_typed_def)
  moreover have "length tk = 48 \<and> list_all hex_char tk" using drawn_token_ok [OF d] by (simp add: token_ok_def)
  moreover have "\<exists>bs. Generate bs \<in> set es \<and> random_bytes bs \<and> tk = token_of bs \<and> token_bytes tk = bs"
    using d token_bytes_token by (auto simp: drawn_token_def random_bytes_def)
  ultimately show ?thesis using assms by (simp add: setup_answered_def Let_def nth_append)
qed

definition sevens :: "nat list" where
  "sevens = replicate 24 7"

lemma sevens_token: "token_ok (token_of sevens)"
  by (rule token_ok_random) (simp add: random_bytes_def list_all_iff sevens_def)

lemma generate_sevens: "run_events wizard_step w [Generate sevens] = generate_token sevens w"
  by (simp add: random_bytes_def list_all_iff sevens_def)

lemma wizard_token: "sw_token (run_events wizard_step w [Generate sevens]) = token_of sevens"
  unfolding generate_sevens by (simp add: generate_token_def)

theorem session_needs_copied_token_witness:
  "acked (show_setup_wizard 0 closed_state) [Generate sevens, CopyClick]"
proof (rule session_needs_copied_token)
  show "\<not> session_disabled (run_events wizard_step (show_setup_wizard 0 closed_state) [Generate sevens, CopyClick])"
    using wizard_token [of "show_setup_wizard 0 closed_state"] sevens_token by (auto simp: copy_token_def unlock_session_def token_ok_def)
qed

theorem setup_requests_typed_witness:
  "list_all hex_char (token_of sevens)"
proof -
  let ?st = "\<lparr>configured = False, from_env = False, window_open = Some True, window_expires_in = Some 300,
    lockout_remaining_secs = None, tunnel_active = False, tunnel_socket = None\<rparr>"
  let ?init = "show_setup_wizard 0 ?st"
  let ?w = "run_events wizard_step ?init [Generate sevens]"
  have tk: "sw_token ?w = token_of sevens" by (rule wizard_token)
  have trim: "trim (token_of sevens) = token_of sevens" "length (token_of sevens) = 48"
    using sevens_token token_ok_trim by (simp_all add: token_ok_def)
  have w0: "\<not> save_disabled ?init" "\<not> tunnel_panel ?init" "setups_out ?init = []" "host_custom ?init = default_host"
    by (simp_all add: show_setup_wizard_def start_polling_def apply_wizard_state_def window_is_open_def show_open_def Let_def
      paint_countdown_def wizard_page_def clear_banner_def show_lockout_def)
  have w: "\<not> save_disabled ?w" "\<not> tunnel_panel ?w" "setups_out ?w = []" "host_custom ?w = default_host"
    unfolding generate_sevens using w0 by (simp_all add: generate_token_def)
  have host: "submit_host ?w \<noteq> []"
    using w by (simp add: submit_host_def) (simp add: default_host_def js_defs)
  have "setups_out (run_events wizard_step ?init ([Generate sevens] @ [SaveClick])) =
      [] @ (submit_host ?w, token_of sevens, trim (sw_regs ?w)) # []"
    unfolding run_events_append using w host tk trim by (auto simp: sw_submit_def Let_def)
  from setup_requests_typed [OF this] show ?thesis by blast
qed

section \<open>The tunnel form\<close>

lemma apply_state_tunnel [simp]:
  "tunnel_busy (apply_wizard_state now st w) = tunnel_busy w" "tunnel_asked (apply_wizard_state now st w) = tunnel_asked w"
  by (simp_all add: apply_wizard_state_def show_open_def show_expired_def show_lockout_def set_banner_def clear_banner_def
    paint_countdown_def Let_def split: option.splits)

lemma tunnel_flag: "length (tunnel_asked w) = (if tunnel_busy w then 1 else 0) \<Longrightarrow>
    length (tunnel_asked (wizard_step w e)) = (if tunnel_busy (wizard_step w e) then 1 else 0)"
  by (cases e) (auto simp: quiet_defs local_tick_at_def paint_countdown_def poll_answered_def
    split: option.splits list.splits tunnel_answer.splits setup_answer.splits if_splits)

interpretation tunnel_form: single_flight wizard_step tunnel_busy "\<lambda>w. length (tunnel_asked w)"
proof
  fix w :: wizard and e
  assume "tunnel_busy w" "length (tunnel_asked w) = 1"
  then show "(tunnel_busy (wizard_step w e) \<and> length (tunnel_asked (wizard_step w e)) = 1) \<or>
      (\<not> tunnel_busy (wizard_step w e) \<and> length (tunnel_asked (wizard_step w e)) = 0)"
    by (simp add: tunnel_flag)
next
  fix w :: wizard and e
  assume "\<not> tunnel_busy w" "length (tunnel_asked w) = 0"
  then show "(tunnel_busy (wizard_step w e) \<and> length (tunnel_asked (wizard_step w e)) = 1) \<or>
      (\<not> tunnel_busy (wizard_step w e) \<and> length (tunnel_asked (wizard_step w e)) = 0)"
    by (simp add: tunnel_flag)
qed

lemma cross_not_tick [simp]: "starts_with tick_mark (cross_mark @ s) = False"
  by (simp add: tick_mark_def cross_mark_def)

lemma tunnel_ready_error [simp]: "tunnel_ready (w\<lparr>error_shown := x\<rparr>) = tunnel_ready w"
  by (simp add: tunnel_ready_def)

lemma refused_not_ready: "tunnel_asked w \<noteq> [] \<Longrightarrow> (\<forall>p h. a \<noteq> TunnelUp p h) \<Longrightarrow> \<not> tunnel_ready (tunnel_answered a w)"
  by (auto simp: tunnel_answered_def tunnel_ready_def tunnel_error_def Let_def
    split: list.splits tunnel_answer.splits detail.splits)

text \<open>
  The tunnel form has one request out at a time, its button is disabled exactly while it is, and an answer
  other than success leaves a state in which, in tunnel mode, submitting sends nothing and says so.
\<close>

theorem tunnel_gate:
  fixes st :: setup_state
  assumes w_def: "w = run_events wizard_step (show_setup_wizard now st) es"
  shows "length (tunnel_asked w) = (if tunnel_busy w then 1 else 0) \<and>
    (tunnel_busy w \<and> (\<forall>p h. a \<noteq> TunnelUp p h) \<longrightarrow>
       (let v = wizard_step w (TunnelAnswer a) in \<not> tunnel_busy v \<and>
         (tunnel_panel v \<longrightarrow> setups_out (sw_submit b v) = setups_out v \<and> env_files (sw_submit b v) = env_files v \<and>
            error_shown (sw_submit b v))))"
proof -
  have "length (tunnel_asked (show_setup_wizard now st)) = (if tunnel_busy (show_setup_wizard now st) then 1 else 0)"
    by (simp add: show_setup_wizard_def start_polling_def apply_wizard_state_def show_open_def show_expired_def show_lockout_def
      set_banner_def clear_banner_def paint_countdown_def wizard_page_def set_mode_def Let_def split: option.splits)
  from tunnel_form.run_flag [OF this, of es]
  have f: "length (tunnel_asked w) = (if tunnel_busy w then 1 else 0)" by (simp add: w_def)
  have "\<not> tunnel_busy (tunnel_answered a w)" if "tunnel_busy w"
    using that f by (auto simp: tunnel_answered_def split: list.splits)
  moreover have "tunnel_asked w \<noteq> []" if "tunnel_busy w" using that f by auto
  ultimately show ?thesis using f refused_not_ready [of w a]
    by (auto simp: Let_def sw_submit_def show_error_def)
qed

theorem tunnel_gate_witness:
  "\<not> tunnel_busy (run_events wizard_step (show_setup_wizard 0 closed_state)
     [TypeTarget ''me@host'', ConnectClick, TunnelAnswer (TunnelRefused (DetailObj ''no'' ''no_key'' []))])"
proof -
  let ?w = "run_events wizard_step (show_setup_wizard 0 closed_state) [TypeTarget ''me@host'', ConnectClick]"
  have "\<not> tunnel_busy (show_setup_wizard 0 closed_state)"
    by (simp add: show_setup_wizard_def start_polling_def apply_wizard_state_def show_expired_def show_lockout_def
      set_banner_def clear_banner_def wizard_page_def closed_state_def window_is_open_def Let_def)
  moreover have "trim ''me@host'' \<noteq> []" by (simp add: js_defs)
  ultimately have "tunnel_busy ?w" by (simp add: connect_tunnel_def Let_def)
  with tunnel_gate [OF refl, of 0 closed_state "[TypeTarget ''me@host'', ConnectClick]" "TunnelRefused (DetailObj ''no'' ''no_key'' [])"]
  show ?thesis by (simp add: Let_def)
qed

text \<open>Reading the countdown back.\<close>

definition parse_remaining :: "string \<Rightarrow> nat" where
  "parse_remaining s = (case split_on CHR ''m'' s of
      [m, r] \<Rightarrow> 60 * digits_val m + digits_val (butlast (tl r))
    | _ \<Rightarrow> digits_val (butlast s))"

lemma digits_val_zero [simp]: "digits_val (CHR ''0'' # s) = digits_val s"
  by (simp add: digits_val_def digit_val_def)

lemma digits_no_m: "CHR ''m'' \<notin> set (show_nat n)"
  using show_nat_digits [of "CHR ''m''" n] by (auto simp: is_digit_def)

text \<open>
  The countdown's text determines the seconds left: minutes and two-digit seconds from a minute on, plain
  seconds below, and no two different times look the same.
\<close>

theorem format_remaining_roundtrip:
  "parse_remaining (format_remaining (int n)) = n"
proof (cases "n < 60")
  case True
  then show ?thesis
    by (simp add: format_remaining_def parse_remaining_def show_int_def split_on_no_sep digits_no_m butlast_append)
next
  case False
  let ?m = "show_nat (n div 60)"
  let ?r = "'' '' @ (if n mod 60 < 10 then ''0'' else []) @ show_nat (n mod 60) @ ''s''"
  have "format_remaining (int n) = ?m @ CHR ''m'' # ?r"
    using False zdiv_int [of n 60] zmod_int [of n 60] by (simp add: format_remaining_def show_int_def Let_def nat_div_distrib nat_mod_distrib)
  moreover have "CHR ''m'' \<notin> set ?r" by (auto simp: digits_no_m)
  ultimately have "split_on CHR ''m'' (format_remaining (int n)) = [?m, ?r]"
    using split_on_append_sep [OF digits_no_m, of "n div 60" ?r] split_on_no_sep [of "CHR ''m''" ?r] by metis
  moreover have "butlast (tl ?r) = (if n mod 60 < 10 then ''0'' else []) @ show_nat (n mod 60)"
    by (simp add: butlast_append)
  ultimately have "parse_remaining (format_remaining (int n)) = 60 * (n div 60) + n mod 60"
    by (simp add: parse_remaining_def)
  then show ?thesis by simp
qed

section \<open>Defects\<close>

lemma closed_setup: "show_setup_wizard now closed_state =
    start_polling now closed_state (wizard_page\<lparr>tunnel_status := [''Requires key-based SSH auth (no passphrase).''],
      sw_host := default_host\<rparr>)"
  by (simp add: show_setup_wizard_def closed_state_def)

text \<open>
  In tunnel mode the host that is submitted is not the tunnel's: after a look at the local tab it is the local
  default, although the tunnel tab still says that the tunnel is active.
\<close>

theorem tab_visit_loses_tunnel_host:
  assumes "tunnel_panel w" and "tunnel_ready w" and "trim (host_custom w) = h" and "h \<noteq> []" and "trim h = h"
  shows "let v = run_events wizard_step w [LocalTab, TunnelTab] in
    tunnel_panel v \<and> tunnel_ready v \<and> submit_host v = h"
  using assms by (simp add: Let_def set_mode_def tunnel_ready_def submit_host_def or_str_def)

text \<open>The probe's answer replaces the host of a tunnel that was open when the wizard was built.\<close>

theorem probe_replaces_tunnel_host:
  assumes "tunnel_active st" and "tunnel_socket st = Some s" and "trim h = h" and "h \<noteq> []"
  shows "let v = run_events wizard_step (show_setup_wizard now st) [ProbeAnswer (Some [h])] in
    tunnel_panel v \<and> submit_host v = h"
proof -
  have "tunnel_panel (apply_wizard_state now st w) = tunnel_panel w" for w
    by (simp add: apply_wizard_state_def show_open_def show_expired_def show_lockout_def set_banner_def clear_banner_def
      paint_countdown_def Let_def split: option.splits)
  then show ?thesis
    using assms by (simp add: Let_def probe_answered_def submit_host_def show_setup_wizard_def start_polling_def set_mode_def)
qed

text \<open>Copying the token re-enables the in-memory button of an expired wizard.\<close>

theorem expired_copy_unlocks:
  assumes "looks_expired w" and "sw_token w \<noteq> []"
  shows "looks_expired (wizard_step w CopyClick) \<and> \<not> session_disabled (wizard_step w CopyClick)"
  using assms by (simp add: copy_token_def unlock_session_def looks_expired_def)

text \<open>The flip to expired clears the lockout banner, which then stays away: the poll has stopped.\<close>

theorem flip_clears_lockout:
  assumes "local_tick w" and "deadline_ms w \<le> now"
  shows "get (banners (wizard_step w (LocalTick now))) ''setup_lockout'' = None \<and> \<not> poll_timer (wizard_step w (LocalTick now))"
  using assms by (simp add: local_tick_at_def secs_left_zero Let_def apply_wizard_state_def closed_state_def window_is_open_def
    show_lockout_def clear_banner_get) (simp add: show_expired_def Let_def)

text \<open>An answer without the seconds left counts as an open window and is painted as an expired one.\<close>

theorem open_without_seconds_expires:
  assumes "window_open st = None" and "window_expires_in st = None" and "timed_ticks (banners w)"
  shows "window_is_open st \<and> looks_expired (apply_wizard_state now st w)"
  using assms show_expired_window [of w now] by (simp add: window_is_open_def apply_wizard_state_def)

end
