(* ===== verification/ListPage.thy ===== *)
theory ListPage
  imports Undo Forms Containers
begin

text \<open>
  What the resource pages (pages/*.js) share: a loader that paints "Loading", awaits the server and paints the
  answer if its page is still open; queries built with \<open>URLSearchParams\<close>; and the reply to a
  destructive request, which is queued with an undo window or has run at once.
\<close>

section \<open>The loader of a page\<close>

text \<open>
  \<open>cur_page\<close> is the global \<open>currentPage\<close>, \<open>main_area\<close> what the element \<open>#main\<close> shows, \<open>answers_due\<close> the calls
  whose request has not been answered. \<open>own\<close> is the page the loader belongs to. A failure is shown with the
  message behind a prefix, \<open>Failed: \<close> for images and networks, the word for an error for volumes.
\<close>

datatype 'a page_view = PageLoading | PageList 'a | PageFailed string | PageOther string

record 'a list_page =
  cur_page :: string
  main_area :: "'a page_view"
  answers_due :: nat

datatype 'a page_event = LoadCall | Answered 'a | LoadError string | Navigate string

definition page_init :: "string \<Rightarrow> 'a list_page" where
  "page_init q = \<lparr>cur_page = q, main_area = PageOther q, answers_due = 0\<rparr>"

definition load_page :: "'a list_page \<Rightarrow> 'a list_page" where
  "load_page p = p\<lparr>main_area := PageLoading, answers_due := Suc (answers_due p)\<rparr>"

fun page_step :: "string \<Rightarrow> 'a list_page \<Rightarrow> 'a page_event \<Rightarrow> 'a list_page" where
  "page_step own p LoadCall = load_page p"
| "page_step own p (Answered x) = (if answers_due p = 0 then p
     else let p1 = p\<lparr>answers_due := answers_due p - 1\<rparr> in
       if cur_page p1 \<noteq> own then p1 else p1\<lparr>main_area := PageList x\<rparr>)"
| "page_step own p (LoadError msg) = (if answers_due p = 0 then p
     else p\<lparr>answers_due := answers_due p - 1, main_area := PageFailed msg\<rparr>)"
| "page_step own p (Navigate q) = (let p1 = p\<lparr>cur_page := q, main_area := PageOther q\<rparr> in
     if q = own then load_page p1 else p1)"

section \<open>Queries\<close>

text \<open>\<open>URLSearchParams.prototype.toString\<close>: the form encoding, a space as a plus sign.\<close>

definition form_plain :: "char \<Rightarrow> bool" where
  "form_plain c = (let n = (of_char c :: nat) in
     (48 \<le> n \<and> n \<le> 57) \<or> (65 \<le> n \<and> n \<le> 90) \<or> (97 \<le> n \<and> n \<le> 122) \<or> n = 42 \<or> n = 45 \<or> n = 46 \<or> n = 95)"

definition form_char :: "char \<Rightarrow> string" where
  "form_char c = (if form_plain c then [c] else if c = CHR '' '' then ''+''
     else let n = of_char c in [CHR ''%'', hex_digit (n div 16), hex_digit (n mod 16)])"

definition form_encode :: "string \<Rightarrow> string" where
  "form_encode s = concat (map form_char s)"

definition params_text :: "(string \<times> string) list \<Rightarrow> string" where
  "params_text ps = join ''&'' (map (\<lambda>(k, v). form_encode k @ ''='' @ form_encode v) ps)"

text \<open>How a server reads a query: at ampersands, at the first equals sign, and the two escapes.\<close>

fun form_decode :: "string \<Rightarrow> string" where
  "form_decode [] = []"
| "form_decode (c # s) =
     (if c = CHR ''+'' then CHR '' '' # form_decode s
      else if c = CHR ''%'' then (case s of a # b # u \<Rightarrow> char_of (16 * hex_val a + hex_val b) # form_decode u
                                 | _ \<Rightarrow> c # form_decode s)
      else c # form_decode s)"

definition parse_pair :: "string \<Rightarrow> string \<times> string" where
  "parse_pair s = (form_decode (takeWhile (\<lambda>c. c \<noteq> CHR ''='') s), form_decode (tl (dropWhile (\<lambda>c. c \<noteq> CHR ''='') s)))"

definition parse_params :: "string \<Rightarrow> (string \<times> string) list" where
  "parse_params s = map parse_pair (nonempty (split_on CHR ''&'' s))"

lemma form_plain_no_escape: "form_plain c \<Longrightarrow> c \<noteq> CHR ''+''" "form_plain c \<Longrightarrow> c \<noteq> CHR ''%''"
  by (auto simp: form_plain_def)

lemma form_char_decode: "form_decode (form_char c @ s) = c # form_decode s"
proof -
  have lt: "(of_char c :: nat) < 256" by (rule of_char_lt_256)
  then have "(of_char c :: nat) div 16 < 16" by arith
  then have hex: "form_decode ([CHR ''%'', hex_digit (of_char c div 16), hex_digit (of_char c mod 16)] @ s) = c # form_decode s"
    using lt by (simp add: hex_val_digit)
  consider "form_plain c" | "\<not> form_plain c" "c = CHR '' ''" | "\<not> form_plain c" "c \<noteq> CHR '' ''" by blast
  then show ?thesis
  proof cases
    case 1
    with form_plain_no_escape [OF 1] show ?thesis by (simp add: form_char_def)
  next
    case 3
    with hex show ?thesis unfolding form_char_def Let_def by (simp only: if_False)
  qed (simp add: form_char_def)
qed

lemma form_decode_encode [simp]: "form_decode (form_encode s) = s"
  by (induction s) (simp_all add: form_encode_def form_char_decode)

lemma hex_form_plain: "d < 16 \<Longrightarrow> form_plain (hex_digit d)"
  by (auto simp: hex_digit_def form_plain_def Let_def)

lemma form_char_chars:
  assumes "c \<in> set (form_char x)"
  shows "form_plain c \<or> c = CHR ''+'' \<or> c = CHR ''%''"
proof (cases "form_plain x")
  case True
  with assms show ?thesis by (simp add: form_char_def)
next
  case plain: False
  show ?thesis
  proof (cases "x = CHR '' ''")
    case True
    with plain have "form_char x = ''+''" by (simp only: form_char_def if_False simp_thms if_True)
    with assms show ?thesis by simp
  next
    case False
    with plain have x: "form_char x = [CHR ''%'', hex_digit (of_char x div 16), hex_digit (of_char x mod 16)]"
      by (simp only: form_char_def if_False Let_def)
    have "(of_char x :: nat) div 16 < 16" "(of_char x :: nat) mod 16 < 16" using of_char_lt_256 [of x] by arith+
    with assms show ?thesis unfolding x by (auto intro: hex_form_plain)
  qed
qed

lemma form_encode_chars: "c \<in> set (form_encode s) \<Longrightarrow> form_plain c \<or> c = CHR ''+'' \<or> c = CHR ''%''"
  using form_char_chars by (auto simp: form_encode_def)

lemma form_encode_no_delim: "CHR ''&'' \<notin> set (form_encode s)" "CHR ''='' \<notin> set (form_encode s)"
  by (auto dest!: form_encode_chars simp: form_plain_def)

lemma takeWhile_pair: "c \<notin> set a \<Longrightarrow> takeWhile (\<lambda>x. x \<noteq> c) (a @ c # b) = a \<and> dropWhile (\<lambda>x. x \<noteq> c) (a @ c # b) = c # b"
  by (induction a) auto

lemma parse_pair_text: "parse_pair (form_encode k @ CHR ''='' # form_encode v) = (k, v)"
  using takeWhile_pair [OF form_encode_no_delim(2)] by (simp add: parse_pair_def)

lemma parse_params_text: "parse_params (params_text ps) = ps"
proof (cases "ps = []")
  case True
  then show ?thesis by (simp add: params_text_def parse_params_def nonempty_def)
next
  case False
  let ?xs = "map (\<lambda>(k, v). form_encode k @ ''='' @ form_encode v) ps"
  have "split_on CHR ''&'' (join [CHR ''&''] ?xs) = ?xs"
    using False by (intro split_on_join) (auto simp: form_encode_no_delim)
  moreover have "nonempty ?xs = ?xs" by (rule nonempty_id) auto
  ultimately have "parse_params (params_text ps) = map parse_pair ?xs" by (simp add: parse_params_def params_text_def)
  also have "\<dots> = ps" by (induction ps) (auto simp: parse_pair_text)
  finally show ?thesis .
qed

text \<open>Queries written by hand with \<open>encodeURIComponent\<close> read back as well.\<close>

lemma unreserved_no_escape: "unreserved c \<Longrightarrow> c \<noteq> CHR ''+''" "unreserved c \<Longrightarrow> c \<noteq> CHR ''%''"
  by (auto simp: unreserved_def)

lemma form_decode_encode_char: "form_decode (encode_char c @ s) = c # form_decode s"
proof (cases "unreserved c")
  case True
  with unreserved_no_escape [OF True] show ?thesis by (simp add: encode_char_def)
next
  case False
  have lt: "(of_char c :: nat) < 256" by (rule of_char_lt_256)
  then have "(of_char c :: nat) div 16 < 16" by arith
  then have "form_decode ([CHR ''%'', hex_digit (of_char c div 16), hex_digit (of_char c mod 16)] @ s) = c # form_decode s"
    using lt by (simp add: hex_val_digit)
  with False show ?thesis unfolding encode_char_def Let_def by (simp only: if_False)
qed

lemma form_decode_encode_uri [simp]: "form_decode (encode_uri s) = s"
  by (induction s) (simp_all add: encode_uri_def form_decode_encode_char)

definition plain_key :: "string \<Rightarrow> bool" where
  "plain_key k = list_all (\<lambda>c. c \<notin> set ''&=+%'') k"

lemma form_decode_plain: "plain_key k \<Longrightarrow> form_decode k = k"
  by (induction k) (auto simp: plain_key_def)

lemma parse_pair_uri: "plain_key k \<Longrightarrow> parse_pair (k @ CHR ''='' # encode_uri v) = (k, v)"
proof -
  assume k: "plain_key k"
  then have "CHR ''='' \<notin> set k" by (auto simp: plain_key_def list_all_iff)
  with k takeWhile_pair [OF this, of "encode_uri v"] show ?thesis by (simp add: parse_pair_def form_decode_plain)
qed

lemma parse_one: "plain_key k \<Longrightarrow> parse_params (k @ CHR ''='' # encode_uri v) = [(k, v)]"
proof -
  assume k: "plain_key k"
  then have "CHR ''&'' \<notin> set (k @ CHR ''='' # encode_uri v)" by (auto simp: plain_key_def list_all_iff)
  then show ?thesis using parse_pair_uri [OF k, of v] by (simp add: parse_params_def split_on_no_sep nonempty_def)
qed

lemma parse_more: "plain_key k \<Longrightarrow>
    parse_params (k @ CHR ''='' # encode_uri v @ CHR ''&'' # rest) = (k, v) # parse_params rest"
proof -
  assume k: "plain_key k"
  then have "CHR ''&'' \<notin> set (k @ CHR ''='' # encode_uri v)" by (auto simp: plain_key_def list_all_iff)
  from split_on_append_sep [OF this, of rest] show ?thesis
    using parse_pair_uri [OF k, of v] by (simp add: parse_params_def nonempty_def)
qed

text \<open>A string value of a form, and a \<open>params.set\<close> behind a test of the value.\<close>

definition str_value :: "(string \<times> fvalue) list \<Rightarrow> string \<Rightarrow> string" where
  "str_value vs k = (case map_of vs k of Some (VStr s) \<Rightarrow> s | _ \<Rightarrow> [])"

definition bool_value :: "(string \<times> fvalue) list \<Rightarrow> string \<Rightarrow> bool" where
  "bool_value vs k = (case map_of vs k of Some (VBool b) \<Rightarrow> b | _ \<Rightarrow> False)"

definition set_if :: "bool \<Rightarrow> string \<Rightarrow> string \<Rightarrow> (string \<times> string) list \<Rightarrow> (string \<times> string) list" where
  "set_if b k v ps = (if b then alist_set k v ps else ps)"

lemma map_of_set_if: "map_of (set_if b k v ps) = (if b then (map_of ps)(k \<mapsto> v) else map_of ps)"
  by (simp add: set_if_def map_of_alist_set)

lemma map_of_set_if_at: "map_of (set_if b k v ps) j = (if j = k \<and> b then Some v else map_of ps j)"
  by (simp add: map_of_set_if)

section \<open>Replies to destructive requests\<close>

text \<open>
  A reply with an undo token goes to \<open>renderUndoToast\<close> (label, token, window); else the operation has run: a
  toast, and the page is loaded again.
\<close>

datatype reply_effect = QueuedUndo string string int | RanNow toast

definition undo_reply :: "string \<Rightarrow> toast \<Rightarrow> json \<Rightarrow> reply_effect" where
  "undo_reply lbl done resp = (if truthy (json_get resp ''undo_token'')
     then QueuedUndo lbl (js_string (the (json_get resp ''undo_token''))) (json_int (json_get resp ''expires_in''))
     else RanNow done)"

text \<open>The questions name the undo window, 5 seconds unless the page sets another.\<close>

definition undo_hint :: "int \<Rightarrow> string" where
  "undo_hint secs = ''(Undo available for ~'' @ show_int (if secs = 0 then 5 else secs) @ ''s.)''"

text \<open>A warning modal that settles once: its first click removes it.\<close>

datatype modal_click = GoClick | CancelClick | BackdropClick

definition modal_decision :: "modal_click list \<Rightarrow> bool option" where
  "modal_decision cs = (case cs of [] \<Rightarrow> None | c # _ \<Rightarrow> Some (c = GoClick))"

text \<open>The count in a heading: with a filter that hides rows, shown and all.\<close>

definition heading_count :: "string \<Rightarrow> 'a list \<Rightarrow> 'a list \<Rightarrow> string" where
  "heading_count needle shown all = '' ('' @ show_nat (length shown) @
     (if needle \<noteq> [] \<and> length shown \<noteq> length all then ''/'' @ show_nat (length all) else []) @ '')''"

definition has_ci :: "string \<Rightarrow> string \<Rightarrow> bool" where
  "has_ci s needle = has_sub (to_lower s) needle"

section \<open>Properties\<close>

definition page_inv :: "string \<Rightarrow> 'a list_page \<Rightarrow> bool" where
  "page_inv own p \<longleftrightarrow> (\<forall>x. main_area p = PageList x \<longrightarrow> cur_page p = own) \<and>
     (cur_page p = own \<and> main_area p = PageLoading \<longrightarrow> answers_due p > 0)"

lemma page_inv_step: "page_inv own p \<Longrightarrow> page_inv own (page_step own p e)"
  by (cases e) (auto simp: page_inv_def load_page_def Let_def)

lemma page_inv_run: "page_inv own (run_events (page_step own) (page_init q) es)"
proof (rule run_events_invariant [where P = "page_inv own"])
  show "page_inv own (page_init q)" by (simp add: page_inv_def page_init_def)
qed (rule page_inv_step)

lemma page_list_answered:
  "main_area (run_events (page_step own) p es) = PageList x \<Longrightarrow> main_area p = PageList x \<or> Answered x \<in> set es"
proof (induction es arbitrary: p)
  case (Cons e es)
  then have "main_area (page_step own p e) = PageList x \<or> Answered x \<in> set es" by simp
  then show ?case by (cases e) (auto simp: load_page_def Let_def split: if_splits)
qed simp

text \<open>
  The loader of a resource page, for any order of loads, answers and navigation: a list that is shown was
  an answer of the server and is shown on its own page only, and the page never stays on "Loading" once every
  request of it is answered.
\<close>

theorem list_page_sound:
  assumes "p = run_events (page_step own) (page_init q) es"
  shows "(main_area p = PageList x \<longrightarrow> cur_page p = own \<and> Answered x \<in> set es) \<and>
    (cur_page p = own \<and> answers_due p = 0 \<longrightarrow> main_area p \<noteq> PageLoading)"
  using page_inv_run [of own q es] page_list_answered [of own "page_init q" es x] assms
  by (auto simp: page_inv_def page_init_def)

theorem list_page_sound_witness:
  "cur_page (run_events (page_step ''images'') (page_init ''volumes'') [Navigate ''images'', Answered [1 :: nat]]) = ''images''"
proof -
  have "main_area (run_events (page_step ''images'') (page_init ''volumes'') [Navigate ''images'', Answered [1 :: nat]]) = PageList [1]"
    by (simp add: page_init_def load_page_def Let_def)
  with list_page_sound [OF refl, of "''images''" "''volumes''" "[Navigate ''images'', Answered [1 :: nat]]" "[1]"]
  show ?thesis by blast
qed

text \<open>
  A load that starts after the user has left, as the refresh of an undo bar does at the end of its window,
  wipes the page that is open, and the answer does not bring it back.
\<close>

theorem late_refresh_wipes_page:
  assumes "cur_page p \<noteq> own"
  shows "main_area (run_events (page_step own) p [LoadCall, Answered x]) = PageLoading"
  using assms by (simp add: load_page_def Let_def)

text \<open>A load that fails after the user has left replaces the page that is open by its error.\<close>

theorem late_error_replaces_page:
  assumes "cur_page p \<noteq> own"
  shows "main_area (run_events (page_step own) p [LoadCall, LoadError msg]) = PageFailed msg"
  by (simp add: load_page_def)

text \<open>
  A query built with \<open>URLSearchParams\<close> reads back as the very pairs it was built from, in order, whatever
  characters keys and values hold: newlines, ampersands, equals signs, plus signs and percent signs.
\<close>

theorem params_roundtrip: "parse_params (params_text ps) = ps"
  by (rule parse_params_text)

end
