(* ===== verification/Images.thy ===== *)
theory Images
  imports ListPage
begin

text \<open>
  pages/images.js: the image table with its search, the two prunes and their warning modal, tagging with the
  question before a tag is moved, push and pull.
\<close>

section \<open>The table\<close>

text \<open>\<open>img_tags\<close> is \<open>None\<close> when the field is not an array; \<open>img_tag\<close> is the single tag of older answers.\<close>

record image =
  img_id :: string
  img_tags :: "string list option"
  img_tag :: string
  size_mb :: string
  img_created :: "int option option"

definition image_tags :: "image \<Rightarrow> string list" where
  "image_tags i = (case img_tags i of Some ts \<Rightarrow> ts | None \<Rightarrow> if img_tag i = [] then [] else [img_tag i])"

definition display_tag :: "image \<Rightarrow> string" where
  "display_tag i = (if image_tags i \<noteq> [] then join '', '' (image_tags i) else ''<none>'')"

definition run_tag :: "image \<Rightarrow> string" where
  "run_tag i = (case image_tags i of [] \<Rightarrow> img_id i | tg # _ \<Rightarrow> or_str tg (img_id i))"

text \<open>The search compares the identifier with its case, the tags without.\<close>

definition image_matches :: "string \<Rightarrow> image \<Rightarrow> bool" where
  "image_matches q i = (list_ex (\<lambda>tg. has_ci tg q) (image_tags i) \<or> has_sub (img_id i) q)"

definition search_images :: "string \<Rightarrow> image list \<Rightarrow> image list" where
  "search_images typed imgs = (let q = to_lower typed in if q \<noteq> [] then filter (image_matches q) imgs else imgs)"

datatype image_button = InspectImage string string | RunImage string | DeleteImage string string

definition image_cells :: "int \<Rightarrow> image \<Rightarrow> string list" where
  "image_cells now i = [display_tag i, img_id i, size_mb i @ '' MB'', rel_time now (img_created i)]"

definition image_buttons :: "image \<Rightarrow> image_button list" where
  "image_buttons i = [InspectImage (img_id i) (display_tag i), RunImage (run_tag i), DeleteImage (img_id i) (display_tag i)]"

text \<open>The rows of the table: a single line when there is none.\<close>

definition image_table :: "int \<Rightarrow> image list \<Rightarrow> (string list \<times> image_button list) list" where
  "image_table now imgs = (if imgs = [] then [([''No images found''], [])]
     else map (\<lambda>i. (image_cells now i, image_buttons i)) imgs)"

section \<open>Deleting and pruning\<close>

text \<open>An action: \<open>Inl\<close> the error it throws, \<open>Inr\<close> the key of its guard and the request.\<close>

definition delete_image :: "bool \<Rightarrow> string \<Rightarrow> string + string \<times> string" where
  "delete_image confirmed i = (if \<not> confirmed then Inl ''Cancelled''
     else Inr (''del-img-'' @ i, delete_url (''/api/images/'' @ encode_uri i @ ''?force=true'')))"

definition prune_request :: "bool \<Rightarrow> string \<times> string" where
  "prune_request dangling = (''prune-images-'' @ (if dangling then ''d'' else ''a''),
     ''/api/images/prune?dangling_only='' @ (if dangling then ''true'' else ''false''))"

definition prune_images :: "bool \<Rightarrow> bool \<Rightarrow> modal_click list \<Rightarrow> (string + string \<times> string) option" where
  "prune_images dangling confirmed clicks =
     (if dangling then Some (if confirmed then Inr (prune_request True) else Inl ''Cancelled'')
      else map_option (\<lambda>go. if go then Inr (prune_request False) else Inl ''Cancelled'') (modal_decision clicks))"

definition pruned_toast :: "string \<Rightarrow> json \<Rightarrow> toast" where
  "pruned_toast lbl resp = (let n = json_int (json_get resp ''deleted_count''); mb = json_get resp ''space_reclaimed_mb'' in
     if n \<noteq> 0 then (''Pruned '' @ show_int n @ '' image'' @ (if n = 1 then [] else ''s'') @ '' '' @ em_dash @ '' reclaimed '' @
       (if truthy mb then js_string (the mb) else ''0'') @ '' MB (not reversible)'', Success)
     else (''No '' @ lbl @ '' images to prune'', Info))"

definition prune_reply :: "bool \<Rightarrow> json \<Rightarrow> reply_effect" where
  "prune_reply dangling resp = (let lbl = (if dangling then ''dangling'' else ''unused'') in
     undo_reply (''Image prune ('' @ lbl @ '')'') (pruned_toast lbl resp) resp)"

section \<open>Tagging, push and pull\<close>

definition new_ref :: "string \<Rightarrow> string \<Rightarrow> string" where
  "new_ref repo tagtext = repo @ '':'' @ or_str tagtext ''latest''"

text \<open>Another image that holds the reference: \<open>imgs\<close> is the answer to the list asked for at the click.\<close>

definition holder :: "string \<Rightarrow> string \<Rightarrow> image list \<Rightarrow> image option" where
  "holder i ref imgs = find (\<lambda>img. ref \<in> set (case img_tags img of Some ts \<Rightarrow> ts | None \<Rightarrow> []) \<and> img_id img \<noteq> i) imgs"

definition tag_image :: "string \<Rightarrow> string \<Rightarrow> string \<Rightarrow> image list \<Rightarrow> bool \<Rightarrow> string + string" where
  "tag_image i repo tagtext imgs confirmed =
     (if holder i (new_ref repo tagtext) imgs \<noteq> None \<and> \<not> confirmed then Inl ''Cancelled''
      else Inr (''/api/images/'' @ encode_uri i @ ''/tag?repository='' @ encode_uri repo @ ''&tag='' @
        encode_uri (or_str tagtext ''latest'')))"

definition push_buttons :: "string list \<Rightarrow> (string \<times> string) list" where
  "push_buttons tgs = map (\<lambda>tg. (''Push '' @ last (split_on CHR ''/'' tg), ''/api/images/push?image='' @ encode_uri tg)) tgs"

definition push_image :: "bool \<Rightarrow> string \<Rightarrow> string + string" where
  "push_image confirmed tg = (if \<not> confirmed then Inl ''Cancelled'' else Inr (''/api/images/push?image='' @ encode_uri tg))"

definition pull_image :: "string \<Rightarrow> string + string \<times> int" where
  "pull_image typed = (let image = trim typed in
     if image = [] then Inl ''no image'' else Inr (''/api/images/pull?image='' @ encode_uri image, 310000))"

text \<open>The hint under the input: the allowed registries, or why they are not known (no message: \<open>fetch failed\<close>).\<close>

definition registry_hint :: "string + string list \<Rightarrow> string" where
  "registry_hint r = (case r of
      Inr regs \<Rightarrow> if regs \<noteq> [] then ''Allowed: '' @ join '', '' regs else ''No registry restriction configured.''
    | Inl msg \<Rightarrow> ''Registry configuration unavailable: '' @ or_str msg ''fetch failed'' @ ''. The pull may still succeed.'')"

text \<open>The sections of the inspect panel; the layers are left out when there are none.\<close>

definition inspect_sections :: "(string \<times> string) list \<Rightarrow> (string \<times> string) list \<Rightarrow> (string \<times> (string \<times> string) list) list" where
  "inspect_sections general layers = [(''General'', general)] @
     (if layers \<noteq> [] then [(''Layer History'', map (\<lambda>(mb, by). (mb @ '' MB'', by)) layers)] else [])"

section \<open>Properties\<close>

text \<open>
  The image table shows the images whose tags or identifier contain the text, all of them for an empty text,
  in the server's order, and every row's buttons act on the image of that row; the tag that Run uses is a tag
  of the image, or its identifier when it has none.
\<close>

theorem image_table_faithful:
  assumes "search_images typed imgs \<noteq> []"
  shows "image_table now (search_images typed imgs) =
      map (\<lambda>i. (image_cells now i, image_buttons i))
        (filter (\<lambda>i. typed = [] \<or> image_matches (to_lower typed) i) imgs) \<and>
    (\<forall>i. [] \<notin> set (image_tags i) \<longrightarrow> run_tag i \<in> set (image_tags i) \<or> (image_tags i = [] \<and> run_tag i = img_id i))"
proof -
  have "search_images typed imgs = filter (\<lambda>i. typed = [] \<or> image_matches (to_lower typed) i) imgs"
    by (simp add: search_images_def Let_def to_lower_def)
  moreover have "run_tag i \<in> set (image_tags i) \<or> (image_tags i = [] \<and> run_tag i = img_id i)"
    if "[] \<notin> set (image_tags i)" for i
    using that by (auto simp: run_tag_def or_str_def split: list.splits)
  ultimately show ?thesis using assms by (simp add: image_table_def)
qed

theorem image_table_faithful_witness:
  "image_table 0 (search_images [] [\<lparr>img_id = ''a1'', img_tags = Some [], img_tag = [], size_mb = ''5'', img_created = None\<rparr>]) =
   [([''<none>'', ''a1'', ''5 MB'', []], [InspectImage ''a1'' ''<none>'', RunImage ''a1'', DeleteImage ''a1'' ''<none>''])]"
proof -
  have "search_images [] [\<lparr>img_id = ''a1'', img_tags = Some [], img_tag = [], size_mb = ''5'', img_created = None\<rparr>] \<noteq> []"
    by (simp add: search_images_def to_lower_def)
  from image_table_faithful [OF this, of 0] show ?thesis
    by (simp add: image_cells_def image_buttons_def display_tag_def run_tag_def image_tags_def rel_time_def)
qed

text \<open>
  A tag is never moved silently: when the reference already names another image, the request goes out only
  with the user's consent; otherwise it goes out at once, for the reference that was tested.
\<close>

theorem tag_move_needs_consent:
  assumes "tag_image i repo tagtext imgs confirmed = Inr url"
  shows "(confirmed \<or> list_all (\<lambda>img. img_id img = i \<or>
       new_ref repo tagtext \<notin> set (case img_tags img of Some ts \<Rightarrow> ts | None \<Rightarrow> [])) imgs) \<and>
    (\<exists>q tg. url = ''/api/images/'' @ encode_uri i @ ''/tag?'' @ q \<and>
       parse_params q = [(''repository'', repo), (''tag'', tg)] \<and> new_ref repo tagtext = repo @ '':'' @ tg)"
proof -
  let ?tg = "or_str tagtext ''latest''"
  let ?q = "''repository='' @ encode_uri repo @ ''&tag='' @ encode_uri ?tg"
  have "plain_key ''repository''" "plain_key ''tag''" by (simp_all add: plain_key_def)
  then have "parse_params ?q = [(''repository'', repo), (''tag'', ?tg)]"
    using parse_more [of "''repository''" repo] parse_one [of "''tag''" ?tg] by simp
  moreover have "url = ''/api/images/'' @ encode_uri i @ ''/tag?'' @ ?q"
    using assms by (simp add: tag_image_def split: if_splits)
  moreover have "confirmed \<or> list_all (\<lambda>img. img_id img = i \<or>
      new_ref repo tagtext \<notin> set (case img_tags img of Some ts \<Rightarrow> ts | None \<Rightarrow> [])) imgs"
    using assms by (auto simp: tag_image_def holder_def find_None_iff list_all_iff split: if_splits)
  ultimately show ?thesis unfolding new_ref_def by blast
qed

theorem tag_move_needs_consent_witness:
  "tag_image ''a1'' ''r'' [] [\<lparr>img_id = ''b2'', img_tags = Some [''r:latest''], img_tag = [], size_mb = [], img_created = None\<rparr>] False
     = Inl ''Cancelled''"
proof (rule ccontr)
  let ?imgs = "[\<lparr>img_id = ''b2'', img_tags = Some [''r:latest''], img_tag = [], size_mb = [], img_created = None\<rparr>]"
  assume "tag_image ''a1'' ''r'' [] ?imgs False \<noteq> Inl ''Cancelled''"
  then obtain url where "tag_image ''a1'' ''r'' [] ?imgs False = Inr url" by (auto simp: tag_image_def split: if_splits)
  from tag_move_needs_consent [OF this] show False by (simp add: new_ref_def)
qed

end
