(* ===== verification/Volumes.thy ===== *)
theory Volumes
  imports ListPage I18n
begin

text \<open>
  pages/volumes.js: the volume table and its search, deletion with the cascade over the containers that mount
  the volume, the prune, the browse action, the inspect entries and the form of a new volume. The texts are
  looked up in the English bundle.
\<close>

definition label :: "string \<Rightarrow> string" where
  "label key = t skiff_strings key None"

section \<open>The table\<close>

text \<open>\<open>vcreated\<close> is the date as the browser prints it, empty when there is none.\<close>

record volume =
  vname :: string
  vdriver :: string
  in_use :: bool
  vcontainers :: "string list"
  vcreated :: string

definition volume_matches :: "string \<Rightarrow> volume \<Rightarrow> bool" where
  "volume_matches needle v = (has_ci (vname v) needle \<or> has_ci (vdriver v) needle)"

definition filter_volumes :: "string \<Rightarrow> volume list \<Rightarrow> volume list" where
  "filter_volumes q vs = filter (\<lambda>v. to_lower q = [] \<or> volume_matches (to_lower q) v) vs"

definition used_by :: "volume \<Rightarrow> string" where
  "used_by v = (if in_use v then join '', '' (vcontainers v) else label ''volumes.unused'')"

datatype volume_row = VolumeRow "string list" string | VolumeNote string

definition volume_rows :: "string \<Rightarrow> volume list \<Rightarrow> volume_row list" where
  "volume_rows q vs = (let shown = filter_volumes q vs in
     if shown = [] then [VolumeNote (if to_lower q \<noteq> [] then label ''common.no_matches'' else label ''volumes.empty'')]
     else map (\<lambda>v. VolumeRow [vname v, vdriver v, used_by v, vcreated v] (vname v)) shown)"

definition volume_heading :: "string \<Rightarrow> volume list \<Rightarrow> string" where
  "volume_heading q vs = label ''volumes.title'' @ heading_count (to_lower q) (filter_volumes q vs) vs"

section \<open>Deleting a volume\<close>

definition volume_url :: "string \<Rightarrow> string" where
  "volume_url n = ''/api/volumes/'' @ encode_uri n"

text \<open>
  The cascade: all removals are sent together, with \<open>force\<close>; their outcomes (\<open>Some\<close> the error's message) are
  awaited, and the volume goes only when none failed.
\<close>

definition removal_urls :: "string list \<Rightarrow> string list" where
  "removal_urls cs = map (\<lambda>c. ''/api/containers/'' @ encode_uri c @ ''?force=true'') cs"

definition failed_removals :: "string list \<Rightarrow> string option list \<Rightarrow> (string \<times> string) list" where
  "failed_removals cs outcomes = map (\<lambda>(c, e). (c, or_str (the e) ''remove failed''))
     (filter (\<lambda>(c, e). e \<noteq> None) (zip cs outcomes))"

text \<open>\<open>Inl\<close>: the toast; \<open>Inr\<close>: the URL handed to \<open>undoableDelete\<close>.\<close>

definition after_removals :: "string \<Rightarrow> string list \<Rightarrow> string option list \<Rightarrow> toast + string" where
  "after_removals n cs outcomes = (case failed_removals cs outcomes of
      (c, e) # _ \<Rightarrow> Inl (''Failed to remove '' @ c @ '': '' @ e, Error)
    | [] \<Rightarrow> Inr (volume_url n))"

text \<open>
  A press of Delete as a machine. \<open>modal_up\<close>: the modal of the cascade is on the page; \<open>removals\<close>: the removal of each
  container, \<open>None\<close> while it is out (the list is empty until the user goes on); \<open>sent_urls\<close>: the addresses of all DELETE
  requests; \<open>vd_toasts\<close>: the toasts.
\<close>

record volume_delete =
  modal_up :: bool
  removals :: "string option option list"
  sent_urls :: "string list"
  vd_toasts :: "toast list"

definition attached_to :: "volume \<Rightarrow> bool" where
  "attached_to v = (in_use v \<and> vcontainers v \<noteq> [])"

definition delete_key :: "volume \<Rightarrow> string" where
  "delete_key v = (if attached_to v then ''del-vol-cascade-'' else ''del-vol-'') @ vname v"

text \<open>
  The press: a volume that containers mount gets the modal, any other the question of the browser, answered by
  \<open>confirmed\<close>. \<open>busy\<close> are the keys of the actions in flight: the guard refuses a second one of the same key.
\<close>

definition press_delete :: "volume \<Rightarrow> bool \<Rightarrow> string list \<Rightarrow> volume_delete" where
  "press_delete v confirmed busy = \<lparr>modal_up = attached_to v, removals = [],
     sent_urls = (if \<not> attached_to v \<and> confirmed \<and> delete_key v \<notin> set busy then [delete_url (volume_url (vname v))] else []),
     vd_toasts = []\<rparr>"

datatype volume_delete_event = InCascade modal_click "string list" | RemovalAnswer nat "string option"

definition go_on :: "volume \<Rightarrow> string list \<Rightarrow> volume_delete \<Rightarrow> volume_delete" where
  "go_on v busy s = (if delete_key v \<in> set busy then s
     else s\<lparr>removals := replicate (length (vcontainers v)) None, sent_urls := sent_urls s @ removal_urls (vcontainers v)\<rparr>)"

definition all_answered :: "volume \<Rightarrow> volume_delete \<Rightarrow> volume_delete" where
  "all_answered v s = (case after_removals (vname v) (vcontainers v) (map the (removals s)) of
      Inl m \<Rightarrow> s\<lparr>vd_toasts := vd_toasts s @ [m]\<rparr>
    | Inr u \<Rightarrow> s\<lparr>sent_urls := sent_urls s @ [delete_url u]\<rparr>)"

fun volume_delete_step :: "volume \<Rightarrow> volume_delete \<Rightarrow> volume_delete_event \<Rightarrow> volume_delete" where
  "volume_delete_step v s (InCascade c busy) = (if \<not> modal_up s then s
     else let s1 = s\<lparr>modal_up := False\<rparr> in if c = GoClick then go_on v busy s1 else s1)"
| "volume_delete_step v s (RemovalAnswer i r) = (if i < length (removals s) \<and> removals s ! i = None
     then let s1 = s\<lparr>removals := (removals s)[i := Some r]\<rparr> in if None \<in> set (removals s1) then s1 else all_answered v s1
     else s)"

section \<open>Prune, browse, inspect, create\<close>

definition volumes_pruned :: "json \<Rightarrow> toast" where
  "volumes_pruned resp = (t skiff_strings ''volumes.toast.pruned''
     (Some [(''count'', show_nat (case json_get resp ''deleted'' of Some (JArr xs) \<Rightarrow> length xs | _ \<Rightarrow> 0)),
       (''size'', (let mb = json_get resp ''space_reclaimed_mb'' in if truthy mb then js_string (the mb) else ''0'') @ '' MB'')]),
     Success)"

definition prune_volumes_reply :: "json \<Rightarrow> reply_effect" where
  "prune_volumes_reply resp = undo_reply ''Volume prune'' (volumes_pruned resp) resp"

text \<open>
  \<open>_openVolumeBrowse\<close>: the files tab that \<open>showDetail\<close> opens reads its path from \<open>_filesPath\<close> at once; the mount
  path is written afterwards.
\<close>

record browse_info =
  helper :: string
  container_id :: string
  mount_path :: string

definition files_tab_path :: "(string \<rightharpoonup> string) \<Rightarrow> string \<Rightarrow> string" where
  "files_tab_path fp i = (case fp i of None \<Rightarrow> ''/'' | Some p \<Rightarrow> or_str p ''/'')"

record browse_result =
  opened_path :: string
  files_path :: "string \<rightharpoonup> string"
  remembered :: "(string \<times> json) option"
  browse_toast :: toast

definition open_volume_browse :: "string \<Rightarrow> browse_info \<Rightarrow> (string \<rightharpoonup> string) \<Rightarrow> browse_result" where
  "open_volume_browse n info fp =
     \<lparr>opened_path = files_tab_path fp (container_id info),
      files_path = fp(container_id info \<mapsto> or_str (mount_path info) ''/mnt''),
      remembered = (if helper info \<noteq> [] then Some (''skiff.volbrowse.'' @ container_id info,
        JObj [(''volume'', JStr n), (''helper'', JStr (helper info))]) else None),
      browse_toast = (if helper info \<noteq> []
        then ''Spawned helper alpine container to browse volume '' @ dquote @ n @ dquote
        else ''Browsing volume '' @ dquote @ n @ dquote @ '' via attached container'', Info)\<rparr>"

text \<open>The inspect entries; \<open>-1\<close> says that the driver reports no usage, an empty object reads as none.\<close>

record volume_detail =
  d_name :: string
  d_driver :: string
  d_scope :: string
  d_mountpoint :: string
  d_created :: string
  usage_bytes :: int
  ref_count :: int
  d_labels :: "(string \<times> json) list"
  d_options :: "(string \<times> json) list"
  d_status :: "(string \<times> json) list"
  d_containers :: "string list"

definition none_text :: string where
  "none_text = ''('' @ to_lower (label ''common.none'') @ '')''"

definition usage_value :: "int \<Rightarrow> 'h kv_value" where
  "usage_value n = KvPrim (if n = - 1 then ''(not reported by driver)'' else show_int n)"

definition obj_value :: "(string \<times> json) list \<Rightarrow> 'h kv_value" where
  "obj_value kvs = (if kvs \<noteq> [] then KvObj (JObj kvs) else KvPrim none_text)"

definition volume_entries :: "volume_detail \<Rightarrow> (string \<times> 'h kv_value) list" where
  "volume_entries d =
     [(label ''volumes.columns.name'', KvPrim (d_name d)), (label ''volumes.columns.driver'', KvPrim (d_driver d)),
      (label ''volumes.inspect.scope'', KvPrim (or_str (d_scope d) (label ''volumes.inspect.local_default''))),
      (label ''volumes.columns.mountpoint'', KvPrim (d_mountpoint d)), (label ''volumes.columns.created'', KvPrim (d_created d)),
      (label ''volumes.inspect.usage_bytes'', usage_value (usage_bytes d)),
      (label ''volumes.inspect.ref_count'', usage_value (ref_count d)),
      (label ''volumes.inspect.labels'', obj_value (d_labels d)), (label ''volumes.inspect.options'', obj_value (d_options d))] @
     (if d_status d \<noteq> [] then [(label ''volumes.inspect.status'', KvObj (JObj (d_status d)))] else []) @
     [(label ''volumes.inspect.used_by'', KvPrim (if d_containers d \<noteq> [] then join '', '' (d_containers d) else none_text))]"

definition create_volume_params :: "(string \<times> fvalue) list \<Rightarrow> (string \<times> string) list" where
  "create_volume_params vs =
     set_if (str_value vs ''driver_opts'' \<noteq> []) ''driver_opts'' (str_value vs ''driver_opts'')
       (set_if (str_value vs ''labels'' \<noteq> []) ''labels'' (str_value vs ''labels'')
         (set_if (str_value vs ''driver'' \<noteq> []) ''driver'' (str_value vs ''driver'')
           [(''name'', str_value vs ''name'')]))"

definition create_volume_url :: "(string \<times> fvalue) list \<Rightarrow> string" where
  "create_volume_url vs = ''/api/volumes/create?'' @ params_text (create_volume_params vs)"

section \<open>Properties\<close>

lemma failed_none: "length outcomes = length cs \<Longrightarrow> failed_removals cs outcomes = [] \<longleftrightarrow> list_all (\<lambda>e. e = None) outcomes"
proof (induction cs outcomes rule: list_induct2')
  case (4 c cs e es)
  then show ?case by (cases e) (auto simp: failed_removals_def)
qed (auto simp: failed_removals_def)

lemma failed_first: "length a = length pre \<Longrightarrow> list_all (\<lambda>e. e = None) a \<Longrightarrow>
    failed_removals (pre @ c # post) (a @ Some e # b) = (c, or_str e ''remove failed'') # failed_removals post b"
  by (induction pre a rule: list_induct2') (auto simp: failed_removals_def)

definition vdel_inv :: "volume \<Rightarrow> bool \<Rightarrow> volume_delete \<Rightarrow> bool" where
  "vdel_inv v plain s \<longleftrightarrow>
     (if removals s = [] then sent_urls s = (if plain then [delete_url (volume_url (vname v))] else []) \<and> vd_toasts s = []
      else attached_to v \<and> \<not> modal_up s \<and> \<not> plain \<and> length (removals s) = length (vcontainers v) \<and>
        sent_urls s = removal_urls (vcontainers v) @
          (if list_all (\<lambda>r. r = Some None) (removals s) then [delete_url (volume_url (vname v))] else []) \<and>
        vd_toasts s = (if None \<in> set (removals s) then [] else
          (case failed_removals (vcontainers v) (map the (removals s)) of
             (c, e) # _ \<Rightarrow> [(''Failed to remove '' @ c @ '': '' @ e, Error)] | [] \<Rightarrow> []))) \<and>
     (modal_up s \<longrightarrow> attached_to v \<and> \<not> plain)"

lemma all_settled: "None \<notin> set rs \<Longrightarrow> list_all (\<lambda>r. r = Some None) rs \<longleftrightarrow> list_all (\<lambda>e. e = None) (map the rs)"
  by (auto simp: list_all_iff) (metis option.exhaust_sel)

lemma volume_delete_inv: "vdel_inv v plain s \<Longrightarrow> vdel_inv v plain (volume_delete_step v s e)"
proof (cases e)
  case (InCascade c busy)
  assume inv: "vdel_inv v plain s"
  show ?thesis
  proof (cases "modal_up s")
    case True
    with inv have old: "removals s = []" "attached_to v" "\<not> plain" by (auto simp: vdel_inv_def split: if_splits)
    with inv have "sent_urls s = []" "vd_toasts s = []" by (simp_all add: vdel_inv_def)
    moreover have "vcontainers v \<noteq> []" using old(2) by (simp add: attached_to_def)
    ultimately show ?thesis using InCascade True old by (simp add: vdel_inv_def go_on_def Let_def list_all_iff)
  next
    case False
    with inv InCascade show ?thesis by simp
  qed
next
  case (RemovalAnswer i r)
  assume inv: "vdel_inv v plain s"
  show ?thesis
  proof (cases "i < length (removals s) \<and> removals s ! i = None")
    case False
    with inv RemovalAnswer show ?thesis by auto
  next
    case True
    let ?rs = "(removals s)[i := Some r]"
    have out: "None \<in> set (removals s)" using True nth_mem by fastforce
    then have "\<not> list_all (\<lambda>r. r = Some None) (removals s)" by (auto simp: list_all_iff)
    moreover have ne: "removals s \<noteq> []" "?rs \<noteq> []" using True by auto
    ultimately have old: "attached_to v" "\<not> modal_up s" "\<not> plain" "length (removals s) = length (vcontainers v)"
      "sent_urls s = removal_urls (vcontainers v)" "vd_toasts s = []"
      using inv out by (simp_all add: vdel_inv_def)
    show ?thesis
    proof (cases "None \<in> set ?rs")
      case True
      then have "\<not> list_all (\<lambda>r. r = Some None) ?rs" by (auto simp: list_all_iff)
      with True old ne \<open>i < length (removals s) \<and> removals s ! i = None\<close> RemovalAnswer show ?thesis
        by (simp add: vdel_inv_def)
    next
      case False
      have "failed_removals (vcontainers v) (map the ?rs) = [] \<longleftrightarrow> list_all (\<lambda>r. r = Some None) ?rs"
        using failed_none [of "map the ?rs" "vcontainers v"] all_settled [OF False] old(4) by simp
      with False old ne True RemovalAnswer show ?thesis
        by (cases "failed_removals (vcontainers v) (map the ?rs)")
          (simp_all add: vdel_inv_def all_answered_def after_removals_def split_beta)
    qed
  qed
qed

lemma vdel_run_inv:
  "vdel_inv v (\<not> attached_to v \<and> confirmed \<and> delete_key v \<notin> set busy) (run_events (volume_delete_step v) (press_delete v confirmed busy) es)"
proof (rule run_events_invariant [where P = "vdel_inv v (\<not> attached_to v \<and> confirmed \<and> delete_key v \<notin> set busy)"])
  show "vdel_inv v (\<not> attached_to v \<and> confirmed \<and> delete_key v \<notin> set busy) (press_delete v confirmed busy)"
    by (simp add: vdel_inv_def press_delete_def)
qed (rule volume_delete_inv)

text \<open>The user has gone on in the modal, before closing it in another way.\<close>

definition goes_on :: "volume_delete_event list \<Rightarrow> bool" where
  "goes_on es \<longleftrightarrow> (case filter (\<lambda>e. case e of InCascade c busy \<Rightarrow> True | _ \<Rightarrow> False) es of InCascade c busy # _ \<Rightarrow> c = GoClick | _ \<Rightarrow> False)"

lemma not_gone_on: "removals s = [] \<Longrightarrow> \<not> modal_up s \<or> \<not> goes_on es \<Longrightarrow> removals (run_events (volume_delete_step v) s es) = []"
proof (induction es arbitrary: s)
  case (Cons e es)
  have "removals (volume_delete_step v s e) = [] \<and> (\<not> modal_up (volume_delete_step v s e) \<or> \<not> goes_on es)"
    using Cons.prems by (cases e) (auto simp: goes_on_def)
  with Cons.IH show ?case by simp
qed simp



text \<open>
  The request for a new volume carries what was typed: read back by the server it has the name, and driver,
  labels and driver options exactly when they were given, with every newline, equals sign and ampersand.
\<close>

theorem create_volume_sends_typed:
  "\<exists>q. create_volume_url vs = ''/api/volumes/create?'' @ q \<and>
     (\<forall>k. map_of (parse_params q) k =
       (if k = ''name'' \<or> k \<in> {''driver'', ''labels'', ''driver_opts''} \<and> str_value vs k \<noteq> []
        then Some (str_value vs k) else None))"
  by (rule exI [of _ "params_text (create_volume_params vs)"])
    (auto simp: create_volume_url_def parse_params_text create_volume_params_def map_of_set_if)

text \<open>The first time a volume is browsed the files tab shows the root of the container, not the mount.\<close>

theorem first_browse_misses_mount:
  assumes "fp (container_id info) = None"
  shows "opened_path (open_volume_browse n info fp) = ''/'' \<and>
    opened_path (open_volume_browse n info (files_path (open_volume_browse n info fp))) = or_str (mount_path info) ''/mnt''"
  using assms by (simp add: open_volume_browse_def files_tab_path_def or_str_def)

end
