(* ===== verification/Networks.thy ===== *)
theory Networks
  imports ListPage
begin

text \<open>
  pages/networks.js: the network table with its search, the buttons of a row (none for the built-in networks),
  prune and deletion with an undo window, connecting and disconnecting containers, and the form of a new network.
\<close>

section \<open>The table\<close>

text \<open>\<open>ipam\<close> holds the subnets (empty: absent); \<open>members\<close> the attached containers, identifier and name.\<close>

record network =
  nname :: string
  nid :: string
  ndriver :: string
  nscope :: string
  ipam :: "string list"
  members :: "(string \<times> string) list"

definition built_in :: "string \<Rightarrow> bool" where
  "built_in n = (n \<in> set [''bridge'', ''host'', ''none''])"

definition subnets :: "network \<Rightarrow> string" where
  "subnets n = join '', '' (nonempty (ipam n))"

definition network_matches :: "string \<Rightarrow> network \<Rightarrow> bool" where
  "network_matches needle n = (has_ci (nname n) needle \<or> has_ci (ndriver n) needle \<or> has_ci (subnets n) needle)"

definition filter_networks :: "string \<Rightarrow> network list \<Rightarrow> network list" where
  "filter_networks q ns = filter (\<lambda>n. to_lower q = [] \<or> network_matches (to_lower q) n) ns"

definition network_heading :: "string \<Rightarrow> network list \<Rightarrow> string" where
  "network_heading q ns = ''Networks'' @ heading_count (to_lower q) (filter_networks q ns) ns"

datatype network_button = ConnectTo string string | Disconnect string string string | DeleteNetwork string string

definition network_buttons :: "network \<Rightarrow> network_button list" where
  "network_buttons n = (if built_in (nname n) then []
     else [ConnectTo (nid n) (nname n)] @ map (\<lambda>(i, c). Disconnect (nid n) i c) (members n) @ [DeleteNetwork (nid n) (nname n)])"

definition network_cells :: "network \<Rightarrow> string list" where
  "network_cells n = [nname n @ (if built_in (nname n) then ''built-in'' else []), nid n, ndriver n, nscope n,
     (if members n \<noteq> [] then join '', '' (map snd (members n)) else ''none''), subnets n]"

datatype network_row = NetworkRow "string list" "network_button list" | NetworkNote string

definition network_rows :: "string \<Rightarrow> network list \<Rightarrow> network_row list" where
  "network_rows q ns = (let shown = filter_networks q ns in
     if shown = [] then [NetworkNote (if to_lower q \<noteq> [] then ''No matches'' else ''No networks found'')]
     else map (\<lambda>n. NetworkRow (network_cells n) (network_buttons n)) shown)"

section \<open>Actions\<close>

text \<open>
  What a button of a row sends when its question is answered with yes or no: method and address, with the
  guard's key if there is one. Connecting only opens the modal.
\<close>

datatype network_request = Post string | DeleteRequest string

definition press_network_button :: "bool \<Rightarrow> network_button \<Rightarrow> string + (string option \<times> network_request) option" where
  "press_network_button confirmed b = (case b of
      ConnectTo i n \<Rightarrow> Inr None
    | Disconnect i c cn \<Rightarrow> if \<not> confirmed then Inl ''Cancelled''
        else Inr (Some (None, Post (''/api/networks/'' @ i @ ''/disconnect?container_id='' @ c)))
    | DeleteNetwork i n \<Rightarrow> if \<not> confirmed then Inl ''Cancelled''
        else Inr (Some (Some (''del-net-'' @ i), DeleteRequest (''/api/networks/'' @ i @ ''?undo=true''))))"

definition prune_networks :: "bool \<Rightarrow> string + string option \<times> network_request" where
  "prune_networks confirmed = (if \<not> confirmed then Inl ''Cancelled''
     else Inr (Some ''prune-networks'', Post ''/api/networks/prune''))"

definition delete_network_reply :: "string \<Rightarrow> json \<Rightarrow> reply_effect" where
  "delete_network_reply n resp = undo_reply (''Network '' @ dquote @ n @ dquote @ '' delete'') (''Network deleted'', Info) resp"

definition prune_networks_reply :: "json \<Rightarrow> reply_effect" where
  "prune_networks_reply resp = undo_reply ''Network prune''
     (let n = (case json_get resp ''deleted'' of Some (JArr xs) \<Rightarrow> length xs | _ \<Rightarrow> 0) in
      (if n > 0 then ''Pruned '' @ show_nat n @ '' network'' @ (if n = 1 then [] else ''s'')
       else ''No unused custom networks to prune'', if n > 0 then Success else Info)) resp"

section \<open>The forms\<close>

definition create_network_params :: "(string \<times> fvalue) list \<Rightarrow> (string \<times> string) list" where
  "create_network_params vs =
     set_if (bool_value vs ''enable_ipv6'') ''enable_ipv6'' ''true''
       (set_if (bool_value vs ''attachable'') ''attachable'' ''true''
         (set_if (bool_value vs ''internal'') ''internal'' ''true''
           (set_if (str_value vs ''labels'' \<noteq> []) ''labels'' (str_value vs ''labels'')
             (set_if (str_value vs ''gateway'' \<noteq> []) ''gateway'' (str_value vs ''gateway'')
               (set_if (str_value vs ''subnet'' \<noteq> []) ''subnet'' (str_value vs ''subnet'')
                 [(''name'', str_value vs ''name''), (''driver'', or_str (str_value vs ''driver'') ''bridge'')])))))"

definition create_network_url :: "(string \<times> fvalue) list \<Rightarrow> string" where
  "create_network_url vs = ''/api/networks/create?'' @ params_text (create_network_params vs)"

text \<open>The options of the connect form, from the containers (identifier, name, state), and its request.\<close>

definition connect_options :: "(string \<times> string \<times> string) list \<Rightarrow> option_spec list" where
  "connect_options cs = map (\<lambda>(i, n, s). \<lparr>opt_value = i, opt_label = n @ '' ('' @ s @ '')'', opt_selected = False\<rparr>) cs"

definition connect_url :: "string \<Rightarrow> (string \<times> fvalue) list \<Rightarrow> string" where
  "connect_url i vs = ''/api/networks/'' @ i @ ''/connect?container_id='' @ str_value vs ''container_id''"

section \<open>Properties\<close>

text \<open>
  The built-in networks cannot be touched and nothing else is hidden: whatever is typed and answered, every
  request a row's button sends goes to a network on the list that matches the text and is not built-in, and
  every network that matches has a row.
\<close>

theorem built_in_networks_untouched:
  assumes "NetworkRow cells bs \<in> set (network_rows q ns)" and "b \<in> set bs"
    and "press_network_button yes b = Inr (Some (k, r))"
  shows "yes \<and> (\<exists>n \<in> set ns. \<not> built_in (nname n) \<and> cells = network_cells n \<and>
      (to_lower q = [] \<or> network_matches (to_lower q) n) \<and>
      (r = DeleteRequest (''/api/networks/'' @ nid n @ ''?undo=true'') \<or>
       (\<exists>c \<in> set (members n). r = Post (''/api/networks/'' @ nid n @ ''/disconnect?container_id='' @ fst c)))) \<and>
    length (network_rows q ns) = length (filter_networks q ns)"
proof -
  obtain n where n: "n \<in> set ns" "to_lower q = [] \<or> network_matches (to_lower q) n" "cells = network_cells n"
    "bs = network_buttons n"
    using assms(1) by (auto simp: network_rows_def filter_networks_def Let_def split: if_splits)
  with assms(2) have "\<not> built_in (nname n)" by (auto simp: network_buttons_def split: if_splits)
  moreover have "length (network_rows q ns) = length (filter_networks q ns)"
    using assms(1) by (auto simp: network_rows_def Let_def split: if_splits)
  moreover have "r = DeleteRequest (''/api/networks/'' @ nid n @ ''?undo=true'') \<or>
       (\<exists>c \<in> set (members n). r = Post (''/api/networks/'' @ nid n @ ''/disconnect?container_id='' @ fst c))"
    using assms(2,3) n(4) by (auto simp: network_buttons_def press_network_button_def split: if_splits) force
  moreover have yes using assms(3) by (auto simp: press_network_button_def split: network_button.splits if_splits)
  ultimately show ?thesis using n by blast
qed

theorem built_in_networks_untouched_witness:
  "length (network_rows [] [\<lparr>nname = ''app'', nid = ''n1'', ndriver = ''bridge'', nscope = ''local'', ipam = [], members = []\<rparr>]) = 1"
proof -
  let ?n = "\<lparr>nname = ''app'', nid = ''n1'', ndriver = ''bridge'', nscope = ''local'', ipam = [], members = []\<rparr>"
  have f: "filter_networks [] [?n] = [?n]" by (simp add: filter_networks_def to_lower_def)
  then have "NetworkRow (network_cells ?n) (network_buttons ?n) \<in> set (network_rows [] [?n])" by (simp add: network_rows_def)
  moreover have "DeleteNetwork ''n1'' ''app'' \<in> set (network_buttons ?n)" by (simp add: network_buttons_def built_in_def)
  moreover have "press_network_button True (DeleteNetwork ''n1'' ''app'') =
      Inr (Some (Some ''del-net-n1'', DeleteRequest ''/api/networks/n1?undo=true''))"
    by (simp add: press_network_button_def)
  ultimately show ?thesis using built_in_networks_untouched f by fastforce
qed

text \<open>
  The request for a new network: read back it has the name, the driver (bridge when none was chosen), the texts
  exactly when they are not empty and the switches exactly when they are on.
\<close>

theorem create_network_sends_typed:
  "\<exists>q. create_network_url vs = ''/api/networks/create?'' @ q \<and>
     (\<forall>k. map_of (parse_params q) k =
       (if k = ''name'' then Some (str_value vs k)
        else if k = ''driver'' then Some (or_str (str_value vs k) ''bridge'')
        else if k \<in> {''subnet'', ''gateway'', ''labels''} \<and> str_value vs k \<noteq> [] then Some (str_value vs k)
        else if k \<in> {''internal'', ''attachable'', ''enable_ipv6''} \<and> bool_value vs k then Some ''true'' else None))"
proof (intro exI [of _ "params_text (create_network_params vs)"] conjI allI)
  show "create_network_url vs = ''/api/networks/create?'' @ params_text (create_network_params vs)"
    by (simp add: create_network_url_def)
  fix k
  let ?sent = "if k = ''name'' then Some (str_value vs k)
        else if k = ''driver'' then Some (or_str (str_value vs k) ''bridge'')
        else if k \<in> {''subnet'', ''gateway'', ''labels''} \<and> str_value vs k \<noteq> [] then Some (str_value vs k)
        else if k \<in> {''internal'', ''attachable'', ''enable_ipv6''} \<and> bool_value vs k then Some ''true'' else None"
  have "map_of (create_network_params vs) k = ?sent"
  proof (cases "k \<in> {''name'', ''driver'', ''subnet'', ''gateway'', ''labels'', ''internal'', ''attachable'', ''enable_ipv6''}")
    case True
    then show ?thesis unfolding insert_iff empty_iff create_network_params_def
      by (elim disjE FalseE) (simp_all add: map_of_set_if_at)
  next
    case False
    then show ?thesis by (simp add: create_network_params_def map_of_set_if_at)
  qed
  then show "map_of (parse_params (params_text (create_network_params vs))) k = ?sent"
    by (simp only: parse_params_text)
qed

end
