(* ===== verification/Templates.thy ===== *)
theory Templates
  imports ListPage
begin

text \<open>
  pages/templates.js: the two catalogues with their shared search, the cards, and the deployment of a stack: its
  form and the substitution of the values into the compose file.
\<close>

section \<open>Data\<close>

record env_knob =
  ek_key :: string
  ek_description :: string
  ek_secret :: bool

record stack_template =
  tm_id :: string
  tm_name :: string
  tm_description :: string
  tm_category :: string
  tm_image :: string
  tm_images :: "string list"
  tm_yaml :: string
  tm_env :: "env_knob list"
  tm_ports :: "string list"
  is_allowed :: bool
  reject_reason :: string

section \<open>The catalogue\<close>

definition template_matches :: "string \<Rightarrow> stack_template \<Rightarrow> bool" where
  "template_matches needle tm = (needle = [] \<or> has_ci (tm_name tm) needle \<or> has_ci (tm_description tm) needle \<or>
     has_ci (tm_category tm) needle \<or> has_ci (tm_image tm) needle \<or> list_ex (\<lambda>i. has_ci i needle) (tm_images tm))"

text \<open>A card: its texts, its title, and the template a click deploys, if it is clickable.\<close>

record catalogue_card =
  card_texts :: "string list"
  card_title :: string
  card_deploys :: "string option"

definition reject_title :: "stack_template \<Rightarrow> string" where
  "reject_title tm = (if is_allowed tm then []
     else ''Not deployable: '' @ or_str (reject_reason tm) ''registry not in allowlist'')"

definition app_card :: "stack_template \<Rightarrow> catalogue_card" where
  "app_card tm = \<lparr>card_texts = [tm_name tm, tm_category tm, tm_image tm, tm_description tm], card_title = reject_title tm,
     card_deploys = (if is_allowed tm then Some (tm_id tm) else None)\<rparr>"

text \<open>The services of a compose file are counted by its lines of two blanks, a word and a colon.\<close>

definition word_char :: "char \<Rightarrow> bool" where
  "word_char c = (let n = (of_char c :: nat) in
     (48 \<le> n \<and> n \<le> 57) \<or> (65 \<le> n \<and> n \<le> 90) \<or> (97 \<le> n \<and> n \<le> 122) \<or> n = 95)"

definition service_line :: "string \<Rightarrow> bool" where
  "service_line l = (starts_with ''  '' l \<and> length l > 3 \<and> last l = CHR '':'' \<and> list_all word_char (butlast (drop 2 l)))"

definition yaml_lines :: "string \<Rightarrow> string list" where
  "yaml_lines s = split_on (CHR 0x0A) (map (\<lambda>c. if c = CHR 0x0D then CHR 0x0A else c) s)"

definition service_count :: "string \<Rightarrow> nat" where
  "service_count yaml = length (filter service_line (yaml_lines yaml))"

definition stack_meta :: "stack_template \<Rightarrow> string list" where
  "stack_meta tm = (let n = service_count (tm_yaml tm) in
     (if n \<noteq> 0 then [show_nat n @ '' services''] else []) @
     (if tm_env tm \<noteq> [] then [show_nat (length (tm_env tm)) @ '' env knobs''] else []) @
     (if tm_ports tm \<noteq> [] then [''ports: '' @ join '', '' (tm_ports tm)] else []))"

definition stack_card :: "stack_template \<Rightarrow> catalogue_card" where
  "stack_card tm = \<lparr>card_texts = [tm_name tm, ''STACK'', join ('' '' @ [CHR 0xC2, CHR 0xB7] @ '' '') (tm_images tm),
       tm_description tm] @ stack_meta tm, card_title = reject_title tm,
     card_deploys = (if is_allowed tm then Some (tm_id tm) else None)\<rparr>"

text \<open>A catalogue is its templates or the error of its request; the other one is shown all the same.\<close>

datatype grid = GridError string | GridNote string | GridCards "catalogue_card list"

definition render_grid :: "string \<Rightarrow> string \<Rightarrow> (stack_template \<Rightarrow> catalogue_card) \<Rightarrow> string + stack_template list \<Rightarrow> string \<Rightarrow> grid" where
  "render_grid what kind mk res q = (case res of
      Inl msg \<Rightarrow> GridError (what @ '' unavailable: '' @ msg)
    | Inr tms \<Rightarrow> (let shown = filter (template_matches (to_lower q)) tms in
        if shown = [] then GridNote (if to_lower q \<noteq> [] then ''No '' @ kind @ '' templates match.''
          else ''No '' @ kind @ '' templates available.'')
        else GridCards (map mk shown)))"

definition render_templates :: "string + stack_template list \<Rightarrow> string + stack_template list \<Rightarrow> string \<Rightarrow> grid \<times> grid" where
  "render_templates apps stacks q = (render_grid ''Apps'' ''app'' app_card apps q, render_grid ''Stacks'' ''stack'' stack_card stacks q)"

section \<open>Deploying a stack\<close>

text \<open>\<open>rnd\<close> is the random number of the project's name, below 1000.\<close>

definition plain_field :: "string \<Rightarrow> string \<Rightarrow> field" where
  "plain_field n lbl = \<lparr>name = n, field_label = Some lbl, field_type = TextInput ''text'', field_value = None,
     field_checked = False, field_required = False, validator = (\<lambda>v. []), field_options = [], field_rows = 0,
     placeholder = [], field_help = [], hint = []\<rparr>"

definition env_field :: "env_knob \<Rightarrow> field" where
  "env_field e = (plain_field (''env_'' @ ek_key e)
       (ek_key e @ (if ek_description e \<noteq> [] then '' '' @ em_dash @ '' '' @ ek_description e else [])))
     \<lparr>field_type := TextInput (if ek_secret e then ''password'' else ''text''), field_required := ek_secret e,
      placeholder := (if ek_secret e then ''required'' else [])\<rparr>"

definition deploy_fields :: "nat \<Rightarrow> stack_template \<Rightarrow> field list" where
  "deploy_fields rnd tm = (plain_field ''project_name'' ''Project name'')\<lparr>field_required := True,
       field_value := Some (tm_id tm @ ''-'' @ show_nat rnd),
       hint := ''Lowercase, digits, dash/underscore. Used as the compose project prefix.''\<rparr> # map env_field (tm_env tm)"

definition env_value :: "(string \<times> fvalue) list \<Rightarrow> string \<Rightarrow> string" where
  "env_value vs k = str_value vs (''env_'' @ k)"

definition placeholder_of :: "string \<Rightarrow> string" where
  "placeholder_of k = ''${'' @ k @ ''}''"

definition substitute_env :: "(string \<times> string) list \<Rightarrow> string \<Rightarrow> string" where
  "substitute_env kvs yaml = fold (\<lambda>(k, v) y. replace_all (placeholder_of k) v y) kvs yaml"

text \<open>The request: its address and the text of the uploaded file.\<close>

definition deploy_stack :: "stack_template \<Rightarrow> (string \<times> fvalue) list \<Rightarrow> string \<times> string" where
  "deploy_stack tm vs = (''/api/compose/up?project_name='' @ encode_uri (str_value vs ''project_name''),
     substitute_env (map (\<lambda>e. (ek_key e, env_value vs (ek_key e))) (tm_env tm)) (tm_yaml tm))"

section \<open>The reference reading of a compose file\<close>

text \<open>
  Literal pieces and variables. \<open>piece_ok\<close>: within a literal a dollar sign is followed by a character that is not an opening
  brace (so \<open>$NAME\<close> and \<open>$$NAME\<close> may occur), and names hold no delimiter.
\<close>

fun dollar_ok :: "string \<Rightarrow> bool" where
  "dollar_ok [] = True"
| "dollar_ok [c] = (c \<noteq> CHR ''$'')"
| "dollar_ok (c # d # s) = ((c = CHR ''$'' \<longrightarrow> d \<noteq> CHR ''{'') \<and> dollar_ok (d # s))"

datatype piece = Literal string | Variable string

fun piece_text :: "piece \<Rightarrow> string" where
  "piece_text (Literal s) = s"
| "piece_text (Variable w) = placeholder_of w"

fun piece_ok :: "piece \<Rightarrow> bool" where
  "piece_ok (Literal s) = dollar_ok s"
| "piece_ok (Variable w) = (CHR ''$'' \<notin> set w \<and> CHR ''}'' \<notin> set w)"

definition file_text :: "piece list \<Rightarrow> string" where
  "file_text ps = concat (map piece_text ps)"

fun fill :: "(string \<rightharpoonup> string) \<Rightarrow> piece \<Rightarrow> string" where
  "fill m (Literal s) = s"
| "fill m (Variable w) = (case m w of None \<Rightarrow> placeholder_of w | Some v \<Rightarrow> v)"

fun fill_one :: "string \<Rightarrow> string \<Rightarrow> piece \<Rightarrow> piece" where
  "fill_one k v (Literal s) = Literal s"
| "fill_one k v (Variable w) = (if w = k then Literal v else Variable w)"

lemma dollar_free: "CHR ''$'' \<notin> set l \<Longrightarrow> dollar_ok l"
  by (induction l rule: dollar_ok.induct) auto

lemma replace_literal: "dollar_ok l \<Longrightarrow> replace_all (placeholder_of k) v (l @ s) = l @ replace_all (placeholder_of k) v s"
  by (induction l rule: dollar_ok.induct) (auto simp: placeholder_of_def)

lemma same_prefix: "a @ CHR ''}'' # x = b @ CHR ''}'' # y \<Longrightarrow> CHR ''}'' \<notin> set a \<Longrightarrow> CHR ''}'' \<notin> set b \<Longrightarrow> a = b"
  by (induction a b rule: list_induct2') auto

lemma replace_variable:
  assumes "CHR ''$'' \<notin> set w" and "CHR ''}'' \<notin> set w" and "CHR ''}'' \<notin> set k"
  shows "replace_all (placeholder_of k) v (placeholder_of w @ s) =
    (if w = k then v else placeholder_of w) @ replace_all (placeholder_of k) v s"
proof (cases "w = k")
  case True
  have "replace_all p v (c # t) = v @ replace_all p v (drop (length p) (c # t))" if "p \<noteq> []" "starts_with p (c # t)" for p c t
    using that by simp
  from this [of "placeholder_of k" "CHR ''$''" "CHR ''{'' # k @ CHR ''}'' # s"] starts_with_append [of "placeholder_of k" s] True
  show ?thesis by (simp add: placeholder_of_def)
next
  case False
  have "\<not> starts_with (placeholder_of k) (placeholder_of w @ s)"
  proof
    assume "starts_with (placeholder_of k) (placeholder_of w @ s)"
    then obtain x where "w @ CHR ''}'' # s = k @ CHR ''}'' # x" by (auto simp: starts_with_iff placeholder_of_def)
    from same_prefix [OF this assms(2,3)] False show "False" by simp
  qed
  then have "replace_all (placeholder_of k) v (placeholder_of w @ s) =
      CHR ''$'' # replace_all (placeholder_of k) v (CHR ''{'' # w @ CHR ''}'' # s)"
    by (simp add: placeholder_of_def)
  also have "\<dots> = CHR ''$'' # (''{'' @ w @ ''}'') @ replace_all (placeholder_of k) v s"
    using replace_literal [OF dollar_free, of "''{'' @ w @ ''}''" k v s] assms(1) by simp
  finally show ?thesis using False by (simp add: placeholder_of_def)
qed

lemma replace_pieces:
  assumes "list_all piece_ok ps" and "CHR ''}'' \<notin> set k"
  shows "replace_all (placeholder_of k) v (file_text ps) = file_text (map (fill_one k v) ps)"
  using assms(1)
proof (induction ps)
  case (Cons p ps)
  with assms(2) show ?case
    by (cases p) (auto simp: file_text_def replace_literal replace_variable)
qed (simp add: file_text_def)

lemma fill_one_ok: "CHR ''$'' \<notin> set v \<Longrightarrow> piece_ok p \<Longrightarrow> piece_ok (fill_one k v p)"
  by (cases p) (auto simp: dollar_free)

lemma substitute_pieces:
  "list_all piece_ok ps \<Longrightarrow> list_all (\<lambda>(k, v). CHR ''}'' \<notin> set k \<and> CHR ''$'' \<notin> set v) kvs \<Longrightarrow>
   substitute_env kvs (file_text ps) = concat (map (fill (map_of kvs)) ps)"
proof (induction kvs arbitrary: ps)
  case Nil
  have "fill Map.empty p = piece_text p" for p by (cases p) simp_all
  then show ?case by (simp add: substitute_env_def file_text_def)
next
  case (Cons kv kvs)
  obtain k v where kv: "kv = (k, v)" by (cases kv)
  have "list_all piece_ok (map (fill_one k v) ps)"
    using Cons.prems kv fill_one_ok by (auto simp: list_all_iff)
  from Cons.IH [OF this] Cons.prems have "substitute_env (kv # kvs) (file_text ps) =
      concat (map (fill (map_of kvs)) (map (fill_one k v) ps))"
    by (simp add: substitute_env_def kv replace_pieces)
  also have "fill (map_of kvs) (fill_one k v p) = fill (map_of (kv # kvs)) p" for p
  proof (cases "p = Variable k")
    case False
    then show ?thesis by (cases p) (auto simp: kv)
  qed (simp add: kv)
  ultimately show ?case by (simp only: map_map o_def)
qed

section \<open>Properties\<close>

text \<open>
  C35: deploying a stack sends the file with every placeholder \<open>${KEY}\<close> of a variable of the template replaced by the value
  typed for it (by nothing when it was left empty) and everything else as it was, as if all were replaced at once; the project
  is the one that was named. It holds for files in which a dollar sign opens a placeholder or is followed by a character other
  than an opening brace (a \<open>$${KEY}\<close> is not covered: it is replaced as well), for names without a closing brace and values
  without a dollar sign. "As it was" includes \<open>${KEY:-default}\<close>, which the comment in the handler (templates.js) says is filled:
  it is sent to the server with its default, whatever was typed.
\<close>

theorem deploy_fills_placeholders:
  assumes "tm_yaml tm = file_text ps" and "list_all piece_ok ps"
    and "list_all (\<lambda>e. CHR ''}'' \<notin> set (ek_key e) \<and> CHR ''$'' \<notin> set (env_value vs (ek_key e))) (tm_env tm)"
  shows "snd (deploy_stack tm vs) = concat (map (fill (\<lambda>w. if w \<in> ek_key ` set (tm_env tm) then Some (env_value vs w) else None)) ps) \<and>
    (\<exists>q. fst (deploy_stack tm vs) = ''/api/compose/up?'' @ q \<and> parse_params q = [(''project_name'', str_value vs ''project_name'')])"
proof -
  let ?kvs = "map (\<lambda>e. (ek_key e, env_value vs (ek_key e))) (tm_env tm)"
  have "map_of (map (\<lambda>e. (ek_key e, env_value vs (ek_key e))) es) =
      (\<lambda>w. if w \<in> ek_key ` set es then Some (env_value vs w) else None)" for es :: "env_knob list"
    by (induction es) (auto simp: fun_eq_iff)
  note m = this [of "tm_env tm"]
  have "list_all (\<lambda>(k, v). CHR ''}'' \<notin> set k \<and> CHR ''$'' \<notin> set v) ?kvs" using assms(3) by (auto simp: list_all_iff)
  from substitute_pieces [OF assms(2) this] have "snd (deploy_stack tm vs) = concat (map (fill (map_of ?kvs)) ps)"
    by (simp add: deploy_stack_def assms(1))
  moreover have "plain_key ''project_name''" by (simp add: plain_key_def)
  then have "parse_params (''project_name='' @ encode_uri (str_value vs ''project_name'')) =
      [(''project_name'', str_value vs ''project_name'')]"
    using parse_one [of "''project_name''"] by simp
  ultimately show ?thesis unfolding m by (auto simp: deploy_stack_def)
qed

theorem deploy_fills_placeholders_witness:
  "snd (deploy_stack \<lparr>tm_id = ''pg'', tm_name = ''pg'', tm_description = [], tm_category = [], tm_image = [], tm_images = [],
      tm_yaml = ''P=${PW};H=$HOME;D=${DB:-x}'', tm_env = [\<lparr>ek_key = ''PW'', ek_description = [], ek_secret = True\<rparr>], tm_ports = [],
      is_allowed = True, reject_reason = []\<rparr> [(''env_PW'', VStr ''s3c'')]) = ''P=s3c;H=$HOME;D=${DB:-x}''"
proof -
  let ?tm = "\<lparr>tm_id = ''pg'', tm_name = ''pg'', tm_description = [], tm_category = [], tm_image = [], tm_images = [],
      tm_yaml = ''P=${PW};H=$HOME;D=${DB:-x}'', tm_env = [\<lparr>ek_key = ''PW'', ek_description = [], ek_secret = True\<rparr>], tm_ports = [],
      is_allowed = True, reject_reason = []\<rparr>"
  have "tm_yaml ?tm = file_text [Literal ''P='', Variable ''PW'', Literal '';H=$HOME;D='', Variable ''DB:-x'']"
    by (simp add: file_text_def placeholder_of_def)
  moreover have "list_all piece_ok [Literal ''P='', Variable ''PW'', Literal '';H=$HOME;D='', Variable ''DB:-x'']" by simp
  moreover have "list_all (\<lambda>e. CHR ''}'' \<notin> set (ek_key e) \<and> CHR ''$'' \<notin> set (env_value [(''env_PW'', VStr ''s3c'')] (ek_key e)))
      (tm_env ?tm)" by (simp add: env_value_def str_value_def)
  ultimately show ?thesis
    using deploy_fills_placeholders by (simp add: env_value_def str_value_def placeholder_of_def)
qed

text \<open>
  The form with a default is not filled in, whatever value is typed; a value that looks like a placeholder of a later
  variable is replaced in its turn; and the escape of compose files, a doubled dollar sign, does not protect a placeholder.
\<close>

theorem default_form_kept: "substitute_env [(''DB'', v)] ''D=${DB:-x}'' = ''D=${DB:-x}''"
  by (simp add: substitute_env_def placeholder_of_def)

theorem escape_ignored: "substitute_env [(''A'', ''b'')] ''x=$${A}'' = ''x=$b''"
  by (simp add: substitute_env_def placeholder_of_def)

theorem value_rescanned:
  "substitute_env [(''A'', ''${B}''), (''B'', ''leak'')] ''a=${A}'' = ''a=leak''"
  by (simp add: substitute_env_def placeholder_of_def)

text \<open>
  Only an allowed template can be deployed from its card; a card that cannot says why; and a catalogue that
  cannot be read does not take the other one with it.
\<close>

theorem cards_respect_allowlist:
  "(card_deploys (app_card tm) = (if is_allowed tm then Some (tm_id tm) else None)) \<and>
   (card_deploys (stack_card tm) = (if is_allowed tm then Some (tm_id tm) else None)) \<and>
   (card_title (app_card tm) = [] \<longleftrightarrow> is_allowed tm) \<and> (card_title (stack_card tm) = [] \<longleftrightarrow> is_allowed tm) \<and>
   snd (render_templates (Inl e) stacks q) = snd (render_templates apps stacks q) \<and>
   fst (render_templates apps (Inl e) q) = fst (render_templates apps stacks q)"
  by (simp add: app_card_def stack_card_def reject_title_def render_templates_def)

end
