(* ===== verification/Compose.thy ===== *)
theory Compose
  imports ListPage
begin

text \<open>
  pages/compose.js: the running stacks with their search, the buttons of a stack's card as sequences of requests,
  the scale form, the aggregated logs, and the upload of a compose file.
\<close>

section \<open>The list of stacks\<close>

record service =
  svc_name :: string
  svc_state :: string
  svc_container :: string

record stack =
  st_name :: string
  st_status :: string
  services :: "service list"

definition stack_matches :: "string \<Rightarrow> stack \<Rightarrow> bool" where
  "stack_matches needle s = (has_ci (st_name s) needle \<or> list_ex (\<lambda>v. has_ci (svc_name v) needle) (services s))"

definition filter_stacks :: "string \<Rightarrow> stack list \<Rightarrow> stack list" where
  "filter_stacks q ss = filter (\<lambda>s. to_lower q = [] \<or> stack_matches (to_lower q) s) ss"

definition stack_heading :: "string \<Rightarrow> stack list \<Rightarrow> string" where
  "stack_heading q ss = ''Running Stacks'' @ heading_count (to_lower q) (filter_stacks q ss) ss"

text \<open>
  \<open>showCompose\<close> paints the page for an answer and for an error alike, and only while the page is open: the error
  is a line above an empty list, whose search is disabled.
\<close>

type_synonym compose_view = "stack list \<times> string option"

definition compose_answer :: "string + stack list \<Rightarrow> compose_view" where
  "compose_answer res = (case res of Inl msg \<Rightarrow> ([], Some (or_str msg ''failed to load stacks'')) | Inr ss \<Rightarrow> (ss, None))"

definition compose_step :: "compose_view list_page \<Rightarrow> (string + stack list) page_event \<Rightarrow> compose_view list_page" where
  "compose_step p e = page_step ''compose'' p (case e of
      LoadCall \<Rightarrow> LoadCall | Answered r \<Rightarrow> Answered (compose_answer r)
    | LoadError m \<Rightarrow> Answered (compose_answer (Inl m)) | Navigate q \<Rightarrow> Navigate q)"

definition search_disabled :: "compose_view \<Rightarrow> bool" where
  "search_disabled v = (fst v = [])"

section \<open>The card of a stack\<close>

definition dot_class :: "string \<Rightarrow> string" where
  "dot_class s = ''dot '' @ (if s = ''running'' then ''ok'' else ''down'')"

definition service_lines :: "stack \<Rightarrow> (string \<times> string) list" where
  "service_lines s = map (\<lambda>v. (dot_class (svc_state v), svc_name v @ '' ('' @ svc_state v @ '')'')) (services s)"

datatype stack_action = RestartService string | StartStack | StopStack | PullUpdates | ScaleStack | RestartAll | TearDown

definition stack_url :: "string \<Rightarrow> string \<Rightarrow> string" where
  "stack_url n rest = ''/api/compose/'' @ encode_uri n @ rest"

text \<open>A POST request with its own timeout in milliseconds, if it has one.\<close>

record post =
  post_url :: string
  post_timeout :: "int option"

definition post_to :: "string \<Rightarrow> post" where
  "post_to u = \<lparr>post_url = u, post_timeout = None\<rparr>"

definition down_post :: "string \<Rightarrow> string \<Rightarrow> post" where
  "down_post n extra = \<lparr>post_url = ''/api/compose/down?project_name='' @ encode_uri n @ extra, post_timeout = Some 70000\<rparr>"

definition up_post :: "string \<Rightarrow> post" where
  "up_post n = \<lparr>post_url = ''/api/compose/up?project_name='' @ encode_uri n, post_timeout = Some 130000\<rparr>"

text \<open>
  What a click does: the requests it sends, in order, the toasts, whether the page is loaded again, the effect of
  an undo token, and the error it throws, which the button reports. \<open>answers\<close> are the server's answers to its
  requests (\<open>Inl\<close> the error's message).
\<close>

record outcome =
  sent :: "post list"
  said :: "toast list"
  reloads :: bool
  queued :: "reply_effect option"
  thrown :: "string option"

definition nothing :: outcome where
  "nothing = \<lparr>sent = [], said = [], reloads = False, queued = None, thrown = None\<rparr>"

lemma nothing_simps [simp]: "sent nothing = []" "said nothing = []" "reloads nothing = False" "queued nothing = None"
  "thrown nothing = None"
  by (simp_all add: nothing_def)

definition one_post :: "post \<Rightarrow> toast \<Rightarrow> bool \<Rightarrow> (string + json) list \<Rightarrow> outcome" where
  "one_post p msg reload answers = (case answers of
      Inr _ # _ \<Rightarrow> nothing\<lparr>sent := [p], said := [msg], reloads := reload\<rparr>
    | Inl e # _ \<Rightarrow> nothing\<lparr>sent := [p], thrown := Some e\<rparr>
    | [] \<Rightarrow> nothing\<lparr>sent := [p]\<rparr>)"

definition restart_all :: "string \<Rightarrow> (string + json) list \<Rightarrow> outcome" where
  "restart_all n answers =
     (let down = down_post n ''&undo=false''; stopped = (n @ '' stopped, restarting...'', Info) in
      case answers of
        Inl e # _ \<Rightarrow> nothing\<lparr>sent := [down], thrown := Some e\<rparr>
      | Inr _ # rest \<Rightarrow>
          (case rest of
             Inr _ # _ \<Rightarrow> nothing\<lparr>sent := [down, up_post n], said := [stopped, (n @ '' restarted'', Success)], reloads := True\<rparr>
           | Inl e # _ \<Rightarrow> nothing\<lparr>sent := [down, up_post n], said := [stopped], thrown := Some e\<rparr>
           | [] \<Rightarrow> nothing\<lparr>sent := [down, up_post n], said := [stopped]\<rparr>)
      | [] \<Rightarrow> nothing\<lparr>sent := [down]\<rparr>)"

definition tear_down :: "string \<Rightarrow> (string + json) list \<Rightarrow> outcome" where
  "tear_down n answers = (case answers of
      Inr r # _ \<Rightarrow> (let eff = undo_reply (''Stack '' @ dquote @ n @ dquote @ '' tear-down'') (n @ '' stopped'', Info) r in
         (case eff of
            QueuedUndo _ _ _ \<Rightarrow> nothing\<lparr>sent := [down_post n []], queued := Some eff\<rparr>
          | RanNow msg \<Rightarrow> nothing\<lparr>sent := [down_post n []], said := [msg], reloads := True\<rparr>))
    | Inl e # _ \<Rightarrow> nothing\<lparr>sent := [down_post n []], thrown := Some e\<rparr>
    | [] \<Rightarrow> nothing\<lparr>sent := [down_post n []]\<rparr>)"

definition press_stack :: "string \<Rightarrow> stack_action \<Rightarrow> bool \<Rightarrow> (string + json) list \<Rightarrow> outcome" where
  "press_stack n a confirmed answers = (case a of
      RestartService s \<Rightarrow> one_post (post_to (stack_url n (''/services/'' @ encode_uri s @ ''/restart''))) (s @ '' restarted'', Success) True answers
    | StartStack \<Rightarrow> one_post (post_to (stack_url n ''/start'')) (n @ '' started'', Success) True answers
    | StopStack \<Rightarrow> one_post (post_to (stack_url n ''/stop'')) (n @ '' stopped'', Info) True answers
    | PullUpdates \<Rightarrow> if \<not> confirmed then nothing\<lparr>thrown := Some ''Cancelled''\<rparr>
        else one_post \<lparr>post_url = stack_url n ''/pull'', post_timeout = Some 310000\<rparr>
          (''Images pulled. Run Restart to apply new tags.'', Success) False answers
    | ScaleStack \<Rightarrow> nothing\<lparr>thrown := Some ''ModalOpened''\<rparr>
    | RestartAll \<Rightarrow> restart_all n answers
    | TearDown \<Rightarrow> if \<not> confirmed then nothing\<lparr>thrown := Some ''Cancelled''\<rparr> else tear_down n answers)"

section \<open>Scaling and logs\<close>

text \<open>\<open>None\<close>: no service, a toast says so; else the options of the form.\<close>

definition scale_options :: "stack \<Rightarrow> option_spec list option" where
  "scale_options s = (if services s = [] then None
     else Some (map (\<lambda>v. \<lparr>opt_value = svc_name v, opt_label = [], opt_selected = False\<rparr>) (services s)))"

definition scale_url :: "string \<Rightarrow> (string \<times> fvalue) list \<Rightarrow> string" where
  "scale_url n vs = stack_url n (''/scale?service_name='' @ encode_uri (str_value vs ''service_name'') @
     ''&replicas='' @ encode_uri (str_value vs ''replicas''))"

definition aggregate_logs :: "string + string list \<Rightarrow> string" where
  "aggregate_logs res = (case res of
      Inr ls \<Rightarrow> or_str (join newline ls) ''(no logs)''
    | Inl msg \<Rightarrow> ''Error: '' @ or_str msg ''failed to load'')"

section \<open>The upload\<close>

text \<open>The output area under the form; the project's name is read when the upload starts.\<close>

definition upload_post :: "string \<Rightarrow> post" where
  "upload_post project = \<lparr>post_url = ''/api/compose/up?project_name='' @ encode_uri project, post_timeout = Some 130000\<rparr>"

definition upload_output :: "string + string \<Rightarrow> string" where
  "upload_output res = (case res of Inr out \<Rightarrow> or_str out ''Stack deployed successfully.'' | Inl msg \<Rightarrow> msg)"

definition upload_toast :: "string \<Rightarrow> string + string \<Rightarrow> toast list" where
  "upload_toast project res = (case res of
      Inr _ \<Rightarrow> [(''Stack '' @ dquote @ project @ dquote @ '' deployed'', Success)] | Inl _ \<Rightarrow> [])"

text \<open>Half a second later the page is loaded again, if it is still open.\<close>

definition after_upload :: "string + string \<Rightarrow> compose_view list_page \<Rightarrow> compose_view list_page" where
  "after_upload res p = (case res of Inr _ \<Rightarrow> if cur_page p = ''compose'' then load_page p else p | Inl _ \<Rightarrow> p)"

section \<open>Properties\<close>

text \<open>
  A restart of a whole stack brings it up only after it was taken down: the first request is the teardown
  without an undo window, the second the deployment, sent exactly if the first succeeded; success is announced and
  the page loaded again only when both did, and an error of either is thrown to the button.
\<close>

theorem restart_all_in_order:
  assumes "answers \<noteq> []"
  shows "let r = press_stack n RestartAll b answers in
    (\<exists>q. post_url (hd (sent r)) = ''/api/compose/down?'' @ q \<and>
       parse_params q = [(''project_name'', n), (''undo'', ''false'')]) \<and>
    (length (sent r) = 2 \<longleftrightarrow> (\<exists>x. hd answers = Inr x)) \<and> (length (sent r) = 2 \<longrightarrow> last (sent r) = up_post n) \<and>
    ((n @ '' restarted'', Success) \<in> set (said r) \<longleftrightarrow> (\<exists>x y rest. answers = Inr x # Inr y # rest)) \<and>
    (reloads r \<longleftrightarrow> (\<exists>x y rest. answers = Inr x # Inr y # rest)) \<and>
    (\<forall>e. thrown r = Some e \<longleftrightarrow> hd answers = Inl e \<or> (\<exists>x rest. answers = Inr x # Inl e # rest))"
proof -
  have k: "plain_key ''project_name''" "plain_key ''undo''" by (simp_all add: plain_key_def)
  have "encode_uri ''false'' = ''false''" by code_simp
  then have q: "parse_params (''project_name='' @ encode_uri n @ ''&undo=false'') = [(''project_name'', n), (''undo'', ''false'')]"
    using parse_more [OF k(1), of n "''undo=false''"] parse_one [OF k(2), of "''false''"] by simp
  obtain a rest where a: "answers = a # rest" using assms by (cases answers) auto
  let ?r = "press_stack n RestartAll b answers"
  have "hd (sent ?r) = down_post n ''&undo=false''"
    by (simp add: press_stack_def restart_all_def Let_def a split: sum.splits list.splits)
  then have "\<exists>q. post_url (hd (sent ?r)) = ''/api/compose/down?'' @ q \<and>
       parse_params q = [(''project_name'', n), (''undo'', ''false'')]"
    by (intro exI [of _ "''project_name='' @ encode_uri n @ ''&undo=false''"]) (use q in \<open>simp add: down_post_def\<close>)
  moreover have "(length (sent ?r) = 2 \<longleftrightarrow> (\<exists>x. hd answers = Inr x)) \<and> (length (sent ?r) = 2 \<longrightarrow> last (sent ?r) = up_post n) \<and>
    ((n @ '' restarted'', Success) \<in> set (said ?r) \<longleftrightarrow> (\<exists>x y rest. answers = Inr x # Inr y # rest)) \<and>
    (reloads ?r \<longleftrightarrow> (\<exists>x y rest. answers = Inr x # Inr y # rest)) \<and>
    (\<forall>e. thrown ?r = Some e \<longleftrightarrow> hd answers = Inl e \<or> (\<exists>x rest. answers = Inr x # Inl e # rest))"
    by (cases a; cases rest; simp add: press_stack_def restart_all_def Let_def a)
      (auto split: sum.splits list.splits)
  ultimately show ?thesis by (simp add: Let_def)
qed

theorem restart_all_in_order_witness:
  "reloads (press_stack ''app'' RestartAll False [Inr JNull, Inr JNull])"
  using restart_all_in_order [of "[Inr JNull, Inr JNull]" "''app''" False] by (simp add: Let_def)

text \<open>The scale button throws on purpose, and its button reports the text as an error.\<close>

theorem scale_button_reports_error:
  "btn_toasts (run_events (btn_step ''Scale'' None) (make_action_btn ''Scale'')
     [Click, Threw (the (thrown (press_stack n ScaleStack c answers)))]) = [(''ModalOpened'', Error)]"
  by (simp add: press_stack_def make_action_btn_def btn_restore_def)

text \<open>The scale request reads back as the service and the number that were chosen.\<close>

lemma scale_url_reads_back:
  "\<exists>q. scale_url n vs = ''/api/compose/'' @ encode_uri n @ ''/scale?'' @ q \<and>
     parse_params q = [(''service_name'', str_value vs ''service_name''), (''replicas'', str_value vs ''replicas'')]"
proof -
  have k: "plain_key ''service_name''" "plain_key ''replicas''" by (simp_all add: plain_key_def)
  show ?thesis
    by (rule exI [of _ "''service_name='' @ encode_uri (str_value vs ''service_name'') @ ''&replicas='' @ encode_uri (str_value vs ''replicas'')"])
      (use parse_more [OF k(1)] parse_one [OF k(2)] in \<open>simp add: scale_url_def stack_url_def\<close>)
qed

text \<open>
  The loader of this page is as sound as the others', and its failures are shown on the page itself: it never
  puts an error over another page.
\<close>

lemma compose_page_sound:
  fixes es :: "(string + stack list) page_event list"
  shows "page_inv ''compose'' (run_events compose_step (page_init q) es) \<and>
    (\<forall>m. main_area (run_events compose_step (page_init q) es) \<noteq> PageFailed m)"
proof (rule run_events_invariant [where P = "\<lambda>p. page_inv ''compose'' p \<and> (\<forall>m. main_area p \<noteq> PageFailed m)"])
  show "page_inv ''compose'' (page_init q :: compose_view list_page) \<and>
      (\<forall>m. main_area (page_init q :: compose_view list_page) \<noteq> PageFailed m)"
    by (simp add: page_inv_def page_init_def)
next
  fix p :: "compose_view list_page" and e
  assume "page_inv ''compose'' p \<and> (\<forall>m. main_area p \<noteq> PageFailed m)"
  then have "page_inv ''compose'' (compose_step p e)" unfolding compose_step_def by (intro page_inv_step) simp
  moreover have "\<forall>m. main_area (compose_step p e) \<noteq> PageFailed m"
    using \<open>page_inv ''compose'' p \<and> (\<forall>m. main_area p \<noteq> PageFailed m)\<close>
    by (auto simp: compose_step_def load_page_def Let_def split: page_event.splits)
  ultimately show "page_inv ''compose'' (compose_step p e) \<and> (\<forall>m. main_area (compose_step p e) \<noteq> PageFailed m)"
    by blast
qed

end
