(* ===== verification/SystemPage.thy ===== *)
theory SystemPage
  imports ListPage
begin

text \<open>
  pages/system.js: the system page, which is built in pieces between awaited requests, its disk-usage cards, the
  modal that rotates the token, the picker of integration snippets, the daemon's events and the audit log with
  its cached rows.
\<close>

section \<open>Building the page\<close>

text \<open>
  \<open>loadSystem\<close> tests the page once, before it paints; the sections that follow an \<open>await\<close> are appended to
  \<open>#main\<close> whatever it shows by then, and the events poll is started behind them. Every call is a build of its own:
  \<open>builds\<close> holds what each awaits, \<open>appended\<close> the sections on \<open>#main\<close> with the page that was open when each was put
  there, \<open>page_clock\<close> the managed intervals.
\<close>

datatype section_name = Cards | Account | ConnectTool | Security | Events | AuditLog

datatype build_stage = AwaitInfo | AwaitAccount | AwaitConnect | Finished

record system_page =
  sys_page :: string
  builds :: "build_stage list"
  appended :: "(section_name \<times> string) list"
  page_clock :: timers

datatype system_event = LoadSystem | InfoAnswer nat bool | AccountAnswer nat "bool option" | ConnectAnswer nat bool bool
  | GoPage string

definition append_if :: "bool \<Rightarrow> section_name \<Rightarrow> system_page \<Rightarrow> system_page" where
  "append_if b s p = (if b then p\<lparr>appended := appended p @ [(s, sys_page p)]\<rparr> else p)"

definition awaits :: "system_page \<Rightarrow> nat \<Rightarrow> build_stage \<Rightarrow> bool" where
  "awaits p i st = (i < length (builds p) \<and> builds p ! i = st)"

definition stage_to :: "nat \<Rightarrow> build_stage \<Rightarrow> system_page \<Rightarrow> system_page" where
  "stage_to i st p = p\<lparr>builds := (builds p)[i := st]\<rparr>"

text \<open>
  \<open>AccountAnswer\<close>: \<open>None\<close> when the state could not be read, else whether the server is configured by its
  environment. \<open>ConnectAnswer\<close>: whether there are tools, and whether the engine names security options. \<open>GoPage\<close>
  clears the page and the intervals.
\<close>

fun system_step :: "system_page \<Rightarrow> system_event \<Rightarrow> system_page" where
  "system_step p LoadSystem = p\<lparr>builds := builds p @ [AwaitInfo], appended := []\<rparr>"
| "system_step p (InfoAnswer i ok) = (if \<not> awaits p i AwaitInfo then p
     else if \<not> ok then stage_to i Finished (p\<lparr>appended := []\<rparr>)
     else if sys_page p \<noteq> ''system'' then stage_to i Finished p
     else stage_to i AwaitAccount (append_if True Cards (p\<lparr>appended := []\<rparr>)))"
| "system_step p (AccountAnswer i env) = (if \<not> awaits p i AwaitAccount then p
     else stage_to i AwaitConnect (append_if (env = Some False) Account p))"
| "system_step p (ConnectAnswer i tools secure) = (if \<not> awaits p i AwaitConnect then p
     else (stage_to i Finished (append_if True AuditLog (append_if True Events
            (append_if secure Security (append_if tools ConnectTool p)))))
       \<lparr>page_clock := snd (managed_interval (page_clock p))\<rparr>)"
| "system_step p (GoPage q) = p\<lparr>sys_page := q, appended := [], page_clock := clear_all_intervals (page_clock p)\<rparr>"

section \<open>Cards\<close>

text \<open>The values of the two answers, by their keys, as the page prints them.\<close>

type_synonym fields = "string \<Rightarrow> string"

definition info_cards :: "fields \<Rightarrow> (string \<times> string) list" where
  "info_cards f = [(''Engine'', f ''docker_version''), (''API'', f ''api_version''), (''OS'', f ''os''), (''Kernel'', f ''kernel''),
     (''Arch'', f ''architecture''), (''CPUs'', f ''cpus''), (''Memory'', f ''memory_gb'' @ '' GB''), (''Storage'', f ''storage_driver''),
     (''Containers'', f ''containers'' @ '' ('' @ f ''containers_running'' @ '' running, '' @ f ''containers_paused'' @ '' paused, '' @
        f ''containers_stopped'' @ '' stopped)''),
     (''Images'', f ''images''), (''Logging'', f ''logging_driver''), (''Cgroup'', f ''cgroup_driver'')]"

text \<open>A disk-usage card: label, value, subtitle, and whether it has the button that prunes the build cache.\<close>

definition disk_cards :: "fields \<Rightarrow> int \<Rightarrow> (string \<times> string \<times> string \<times> bool) list" where
  "disk_cards f cache_reclaimable =
     [(''Images'', f ''images_mb'' @ '' MB'', f ''images_count'' @ '' images, '' @ f ''images_reclaimable_mb'' @ '' MB reclaimable'', False),
      (''Containers'', f ''containers_mb'' @ '' MB'', f ''containers_count'' @ '' containers'', False),
      (''Volumes'', f ''volumes_mb'' @ '' MB'', f ''volumes_count'' @ '' volumes, '' @ f ''volumes_reclaimable_mb'' @ '' MB reclaimable'', False),
      (''Build Cache'', f ''build_cache_mb'' @ '' MB'', f ''build_cache_reclaimable_mb'' @ '' MB reclaimable'', 0 < cache_reclaimable),
      (''Total'', f ''total_mb'' @ '' MB'', [], False)]"

definition prune_cache_reply :: "json \<Rightarrow> reply_effect" where
  "prune_cache_reply resp = undo_reply ''Build cache prune''
     (''Reclaimed '' @ (case json_get resp ''space_reclaimed_mb'' of None \<Rightarrow> ''undefined'' | Some v \<Rightarrow> js_string v) @ '' MB'', Success) resp"

section \<open>Resetting the configuration\<close>

text \<open>
  A click that is not confirmed throws \<open>Cancelled\<close>; a refused request throws its message. An accepted one leaves a
  toast, clears the session storage and reloads the page in 800 ms.
\<close>

definition reset_config :: "bool \<Rightarrow> string + unit \<Rightarrow> string + toast \<times> int" where
  "reset_config confirmed answer = (if \<not> confirmed then Inl ''Cancelled'' else case answer of Inl e \<Rightarrow> Inl e
     | Inr _ \<Rightarrow> Inr ((''Configuration reset '' @ em_dash @ '' redirecting to setup'', Success), 800))"

section \<open>Rotating the token\<close>

text \<open>
  The modal: the token in the field, whether Save is disabled, the tokens whose copying has not settled and those
  whose copying succeeded, the tokens of the rotations that are not answered, and the token stored for the session, empty
  when there is none.
\<close>

record rotate =
  rot_token :: string
  save_off :: bool
  copying :: "string list"
  copied :: "string list"
  rot_out :: "string list"
  session_token :: string
  rot_toasts :: "toast list"
  rot_open :: bool

definition rotate_init :: "string \<Rightarrow> rotate" where
  "rotate_init tok = \<lparr>rot_token = [], save_off = True, copying = [], copied = [], rot_out = [], session_token = tok,
     rot_toasts = [], rot_open = True\<rparr>"

text \<open>
  \<open>SaveRotation\<close> says whether the session has passed its absolute limit by then; \<open>RotateRefused\<close> is an answer with 401,
  \<open>RotateFailed\<close> any other failure; \<open>SessionEnds\<close> is a sign-out or a timeout while the modal or a request is still there.
\<close>

datatype rotate_event = GenToken string | CopyToken | CopyDone nat bool | SaveRotation bool | RotateOk nat
  | RotateRefused nat | RotateFailed nat string | CloseModal | SessionEnds

definition without_nth :: "nat \<Rightarrow> 'a list \<Rightarrow> 'a list" where
  "without_nth i xs = take i xs @ drop (Suc i) xs"

text \<open>\<open>apiFetch\<close> looks at the limit before it sends anything, and ends the session with its clean-up, which takes the modal away.\<close>

definition save_rotation :: "bool \<Rightarrow> rotate \<Rightarrow> rotate" where
  "save_rotation past r = (let tok = trim (rot_token r) in
     if tok = [] \<or> length tok < 16 then r\<lparr>save_off := False,
       rot_toasts := rot_toasts r @ [(''Token must be at least 16 chars'', Error), (''short'', Error)]\<rparr>
     else if past then r\<lparr>save_off := False, session_token := [], rot_open := False,
       rot_toasts := rot_toasts r @ [(''Session expired (8-hour limit)'', Error), (''Session expired'', Error)]\<rparr>
     else r\<lparr>save_off := True, rot_out := rot_out r @ [tok]\<rparr>)"

fun rotate_step :: "rotate \<Rightarrow> rotate_event \<Rightarrow> rotate" where
  "rotate_step r (GenToken tok) = (if rot_open r then r\<lparr>rot_token := tok, save_off := True\<rparr> else r)"
| "rotate_step r CopyToken = (if rot_open r \<and> rot_token r \<noteq> [] then r\<lparr>copying := copying r @ [rot_token r]\<rparr> else r)"
| "rotate_step r (CopyDone i ok) = (if i < length (copying r)
     then let r1 = r\<lparr>copying := without_nth i (copying r)\<rparr> in
       if ok then r1\<lparr>copied := copied r1 @ [copying r ! i], save_off := False\<rparr> else r1
     else r)"
| "rotate_step r (SaveRotation past) = (if \<not> rot_open r \<or> save_off r then r else save_rotation past r)"
| "rotate_step r (RotateOk i) = (if i < length (rot_out r)
     then r\<lparr>rot_out := without_nth i (rot_out r), session_token := rot_out r ! i, rot_open := False, save_off := False,
       rot_toasts := rot_toasts r @ [(''Token rotated '' @ em_dash @ '' old token is now invalid.'', Success)]\<rparr>
     else r)"
| "rotate_step r (RotateFailed i msg) = (if i < length (rot_out r)
     then r\<lparr>rot_out := without_nth i (rot_out r), save_off := False, rot_toasts := rot_toasts r @ [(msg, Error)]\<rparr> else r)"
| "rotate_step r (RotateRefused i) = (if i < length (rot_out r)
     then r\<lparr>rot_out := without_nth i (rot_out r), save_off := False, session_token := [], rot_toasts := rot_toasts r @
       [(''Authentication failed '' @ em_dash @ '' check your API token'', Error), (''Authentication required'', Error)]\<rparr> else r)"
| "rotate_step r SessionEnds = r\<lparr>session_token := [], rot_open := False\<rparr>"
| "rotate_step r CloseModal = r\<lparr>rot_open := False\<rparr>"

section \<open>Integration snippets\<close>

record snippet_tool =
  tool_id :: string
  tool_label :: string
  tool_hint :: string
  tool_blocks :: "(bool \<times> string \<times> string) list"
  tool_note :: string

text \<open>A block is a command line or a text, with its content and file name. Two tools of one identifier: the last one.\<close>

datatype snippet_part = HintLine string | CommandPart string string | BlockPart string string | NoteLine string

definition render_tool :: "snippet_tool list \<Rightarrow> string \<Rightarrow> snippet_part list" where
  "render_tool tools i = (case find (\<lambda>tool. tool_id tool = i) (rev tools) of
      None \<Rightarrow> []
    | Some tool \<Rightarrow> (if tool_hint tool \<noteq> [] then [HintLine (tool_hint tool)] else []) @
        map (\<lambda>(command, content, fname). if command then CommandPart content fname else BlockPart content fname) (tool_blocks tool) @
        (if tool_note tool \<noteq> [] then [NoteLine (tool_note tool)] else []))"

section \<open>Events\<close>

text \<open>An event of the daemon; \<open>ev_time\<close> is the time as printed, empty when absent.\<close>

record daemon_event =
  ev_time :: string
  ev_type :: string
  ev_action :: string
  ev_actor :: string
  ev_attrs :: "(string \<times> string) list"

definition event_line :: "daemon_event \<Rightarrow> string" where
  "event_line e = (let attrs = join '' '' (map (\<lambda>(k, v). k @ ''='' @ v) (ev_attrs e)) in
     ev_time e @ '' '' @ or_str (ev_type e) ''?'' @ ''.'' @ or_str (ev_action e) ''?'' @
       (if ev_actor e \<noteq> [] then '' ['' @ ev_actor e @ '']'' else []) @ (if attrs \<noteq> [] then '' '' @ attrs else []))"

definition events_text :: "nat \<Rightarrow> daemon_event list \<Rightarrow> string" where
  "events_text secs es = (if es \<noteq> [] then join newline (rev (map event_line es))
     else ''(no events in the last '' @ show_nat (if secs = 0 then 60 else secs) @ ''s)'')"

section \<open>The audit log\<close>

record audit_row =
  a_event :: string
  a_raw :: string
  a_path :: string
  a_method :: string
  a_remote :: string
  resource_type :: string
  resource_id :: string
  a_status :: "int option"

definition haystack :: "audit_row \<Rightarrow> string" where
  "haystack r = to_lower (join '' '' (nonempty [a_event r, a_raw r, a_path r, a_method r, a_remote r, resource_type r,
     resource_id r, (case a_status r of None \<Rightarrow> [] | Some n \<Rightarrow> show_int n)]))"

definition row_matches :: "string \<Rightarrow> audit_row \<Rightarrow> bool" where
  "row_matches needle r = (needle = [] \<or> has_sub (haystack r) needle)"

definition resource_text :: "audit_row \<Rightarrow> string" where
  "resource_text r = (if resource_type r \<noteq> [] \<and> resource_id r \<noteq> [] then resource_type r @ '' '' @ resource_id r
     else or_str (resource_type r) (or_str (resource_id r) em_dash))"

definition status_color :: "audit_row \<Rightarrow> string" where
  "status_color r = (let n = (case a_status r of None \<Rightarrow> 0 | Some n \<Rightarrow> n) in
     if n \<ge> 400 then ''var(--red)'' else if n \<ge> 200 then ''var(--green,#22c55e)'' else [])"

definition audit_cells :: "audit_row \<Rightarrow> string list" where
  "audit_cells r = [or_str (a_event r) (a_raw r), resource_text r, a_method r, a_path r,
     (case a_status r of None \<Rightarrow> [] | Some n \<Rightarrow> if n = 0 then [] else show_int n), a_remote r]"

text \<open>
  The table: what fills it, and the failures appended below. \<open>cache\<close> are the rows of the last answer, \<open>audit_out\<close>
  the needle each request that is out was started with.
\<close>

datatype audit_body = AuditLoading | AuditRows "audit_row list" | AuditNote string

record audit =
  audit_filter :: string
  audit_tail :: nat
  cache :: "audit_row list"
  body :: audit_body
  failures :: "string list"
  audit_heading :: string
  audit_out :: "string list"
  audit_urls :: "string list"

definition audit_body_for :: "string \<Rightarrow> audit_row list \<Rightarrow> audit_body" where
  "audit_body_for needle lines_in = (let m = filter (row_matches needle) lines_in in
     if m = [] then AuditNote (if needle \<noteq> [] then ''No audit entries match '' @ dquote @ needle @ dquote @ ''.''
       else ''No audit entries yet.'') else AuditRows (rev m))"

definition paint_audit :: "string \<Rightarrow> audit_row list \<Rightarrow> audit \<Rightarrow> audit" where
  "paint_audit needle lines_in a = a\<lparr>body := audit_body_for needle lines_in, failures := [],
     audit_heading := ''Audit Log'' @ heading_count needle (filter (row_matches needle) lines_in) lines_in\<rparr>"

definition load_audit :: "bool \<Rightarrow> audit \<Rightarrow> audit" where
  "load_audit reuse a = (let needle = to_lower (audit_filter a) in
     if reuse \<and> cache a \<noteq> [] then paint_audit needle (cache a) a
     else a\<lparr>body := AuditLoading, failures := [], audit_out := audit_out a @ [needle],
       audit_urls := audit_urls a @ [''/api/system/audit-log?tail='' @ show_nat (audit_tail a)]\<rparr>)"

definition audit_init :: audit where
  "audit_init = load_audit False \<lparr>audit_filter = [], audit_tail = 200, cache = [], body = AuditLoading, failures = [],
     audit_heading = ''Audit Log'', audit_out = [], audit_urls = []\<rparr>"

definition tail_sizes :: "nat list" where
  "tail_sizes = [200, 500, 1000, 2000]"

datatype audit_event = TypeAudit string | PickTail nat | RefreshAudit | AuditAnswer nat "audit_row list" | AuditFailed nat string

fun audit_step :: "audit \<Rightarrow> audit_event \<Rightarrow> audit" where
  "audit_step a (TypeAudit s) = load_audit True (a\<lparr>audit_filter := s\<rparr>)"
| "audit_step a (PickTail n) = (if n \<in> set tail_sizes then load_audit False (a\<lparr>audit_tail := n\<rparr>) else a)"
| "audit_step a RefreshAudit = load_audit False a"
| "audit_step a (AuditAnswer i lines_in) = (if i < length (audit_out a)
     then paint_audit (audit_out a ! i) lines_in (a\<lparr>audit_out := without_nth i (audit_out a), cache := lines_in\<rparr>) else a)"
| "audit_step a (AuditFailed i msg) = (if i < length (audit_out a)
     then a\<lparr>audit_out := without_nth i (audit_out a), failures := failures a @ [''Failed: '' @ msg]\<rparr> else a)"

section \<open>Properties\<close>

lemma set_without_nth: "set (without_nth i xs) \<subseteq> set xs"
  by (auto simp: without_nth_def dest: in_set_takeD in_set_dropD)

text \<open>The rotation modal: what is known of any state it reaches.\<close>

definition rotate_inv :: "rotate \<Rightarrow> bool" where
  "rotate_inv r \<longleftrightarrow> (\<not> save_off r \<longrightarrow> copied r \<noteq> []) \<and> (rot_out r \<noteq> [] \<longrightarrow> copied r \<noteq> []) \<and> list_all (\<lambda>tok. 16 \<le> length tok) (rot_out r)"

lemma list_all_without: "list_all P xs \<Longrightarrow> list_all P (without_nth i xs)"
  using set_without_nth [of i xs] by (auto simp: list_all_iff)

lemma rotate_step_inv: "rotate_inv r \<Longrightarrow> rotate_inv (rotate_step r e)"
  by (cases e) (auto simp: rotate_inv_def save_rotation_def Let_def list_all_without)

lemma rotate_run_inv: "rotate_inv (run_events rotate_step (rotate_init tok) es)"
proof (rule run_events_invariant [where P = rotate_inv])
  show "rotate_inv (rotate_init tok)" by (simp add: rotate_inv_def rotate_init_def)
qed (rule rotate_step_inv)

text \<open>What can change the stored token.\<close>

lemma token_change:
  assumes "rotate_inv r" and "session_token (rotate_step r e) \<noteq> session_token r"
  shows "(\<exists>i. e = RotateOk i \<and> i < length (rot_out r) \<and> session_token (rotate_step r e) = rot_out r ! i \<and>
      16 \<le> length (rot_out r ! i) \<and> copied r \<noteq> [] \<and> \<not> rot_open (rotate_step r e)) \<or>
    (session_token (rotate_step r e) = [] \<and> ((\<exists>i < length (rot_out r). e = RotateRefused i) \<or>
      e = SaveRotation True \<and> rot_open r \<and> \<not> save_off r \<and> 16 \<le> length (trim (rot_token r)) \<or> e = SessionEnds))"
proof -
  have long: "i < length (rot_out r) \<Longrightarrow> 16 \<le> length (rot_out r ! i) \<and> copied r \<noteq> []" for i
    using assms(1) by (auto simp: rotate_inv_def list_all_length)
  show ?thesis
  proof (cases e)
    case (RotateOk i)
    with assms(2) long [of i] show ?thesis by (auto split: if_splits)
  next
    case (SaveRotation past)
    with assms(2) show ?thesis by (auto simp: save_rotation_def Let_def split: if_splits)
  qed (use assms(2) in \<open>auto simp: Let_def split: if_splits\<close>)
qed

definition accepted_in :: "string \<Rightarrow> rotate_event list \<Rightarrow> string \<Rightarrow> bool" where
  "accepted_in tok es t \<longleftrightarrow> (\<exists>pre i post. es = pre @ RotateOk i # post \<and> (let q = run_events rotate_step (rotate_init tok) pre in
     i < length (rot_out q) \<and> t = rot_out q ! i \<and> 16 \<le> length t \<and> copied q \<noteq> []))"

lemma accepted_snoc: "accepted_in tok es t \<Longrightarrow> accepted_in tok (es @ [e]) t"
  unfolding accepted_in_def by (metis append.assoc append_Cons)

lemma token_origin:
  "session_token (run_events rotate_step (rotate_init tok) es) \<in> {tok, []} \<or>
   accepted_in tok es (session_token (run_events rotate_step (rotate_init tok) es))"
proof (induction es rule: rev_induct)
  case (snoc e es)
  let ?r = "run_events rotate_step (rotate_init tok) es"
  show ?case
  proof (cases "session_token (rotate_step ?r e) = session_token ?r")
    case True
    with snoc accepted_snoc [of tok es _ e] show ?thesis unfolding run_events_append by auto
  next
    case False
    from token_change [OF rotate_run_inv False] consider
      i where "e = RotateOk i" "i < length (rot_out ?r)" "session_token (rotate_step ?r e) = rot_out ?r ! i"
        "16 \<le> length (rot_out ?r ! i)" "copied ?r \<noteq> []" | "session_token (rotate_step ?r e) = []" by blast
    then show ?thesis
    proof cases
      case 1
      have "accepted_in tok (es @ [e]) (rot_out ?r ! i)" unfolding accepted_in_def Let_def using 1 by blast
      with 1(3) show ?thesis unfolding run_events_append by simp
    next
      case 2
      then show ?thesis unfolding run_events_append by simp
    qed
  qed
qed (simp add: rotate_init_def)

text \<open>
  C33: the session never holds a token the server has not accepted. After any clicks and answers the stored token is the one
  from before, or none, or one of at least 16 characters that was asked for after a copy had succeeded and whose request the
  server has accepted since. Whatever changes it is such an acceptance, or the end of the session, which removes it: a rotation
  answered with 401 (it always does), a Save past the absolute limit, or a sign-out. So any other failure of a rotation leaves
  the old token in place.
\<close>

theorem rotation_keeps_session:
  "let r = run_events rotate_step (rotate_init tok) es in
    (session_token r \<in> {tok, []} \<or> accepted_in tok es (session_token r)) \<and>
    (\<forall>i < length (rot_out r). session_token (rotate_step r (RotateRefused i)) = []) \<and>
    (session_token (rotate_step r e) \<noteq> session_token r \<longrightarrow>
      (\<exists>i. e = RotateOk i \<and> i < length (rot_out r) \<and> session_token (rotate_step r e) = rot_out r ! i \<and>
        16 \<le> length (rot_out r ! i) \<and> copied r \<noteq> [] \<and> \<not> rot_open (rotate_step r e)) \<or>
      (session_token (rotate_step r e) = [] \<and> ((\<exists>i < length (rot_out r). e = RotateRefused i) \<or>
        e = SaveRotation True \<and> rot_open r \<and> \<not> save_off r \<and> 16 \<le> length (trim (rot_token r)) \<or> e = SessionEnds)))"
  unfolding Let_def
  using token_origin [of tok es] token_change [OF rotate_run_inv, of tok es e] by (intro conjI impI allI) simp_all

theorem rotation_keeps_session_witness:
  "let r = run_events rotate_step (rotate_init ''old'') [GenToken ''0123456789abcdef'', CopyToken, CopyDone 0 True, SaveRotation False] in
   16 \<le> length (rot_out r ! 0) \<and> copied r \<noteq> [] \<and> session_token (rotate_step r (RotateOk 0)) = ''0123456789abcdef'' \<and>
   session_token (rotate_step r (RotateRefused 0)) = []"
proof -
  let ?es = "[GenToken ''0123456789abcdef'', CopyToken, CopyDone 0 True, SaveRotation False]"
  have tr: "trim ''0123456789abcdef'' = ''0123456789abcdef''" by code_simp
  have st: "session_token (rotate_step (run_events rotate_step (rotate_init ''old'') ?es) (RotateOk 0)) = ''0123456789abcdef''"
    "session_token (run_events rotate_step (rotate_init ''old'') ?es) = ''old''"
    "0 < length (rot_out (run_events rotate_step (rotate_init ''old'') ?es))"
    by (simp_all add: rotate_init_def save_rotation_def tr without_nth_def Let_def)
  from rotation_keeps_session [of "''old''" ?es "RotateOk 0", unfolded Let_def] st
  show ?thesis unfolding Let_def by (simp del: rotate_step.simps run_events.simps)
qed

text \<open>
  A rotation that is out when the session ends undoes the end: its answer stores the new token, and the browser is signed in again
  without a sign-in.
\<close>

theorem late_rotation_signs_in:
  assumes "trim a = a" and "16 \<le> length a"
  shows "let r = run_events rotate_step (rotate_init tok) [GenToken a, CopyToken, CopyDone 0 True, SaveRotation False, CloseModal, SessionEnds] in
    session_token r = [] \<and> session_token (rotate_step r (RotateOk 0)) = a"
proof -
  have "a \<noteq> []" "\<not> length a < 16" using assms(2) by auto
  then show ?thesis using assms(1) by (simp add: rotate_init_def save_rotation_def without_nth_def Let_def)
qed

text \<open>A copy that settles after a new token was generated unlocks Save for a token nobody copied.\<close>

theorem late_copy_unlocks_new_token:
  assumes "a \<noteq> []" and "b \<noteq> a"
  shows "let r = run_events rotate_step (rotate_init tok) [GenToken a, CopyToken, GenToken b, CopyDone 0 True] in
    rot_token r = b \<and> \<not> save_off r \<and> b \<notin> set (copied r)"
  using assms by (simp add: rotate_init_def Let_def without_nth_def)

text \<open>
  The sections behind the first \<open>await\<close> land on the page that is open by then, and the events poll runs there.
\<close>

theorem system_sections_leak:
  assumes "sys_page p = ''system''" and "q \<noteq> ''system''" and "timers_inv (page_clock p)" and "i = length (builds p)"
  shows "let v = run_events system_step p [LoadSystem, InfoAnswer i True, GoPage q, AccountAnswer i (Some False), ConnectAnswer i True False] in
    sys_page v = q \<and> (Account, q) \<in> set (appended v) \<and> (AuditLog, q) \<in> set (appended v) \<and> live (page_clock v) \<noteq> []"
  using assms by (simp add: Let_def awaits_def stage_to_def append_if_def nth_append managed_interval_def)

text \<open>Typing while a request is out.\<close>

fun typed_while_out :: "audit \<Rightarrow> audit_event list \<Rightarrow> bool" where
  "typed_while_out a [] = False"
| "typed_while_out a (e # es) =
     ((audit_out a \<noteq> [] \<and> (case e of TypeAudit s \<Rightarrow> True | _ \<Rightarrow> False)) \<or> typed_while_out (audit_step a e) es)"

definition audit_inv :: "audit \<Rightarrow> bool" where
  "audit_inv a \<longleftrightarrow> list_all ((=) (to_lower (audit_filter a))) (audit_out a) \<and>
     (body a = AuditLoading \<or> body a = audit_body_for (to_lower (audit_filter a)) (cache a))"

lemma load_audit_inv:
  "list_all ((=) (to_lower (audit_filter a))) (audit_out a) \<Longrightarrow> audit_inv (load_audit b a)"
  by (simp add: audit_inv_def load_audit_def paint_audit_def Let_def)

lemma audit_step_inv:
  assumes "audit_inv a" and "\<not> (audit_out a \<noteq> [] \<and> (case e of TypeAudit s \<Rightarrow> True | _ \<Rightarrow> False))"
  shows "audit_inv (audit_step a e)"
proof (cases e)
  case (TypeAudit s)
  with assms(2) show ?thesis by (simp add: load_audit_inv)
next
  case (AuditAnswer i r)
  show ?thesis
  proof (cases "i < length (audit_out a)")
    case True
    then have "audit_out a ! i = to_lower (audit_filter a)" using assms(1) by (auto simp: audit_inv_def list_all_length)
    then show ?thesis using assms(1) True AuditAnswer by (simp add: audit_inv_def paint_audit_def list_all_without)
  qed (use assms(1) AuditAnswer in simp)
next
  case (AuditFailed i m)
  with assms(1) show ?thesis by (simp add: audit_inv_def list_all_without)
next
  case (PickTail n)
  have "list_all ((=) (to_lower (audit_filter (a\<lparr>audit_tail := n\<rparr>)))) (audit_out (a\<lparr>audit_tail := n\<rparr>))"
    using assms(1) by (simp add: audit_inv_def)
  from load_audit_inv [OF this, of False] PickTail assms(1) show ?thesis by simp
next
  case RefreshAudit
  with assms(1) have "list_all ((=) (to_lower (audit_filter a))) (audit_out a)" by (simp add: audit_inv_def)
  with RefreshAudit show ?thesis by (simp add: load_audit_inv)
qed

lemma audit_run_inv: "audit_inv a \<Longrightarrow> \<not> typed_while_out a es \<Longrightarrow> audit_inv (run_events audit_step a es)"
proof (induction es arbitrary: a)
  case (Cons e es)
  then show ?case using audit_step_inv [of a e] by (simp del: audit_step.simps)
qed simp

text \<open>
  The audit table shows the last rows received that match the text in the filter, newest first, with the
  count of the heading, for any order of typing, refreshing and answers in which the user does not type while a
  request is out.
\<close>

theorem audit_table_matches_filter:
  assumes "\<not> typed_while_out audit_init es" and "body (run_events audit_step audit_init es) = AuditRows lines_in"
  shows "lines_in = rev (filter (\<lambda>r. audit_filter (run_events audit_step audit_init es) = [] \<or>
      has_sub (haystack r) (to_lower (audit_filter (run_events audit_step audit_init es))))
    (cache (run_events audit_step audit_init es)))"
proof -
  have "audit_inv audit_init" by (simp add: audit_inv_def audit_init_def load_audit_def Let_def)
  from audit_run_inv [OF this assms(1)]
  have "body (run_events audit_step audit_init es) = AuditLoading \<or> body (run_events audit_step audit_init es) =
      audit_body_for (to_lower (audit_filter (run_events audit_step audit_init es))) (cache (run_events audit_step audit_init es))"
    by (simp add: audit_inv_def)
  with assms(2) show ?thesis
    by (simp add: audit_body_for_def row_matches_def [abs_def] to_lower_def Let_def split: if_splits)
qed

theorem audit_table_matches_filter_witness:
  "let r = \<lparr>a_event = ''stop'', a_raw = [], a_path = [], a_method = ''POST'', a_remote = [], resource_type = [],
     resource_id = [], a_status = Some 200\<rparr> in [r] = rev (filter (\<lambda>q. True) [r])"
proof -
  define r where "r = \<lparr>a_event = ''stop'', a_raw = [], a_path = [], a_method = ''POST'', a_remote = [],
    resource_type = [], resource_id = [], a_status = Some (200 :: int)\<rparr>"
  let ?es = "[AuditAnswer 0 [r]]"
  have "\<not> typed_while_out audit_init ?es" "body (run_events audit_step audit_init ?es) = AuditRows [r]"
    by (simp_all add: audit_init_def load_audit_def paint_audit_def audit_body_for_def row_matches_def to_lower_def Let_def)
  from audit_table_matches_filter [OF this] show ?thesis by (simp add: r_def)
qed

text \<open>An answer to a request that was started with an older text is painted for that text.\<close>

theorem stale_audit_filter:
  assumes "cache a = []" and "audit_out a = []" and "row_matches [] r"
  shows "let v = run_events audit_step a [RefreshAudit, TypeAudit s, AuditAnswer 0 [r]] in
    audit_filter v = s \<and> body v = audit_body_for (to_lower (audit_filter a)) [r]"
  using assms by (simp add: Let_def load_audit_def paint_audit_def)

end
