(* ===== verification/Settings.thy ===== *)
theory Settings
  imports ListPage
begin

text \<open>
  pages/settings.js: the table of server knobs with its filter, the rows and their badges, the masking of secret
  knobs, and the modal that edits a live knob and repaints its row.
\<close>

section \<open>Knobs\<close>

text \<open>\<open>k_value\<close> and \<open>k_default\<close> are \<open>None\<close> when the answer has no such key; a null is \<open>JNull\<close>.\<close>

record knob =
  k_name :: string
  k_doc :: string
  k_value :: "json option"
  k_default :: "json option"
  k_source :: string
  k_status :: string
  k_reason :: string
  k_secret :: bool
  k_hidden :: bool

record knob_group =
  category :: string
  knobs :: "knob list"

definition is_null :: "json option \<Rightarrow> bool" where
  "is_null v = (v = None \<or> v = Some JNull)"

definition fmt_knob_value :: "json option \<Rightarrow> string" where
  "fmt_knob_value v = (case v of None \<Rightarrow> []
     | Some j \<Rightarrow> (case j of JNull \<Rightarrow> []
       | JArr xs \<Rightarrow> (if xs \<noteq> [] then join '', '' (map (\<lambda>x. if x = JNull then [] else js_string x) xs) else ''(empty list)'')
       | JBool b \<Rightarrow> (if b then ''yes'' else ''no'')
       | _ \<Rightarrow> js_string j))"

abbreviation bullet :: string where
  "bullet \<equiv> [CHR 0xE2, CHR 0x80, CHR 0xA2]"

definition secret_mask :: string where
  "secret_mask = concat (replicate 8 bullet)"

section \<open>Rows\<close>

text \<open>
  The nodes are those \<open>UI.el\<close> builds; the attribute names are fixed and accepted. The listener of the Edit button
  is the knob its modal opens for.
\<close>

definition el_text :: "string \<Rightarrow> string \<Rightarrow> (string \<times> string) list \<Rightarrow> string \<Rightarrow> knob node" where
  "el_text tg cls attrs txt = Elem ((new_elem tg)\<lparr>class_name := cls, attributes := attrs\<rparr>) (text_nodes txt)"

text \<open>The texts, backgrounds, foregrounds and titles of the sources.\<close>

definition sources :: "(string \<times> string \<times> string \<times> string \<times> string) list" where
  "sources =
    [(''env'', ''ENV'', ''var(--danger-hover-bg)'', ''var(--red)'', ''Overridden by an environment variable at startup''),
     (''toml'', ''TOML'', ''var(--bg-elevated)'', ''var(--accent)'', ''Value comes from skiff/_config/defaults.toml''),
     (''default'', ''DEFAULT'', ''var(--bg-elevated)'', ''var(--muted)'', ''Inline fallback in skiff/config.py (not in defaults.toml)''),
     (''unset'', ''UNSET'', ''var(--danger-hover-bg)'', ''var(--muted)'', ''No env / TOML / inline default '' @ em_dash @ '' knob is None'')]"

definition source_badge :: "string \<Rightarrow> knob node" where
  "source_badge src = (let (txt, bg, fg, title) =
       (case map_of sources src of Some s \<Rightarrow> s | None \<Rightarrow> the (map_of sources ''default'')) in
     Elem ((new_elem ''span'')\<lparr>class_name := ''settings-badge settings-badge-source'', attributes := [(''title'', title)],
       css := Some (''background:'' @ bg @ '';color:'' @ fg)\<rparr>) (text_nodes txt))"

definition edit_statuses :: "(string \<times> string \<times> string) list" where
  "edit_statuses = [(''live'', ''LIVE'', ''settings-badge-live''), (''security'', ''SECURITY'', ''settings-badge-security''),
     (''lifecycle'', ''LIFECYCLE'', ''settings-badge-lifecycle'')]"

definition edit_status_badge :: "string \<Rightarrow> string \<Rightarrow> knob node" where
  "edit_status_badge st reason = (let (txt, cls) =
       (case map_of edit_statuses st of Some s \<Rightarrow> s | None \<Rightarrow> the (map_of edit_statuses ''lifecycle'')) in
     el_text ''span'' (''settings-badge '' @ cls) [(''title'', reason)] txt)"

definition value_cell :: "knob \<Rightarrow> knob node" where
  "value_cell k = (if k_secret k
     then el_text ''div'' ''settings-value settings-value-secret''
       [(''aria-label'', ''value is redacted''), (''title'', ''(redacted)'')] secret_mask
     else el_text ''div'' ''settings-value'' [(''title'', fmt_knob_value (k_value k))] (fmt_knob_value (k_value k)))"

definition edit_button :: "knob \<Rightarrow> knob node" where
  "edit_button k = Elem ((new_elem ''button'')\<lparr>class_name := ''settings-edit-btn'',
     attributes := [(''type'', ''button''), (''title'', ''Edit this knob at runtime''),
       (''data-testid'', ''settings-edit-'' @ k_name k), (''aria-label'', ''Edit '' @ k_name k)],
     listeners := [(''click'', k)]\<rparr>) (text_nodes ''Edit'')"

definition render_knob_row :: "knob \<Rightarrow> knob node" where
  "render_knob_row k = Elem ((new_elem ''div'')\<lparr>class_name := ''settings-row'', attributes := [(''data-knob'', k_name k)]\<rparr>)
     [Elem ((new_elem ''div'')\<lparr>class_name := ''settings-name''\<rparr>)
        (el_text ''div'' ''settings-name-id'' [] (k_name k) #
         (if k_doc k \<noteq> [] then [el_text ''div'' ''settings-name-doc'' [] (k_doc k)] else [])),
      value_cell k,
      Elem ((new_elem ''div'')\<lparr>class_name := ''settings-meta''\<rparr>)
        ([source_badge (k_source k), edit_status_badge (k_status k) (k_reason k)] @
         (if k_status k = ''live'' \<and> \<not> k_secret k then [edit_button k] else []))]"

section \<open>The modal of a knob\<close>

definition knob_modal :: "knob \<Rightarrow> modal_spec" where
  "knob_modal k = \<lparr>spec_fields = [\<lparr>name = ''value'', field_label = Some ''New value'', field_type = TextInput [],
       field_value = Some (if is_null (k_value k) then [] else js_string (the (k_value k))), field_checked = False,
       field_required = False, validator = (\<lambda>v. []), field_options = [], field_rows = 0, placeholder = [], field_help = [],
       hint = k_doc k @ (if is_null (k_default k) then [] else '' Fleet default: '' @ js_string (the (k_default k)) @ ''.'')\<rparr>],
     submit_label = ''Apply (this process only)'', pending_label = [], no_click_outside = False\<rparr>"

definition knob_title :: "knob \<Rightarrow> string" where
  "knob_title k = ''Edit '' @ k_name k"

text \<open>The request of a submission: method, address and body.\<close>

definition knob_request :: "knob \<Rightarrow> (string \<times> fvalue) list \<Rightarrow> string \<times> string \<times> string" where
  "knob_request k values = (''PUT'', ''/api/config/knobs/'' @ encode_uri (k_name k),
     json_compact (JObj [(''value'', JStr (str_value values ''value''))]))"

section \<open>The page\<close>

datatype table_item = GroupLine string nat | KnobRow knob | EmptyLine string

definition knob_visible :: "string \<Rightarrow> knob \<Rightarrow> bool" where
  "knob_visible q k = (\<not> k_hidden k \<and> (q = [] \<or> has_ci (k_name k) q \<or> has_ci (k_doc k) q))"

definition paint_group :: "string \<Rightarrow> knob_group \<Rightarrow> table_item list" where
  "paint_group q g = (let matches = filter (knob_visible q) (knobs g) in
     if matches = [] then [] else GroupLine (category g) (length matches) # map KnobRow matches)"

definition paint_knobs :: "string \<Rightarrow> knob_group list \<Rightarrow> table_item list" where
  "paint_knobs needle groups = (let q = to_lower needle; items = concat (map (paint_group q) groups) in
     if items = [] then [EmptyLine (''No knobs match '' @ dquote @ q @ dquote @ ''.'')] else items)"

fun item_node :: "table_item \<Rightarrow> knob node" where
  "item_node (GroupLine c n) = el_text ''div'' ''settings-group'' [] (c @ '' ('' @ show_nat n @ '')'')"
| "item_node (KnobRow k) = render_knob_row k"
| "item_node (EmptyLine s) = el_text ''div'' ''settings-empty'' [] s"

text \<open>
  \<open>#main\<close>, and the requests that are out: loads of the page, and the refreshes behind applied edits by the name of
  their knob. The table keeps the groups it was built from, the text of its filter and its rows.
\<close>

datatype settings_main = SOther string | SLoading | SUnavailable string | SNoGroups
  | STable "knob_group list" string "table_item list"

record settings =
  set_page :: string
  set_main :: settings_main
  loads_due :: nat
  refreshes :: "string list"
  set_toasts :: "toast list"

datatype settings_event = GoTo string | KnobsAnswer "knob_group list" | KnobsFailed string | TypeFilter string
  | EditApplied string | RefreshAnswer nat "knob_group list" | RefreshFailed nat

definition settings_init :: "string \<Rightarrow> settings" where
  "settings_init q = \<lparr>set_page = q, set_main = SOther q, loads_due = 0, refreshes = [], set_toasts = []\<rparr>"

definition find_knob :: "string \<Rightarrow> knob_group list \<Rightarrow> knob option" where
  "find_knob n groups = find (\<lambda>k. k_name k = n) (rev (concat (map knobs groups)))"

fun replace_row :: "string \<Rightarrow> knob \<Rightarrow> table_item list \<Rightarrow> table_item list" where
  "replace_row n u [] = []"
| "replace_row n u (KnobRow k # xs) = (if k_name k = n then KnobRow u # xs else KnobRow k # replace_row n u xs)"
| "replace_row n u (x # xs) = x # replace_row n u xs"

definition refresh_row :: "string \<Rightarrow> knob_group list \<Rightarrow> settings_main \<Rightarrow> settings_main" where
  "refresh_row n groups m = (case find_knob n groups of None \<Rightarrow> m
     | Some u \<Rightarrow> (case m of STable gs needle items \<Rightarrow> STable gs needle (replace_row n u items) | _ \<Rightarrow> m))"

definition edit_toast :: "string \<Rightarrow> toast" where
  "edit_toast n = (n @ '' updated (runtime-only '' @ em_dash @ '' reverts on restart)'', Success)"

definition drop_at :: "nat \<Rightarrow> 'a list \<Rightarrow> 'a list" where
  "drop_at i xs = take i xs @ drop (Suc i) xs"

fun settings_step :: "settings \<Rightarrow> settings_event \<Rightarrow> settings" where
  "settings_step s (GoTo q) = (if q = ''settings'' then s\<lparr>set_page := q, set_main := SLoading, loads_due := Suc (loads_due s)\<rparr>
     else s\<lparr>set_page := q, set_main := SOther q\<rparr>)"
| "settings_step s (KnobsAnswer gs) = (if loads_due s = 0 then s
     else let s1 = s\<lparr>loads_due := loads_due s - 1\<rparr> in
       if set_page s1 \<noteq> ''settings'' then s1
       else s1\<lparr>set_main := (if gs = [] then SNoGroups else STable gs [] (paint_knobs [] gs))\<rparr>)"
| "settings_step s (KnobsFailed msg) = (if loads_due s = 0 then s
     else s\<lparr>loads_due := loads_due s - 1,
       set_main := SUnavailable (''Configuration unavailable: '' @ or_str msg ''fetch failed'')\<rparr>)"
| "settings_step s (TypeFilter n) = (case set_main s of
      STable gs needle items \<Rightarrow> s\<lparr>set_main := STable gs n (paint_knobs n gs)\<rparr> | _ \<Rightarrow> s)"
| "settings_step s (EditApplied n) = s\<lparr>refreshes := refreshes s @ [n], set_toasts := set_toasts s @ [edit_toast n]\<rparr>"
| "settings_step s (RefreshAnswer i gs) = (if i < length (refreshes s)
     then s\<lparr>refreshes := drop_at i (refreshes s), set_main := refresh_row (refreshes s ! i) gs (set_main s)\<rparr> else s)"
| "settings_step s (RefreshFailed i) = (if i < length (refreshes s) then s\<lparr>refreshes := drop_at i (refreshes s)\<rparr> else s)"

text \<open>What is on the page, with the listeners.\<close>

definition shown_nodes :: "settings \<Rightarrow> string \<times> knob node list" where
  "shown_nodes s = (case set_main s of SOther q \<Rightarrow> (q, []) | SLoading \<Rightarrow> (''Loading configuration'' @ ellipsis, [])
     | SUnavailable m \<Rightarrow> (''Settings'', [el_text ''div'' ''field-error'' [(''role'', ''alert'')] m])
     | SNoGroups \<Rightarrow> (''Settings'', [el_text ''div'' ''settings-empty'' []
         (''No exposed knobs. (Unexpected '' @ em_dash @ '' /api/config/knobs returned an empty group list.)'')])
     | STable gs needle items \<Rightarrow> (''Settings'', map item_node items))"

section \<open>Properties\<close>

text \<open>What the page would be if the server sent secret knobs without value and default.\<close>

definition redact :: "knob \<Rightarrow> knob" where
  "redact k = (if k_secret k then k\<lparr>k_value := None, k_default := None\<rparr> else k)"

definition redact_groups :: "knob_group list \<Rightarrow> knob_group list" where
  "redact_groups gs = map (\<lambda>g. g\<lparr>knobs := map redact (knobs g)\<rparr>) gs"

fun redact_item :: "table_item \<Rightarrow> table_item" where
  "redact_item (KnobRow k) = KnobRow (redact k)"
| "redact_item x = x"

fun redact_main :: "settings_main \<Rightarrow> settings_main" where
  "redact_main (STable gs n items) = STable (redact_groups gs) n (map redact_item items)"
| "redact_main m = m"

fun redact_event :: "settings_event \<Rightarrow> settings_event" where
  "redact_event (KnobsAnswer gs) = KnobsAnswer (redact_groups gs)"
| "redact_event (RefreshAnswer i gs) = RefreshAnswer i (redact_groups gs)"
| "redact_event e = e"

definition redact_state :: "settings \<Rightarrow> settings" where
  "redact_state s = s\<lparr>set_main := redact_main (set_main s)\<rparr>"

lemma redact_keeps [simp]: "k_name (redact k) = k_name k" "k_doc (redact k) = k_doc k" "k_hidden (redact k) = k_hidden k"
  "k_secret (redact k) = k_secret k" "k_source (redact k) = k_source k" "k_status (redact k) = k_status k"
  "k_reason (redact k) = k_reason k"
  by (simp_all add: redact_def)

lemma redact_open: "\<not> k_secret k \<Longrightarrow> redact k = k"
  by (simp add: redact_def)

lemma render_redact: "render_knob_row (redact k) = render_knob_row k"
  by (cases "k_secret k") (simp_all add: redact_open render_knob_row_def value_cell_def)

lemma item_node_redact: "item_node (redact_item x) = item_node x"
  by (cases x) (simp_all add: render_redact)

lemma visible_redact: "knob_visible q (redact k) = knob_visible q k"
  by (simp add: knob_visible_def)

lemma filter_redact: "filter (knob_visible q) (map redact ks) = map redact (filter (knob_visible q) ks)"
  by (induction ks) (simp_all add: visible_redact)

lemma paint_group_redact: "paint_group q (g\<lparr>knobs := map redact (knobs g)\<rparr>) = map redact_item (paint_group q g)"
  by (simp add: paint_group_def filter_redact Let_def)

lemma paint_knobs_redact: "paint_knobs n (redact_groups gs) = map redact_item (paint_knobs n gs)"
proof -
  have "concat (map (paint_group q) (redact_groups gs)) = map redact_item (concat (map (paint_group q) gs))" for q
    by (induction gs) (simp_all add: redact_groups_def paint_group_redact)
  then show ?thesis by (simp add: paint_knobs_def Let_def)
qed

lemma find_map_redact: "find (\<lambda>k. k_name k = n) (map redact ks) = map_option redact (find (\<lambda>k. k_name k = n) ks)"
  by (induction ks) simp_all

lemma find_knob_redact: "find_knob n (redact_groups gs) = map_option redact (find_knob n gs)"
proof -
  have "concat (map knobs (redact_groups gs)) = map redact (concat (map knobs gs))"
    by (induction gs) (simp_all add: redact_groups_def)
  then show ?thesis by (simp add: find_knob_def rev_map find_map_redact)
qed

lemma replace_row_redact: "replace_row n (redact u) (map redact_item xs) = map redact_item (replace_row n u xs)"
  by (induction n u xs rule: replace_row.induct) simp_all

lemma refresh_row_redact: "refresh_row n (redact_groups gs) (redact_main m) = redact_main (refresh_row n gs m)"
  by (cases m) (simp_all add: refresh_row_def find_knob_redact replace_row_redact split: option.split)

lemma settings_step_redact: "settings_step (redact_state s) (redact_event e) = redact_state (settings_step s e)"
proof (cases e)
  case (TypeFilter n)
  then show ?thesis by (cases "set_main s") (simp_all add: redact_state_def paint_knobs_redact)
next
  case (KnobsAnswer gs)
  have "redact_groups gs = [] \<longleftrightarrow> gs = []" by (simp add: redact_groups_def)
  with KnobsAnswer show ?thesis by (simp add: redact_state_def paint_knobs_redact Let_def)
qed (simp_all add: redact_state_def refresh_row_redact)

lemma settings_run_redact:
  "run_events settings_step (redact_state s) (map redact_event es) = redact_state (run_events settings_step s es)"
  by (induction es arbitrary: s) (simp_all add: settings_step_redact)

lemma shown_redact: "shown_nodes (redact_state s) = shown_nodes s"
  by (cases "set_main s") (simp_all add: shown_nodes_def redact_state_def item_node_redact)

text \<open>
  C29: a secret never reaches the page. Whatever loads, filters, edits and refreshes happen, every node of the
  page, its attributes and the knobs its Edit buttons would open are the same as if the server had sent its
  secret knobs without value and default.
\<close>

theorem secrets_never_shown:
  "shown_nodes (run_events settings_step (settings_init q) (map redact_event es)) =
   shown_nodes (run_events settings_step (settings_init q) es)"
proof -
  have init: "redact_state (settings_init q) = settings_init q" by (simp add: redact_state_def settings_init_def)
  from settings_run_redact [of "settings_init q" es] have
    "run_events settings_step (settings_init q) (map redact_event es) = redact_state (run_events settings_step (settings_init q) es)"
    by (simp add: init)
  then show ?thesis by (simp add: shown_redact)
qed

text \<open>The rows of the table by name, and what stays in its place when a row is replaced.\<close>

fun item_key :: "table_item \<Rightarrow> string + table_item" where
  "item_key (KnobRow k) = Inl (k_name k)"
| "item_key x = Inr x"

fun row_names :: "table_item list \<Rightarrow> string list" where
  "row_names [] = []"
| "row_names (KnobRow k # xs) = k_name k # row_names xs"
| "row_names (x # xs) = row_names xs"

definition key_names :: "(string + table_item) list \<Rightarrow> string list" where
  "key_names ks = concat (map (case_sum (\<lambda>n. [n]) (\<lambda>x. [])) ks)"

lemma row_names_keys: "row_names xs = key_names (map item_key xs)"
  by (induction xs rule: row_names.induct) (simp_all add: key_names_def)

lemma replace_row_keys: "k_name u = n \<Longrightarrow> map item_key (replace_row n u xs) = map item_key xs"
  by (induction n u xs rule: replace_row.induct) simp_all

lemma find_knob_name: "find_knob n gs = Some u \<Longrightarrow> k_name u = n"
  by (auto simp: find_knob_def find_Some_iff)

definition table_inv :: "settings \<Rightarrow> bool" where
  "table_inv s = (case set_main s of STable gs n items \<Rightarrow> set_page s = ''settings'' \<and> map item_key items = map item_key (paint_knobs n gs)
     | _ \<Rightarrow> True)"

lemma refresh_row_cases: "refresh_row n gs m = m \<or> (\<exists>g needle items items'. m = STable g needle items \<and>
    refresh_row n gs m = STable g needle items' \<and> map item_key items' = map item_key items)"
  by (auto simp: refresh_row_def replace_row_keys find_knob_name split: option.splits settings_main.splits)

lemma settings_step_inv: "table_inv s \<Longrightarrow> table_inv (settings_step s e)"
proof (cases e)
  case (RefreshAnswer i gs)
  assume "table_inv s"
  with RefreshAnswer refresh_row_cases [of "refreshes s ! i" gs "set_main s"] show ?thesis
    by (cases "set_main s") (auto simp: table_inv_def)
qed (auto simp: table_inv_def Let_def split: settings_main.splits)

lemma settings_run_inv: "table_inv (run_events settings_step (settings_init q) es)"
proof (rule run_events_invariant [where P = table_inv])
  show "table_inv (settings_init q)" by (simp add: table_inv_def settings_init_def)
qed (rule settings_step_inv)

lemma row_names_append: "row_names (xs @ ys) = row_names xs @ row_names ys"
  by (induction xs rule: row_names.induct) simp_all

lemma row_names_rows: "row_names (map KnobRow ks) = map k_name ks"
  by (induction ks) simp_all

lemma row_names_paint:
  "row_names (paint_knobs n gs) = map k_name (filter (knob_visible (to_lower n)) (concat (map knobs gs)))"
proof -
  have "row_names (concat (map (paint_group q) gs)) = map k_name (filter (knob_visible q) (concat (map knobs gs)))" for q
    by (induction gs) (simp_all add: row_names_append paint_group_def Let_def row_names_rows)
  note painted = this [of "to_lower n"]
  show ?thesis
  proof (cases "concat (map (paint_group (to_lower n)) gs) = []")
    case True
    with painted have "map k_name (filter (knob_visible (to_lower n)) (concat (map knobs gs))) = []" by simp
    with True show ?thesis by (simp add: paint_knobs_def Let_def del: concat_eq_Nil_conv)
  next
    case False
    with painted show ?thesis by (simp add: paint_knobs_def Let_def del: concat_eq_Nil_conv)
  qed
qed

text \<open>
  Whatever happens on the page, a table that is shown has exactly one row for each knob that is not hidden
  and whose name or description holds the text of the filter, in the order of the server's groups, and it is
  shown on the settings page only.
\<close>

theorem settings_table_exact:
  assumes "set_main (run_events settings_step (settings_init q) es) = STable gs n items"
  shows "row_names items = map k_name (filter (\<lambda>k. \<not> k_hidden k \<and> (n = [] \<or> has_ci (k_name k) (to_lower n) \<or>
      has_ci (k_doc k) (to_lower n))) (concat (map knobs gs))) \<and>
    set_page (run_events settings_step (settings_init q) es) = ''settings''"
proof -
  have "to_lower n = [] \<longleftrightarrow> n = []" by (simp add: to_lower_def)
  moreover have "set_page (run_events settings_step (settings_init q) es) = ''settings''"
      "map item_key items = map item_key (paint_knobs n gs)"
    using settings_run_inv [of q es] assms by (simp_all add: table_inv_def)
  moreover from this(2) have "row_names items = row_names (paint_knobs n gs)" by (simp add: row_names_keys)
  ultimately show ?thesis by (simp add: row_names_paint knob_visible_def [abs_def])
qed

definition sample_knob :: "string \<Rightarrow> json \<Rightarrow> knob" where
  "sample_knob n v = \<lparr>k_name = n, k_doc = [], k_value = Some v, k_default = None, k_source = ''toml'', k_status = ''live'',
     k_reason = [], k_secret = False, k_hidden = False\<rparr>"

theorem settings_table_exact_witness:
  "row_names [GroupLine ''g'' 1, KnobRow (sample_knob ''undo'' (JNum 5))] = [''undo'']"
proof -
  let ?gs = "[\<lparr>category = ''g'', knobs = [sample_knob ''undo'' (JNum 5)]\<rparr>]"
  have "set_main (run_events settings_step (settings_init ''system'') [GoTo ''settings'', KnobsAnswer ?gs]) =
      STable ?gs [] [GroupLine ''g'' 1, KnobRow (sample_knob ''undo'' (JNum 5))]"
    by (simp add: settings_init_def Let_def paint_knobs_def paint_group_def knob_visible_def sample_knob_def to_lower_def)
  from settings_table_exact [OF this] show ?thesis by (simp add: sample_knob_def)
qed

text \<open>
  The filter repaints the groups of the first answer: a row that was refreshed after an edit goes back to the old
  value, and its Edit button to the old knob, when the user types.
\<close>

theorem edited_value_reverts_on_filter:
  assumes "u = sample_knob n (JNum 9)" and "gs = [\<lparr>category = c, knobs = [sample_knob n (JNum 5)]\<rparr>]"
  shows "let s = run_events settings_step (settings_init q) [GoTo ''settings'', KnobsAnswer gs, EditApplied n,
      RefreshAnswer 0 [\<lparr>category = c, knobs = [u]\<rparr>]] in
    set_main s = STable gs [] [GroupLine c 1, KnobRow u] \<and>
    set_main (settings_step s (TypeFilter [])) = STable gs [] [GroupLine c 1, KnobRow (sample_knob n (JNum 5))]"
  by (simp add: assms settings_init_def Let_def paint_knobs_def paint_group_def knob_visible_def sample_knob_def to_lower_def
      refresh_row_def find_knob_def)

text \<open>The request of an edit names the knob and carries the typed text.\<close>

theorem knob_edit_sends_typed:
  "let m = run_events (modal_step (knob_modal k)) (open_modal (knob_modal k)) [TypeInto ''value'' v, Submit Promise];
       (meth, url, bdy) = knob_request k (get_values (fm_form m)) in
   length (calls m) = 1 \<and> meth = ''PUT'' \<and> decode_uri (drop (length ''/api/config/knobs/'') url) = k_name k \<and>
   bdy = json_compact (JObj [(''value'', JStr v)])"
  by (simp add: knob_modal_def open_modal_def make_form_def make_input_def set_values_def form_submit_def submit_handler_def
      with_form_def set_error_def clear_error_def set_pending_def get_values_def value_of_def knob_request_def str_value_def alist_set_def Let_def)

end
