(* ===== verification/Dashboard.thy ===== *)
theory Dashboard
  imports ListPage
begin

text \<open>
  pages/dashboard.js: the cards, the recent events, and the poll with its count of failures in a row.
\<close>

section \<open>What is painted\<close>

text \<open>The counts of an answer, 0 when absent; \<open>de_time\<close> is the time as printed, empty when absent.\<close>

record recent_event =
  de_time :: string
  de_type :: string
  de_action :: string
  de_actor :: string

record overview =
  ov_total :: int
  ov_running :: int
  ov_exited :: int
  ov_images :: int
  ov_disk_mb :: int
  ov_volumes :: int
  ov_networks :: int
  ov_events :: "recent_event list"

text \<open>A card: label, value and subtitle, the empty one left out.\<close>

definition stat_cards :: "overview \<Rightarrow> (string \<times> string \<times> string) list" where
  "stat_cards d = [(''Containers'', show_int (ov_total d), show_int (ov_running d) @ '' running, '' @ show_int (ov_exited d) @ '' exited''),
     (''Images'', show_int (ov_images d), show_int (ov_disk_mb d) @ '' MB on disk''),
     (''Volumes'', show_int (ov_volumes d), []), (''Networks'', show_int (ov_networks d), [])]"

text \<open>The buttons, with the page each opens; the first opens the run modal there.\<close>

definition quick_actions :: "(string \<times> string \<times> bool) list" where
  "quick_actions = [(''Run a container'', ''containers'', True), (''Quick-start from template'', ''templates'', False),
     (''Deploy a compose stack'', ''compose'', False), (''Pull an image'', ''images'', False)]"

definition recent_line :: "recent_event \<Rightarrow> string" where
  "recent_line e = de_time e @ '' '' @ or_str (de_type e) ''?'' @ ''.'' @ or_str (de_action e) ''?'' @
     (if de_actor e \<noteq> [] then '' ['' @ de_actor e @ '']'' else [])"

definition recent_text :: "recent_event list \<Rightarrow> string" where
  "recent_text es = (if es = [] then ''(no events in the last 5 minutes '' @ em_dash @ '' the daemon is idle)''
     else join newline (map recent_line (rev es)))"

section \<open>The page and its poll\<close>

text \<open>
  Every call of \<open>showDashboard\<close> is a visit: it awaits its first answer, then owns an interval and its own count of
  failures in a row, whatever page is open by then.
\<close>

datatype visit = AwaitFirst | Polling nat nat nat | Over

text \<open>\<open>Polling i streak owed\<close>: the interval, the failures in a row, and the polls that are not answered.\<close>

datatype dash_main = DOther string | DLoading | DStats overview | DFailed string

record dashboard =
  dash_page :: string
  dash_main :: dash_main
  visits :: "visit list"
  clock :: timers
  dash_toasts :: "toast list"

datatype dash_event = Visit string | FirstAnswer nat overview | FirstFailed nat string | DashTick nat
  | PollAnswer nat overview | PollFailed nat string

definition dash_init :: "string \<Rightarrow> dashboard" where
  "dash_init q = \<lparr>dash_page = q, dash_main = DOther q, visits = [], clock = timers_init, dash_toasts = []\<rparr>"

definition render_dash :: "overview \<Rightarrow> dashboard \<Rightarrow> dashboard" where
  "render_dash d s = (if dash_page s = ''dashboard'' then s\<lparr>dash_main := DStats d\<rparr> else s)"

definition visit_at :: "dashboard \<Rightarrow> nat \<Rightarrow> visit" where
  "visit_at s i = (if i < length (visits s) then visits s ! i else Over)"

definition set_visit :: "nat \<Rightarrow> visit \<Rightarrow> dashboard \<Rightarrow> dashboard" where
  "set_visit i v s = s\<lparr>visits := (visits s)[i := v]\<rparr>"

definition failing_toast :: "string \<Rightarrow> toast" where
  "failing_toast msg = (''Dashboard refresh failing: '' @ or_str msg ''network error'', Error)"

definition arm_poll :: "nat \<Rightarrow> dashboard \<Rightarrow> dashboard" where
  "arm_poll i s = (let (k, tm) = managed_interval (clock s) in set_visit i (Polling k 0 0) (s\<lparr>clock := tm\<rparr>))"

fun dash_step :: "dashboard \<Rightarrow> dash_event \<Rightarrow> dashboard" where
  "dash_step s (Visit q) = (let s1 = s\<lparr>dash_page := q, clock := clear_all_intervals (clock s)\<rparr> in
     if q = ''dashboard'' then s1\<lparr>dash_main := DLoading, visits := visits s1 @ [AwaitFirst]\<rparr> else s1\<lparr>dash_main := DOther q\<rparr>)"
| "dash_step s (FirstAnswer i d) = (if visit_at s i \<noteq> AwaitFirst then s else arm_poll i (render_dash d s))"
| "dash_step s (FirstFailed i msg) = (if visit_at s i \<noteq> AwaitFirst then s
     else set_visit i Over (s\<lparr>dash_main := DFailed (''Failed to load overview: '' @ msg)\<rparr>))"
| "dash_step s (DashTick i) = (case visit_at s i of
      Polling k n owed \<Rightarrow> (if k \<in> set (live (clock s)) then set_visit i (Polling k n (Suc owed)) s else s) | _ \<Rightarrow> s)"
| "dash_step s (PollAnswer i d) = (case visit_at s i of
      Polling k n owed \<Rightarrow> (if owed = 0 then s else render_dash d (set_visit i (Polling k 0 (owed - 1)) s)) | _ \<Rightarrow> s)"
| "dash_step s (PollFailed i msg) = (case visit_at s i of
      Polling k n owed \<Rightarrow> (if owed = 0 then s else
        (let s1 = set_visit i (Polling k (Suc n) (owed - 1)) s in
         if Suc n = 3 then s1\<lparr>dash_toasts := dash_toasts s1 @ [failing_toast msg]\<rparr> else s1)) | _ \<Rightarrow> s)"

section \<open>Properties\<close>

text \<open>
  The answers a visit's poll has had, in order of arrival: \<open>None\<close> for a success. An answer arrives only while one
  is owed. \<open>failing_since\<close> looks at this history: the failures since the last success, or since the beginning.
\<close>

definition polled :: "dashboard \<Rightarrow> nat \<Rightarrow> bool" where
  "polled s i = (case visit_at s i of Polling k n owed \<Rightarrow> owed \<noteq> 0 | _ \<Rightarrow> False)"

definition delivered :: "nat \<Rightarrow> dashboard \<Rightarrow> dash_event \<Rightarrow> string option list" where
  "delivered i s e = (case e of PollAnswer j d \<Rightarrow> if j = i \<and> polled s i then [None] else []
     | PollFailed j m \<Rightarrow> if j = i \<and> polled s i then [Some m] else [] | _ \<Rightarrow> [])"

fun poll_history :: "nat \<Rightarrow> dashboard \<Rightarrow> dash_event list \<Rightarrow> string option list" where
  "poll_history i s [] = []"
| "poll_history i s (e # es) = delivered i s e @ poll_history i (dash_step s e) es"

definition failing_since :: "string option list \<Rightarrow> nat" where
  "failing_since rs = length (takeWhile (\<lambda>r. r \<noteq> None) (rev rs))"

lemma failing_since_simps [simp]: "failing_since [] = 0" "failing_since (rs @ [None]) = 0"
  "failing_since (rs @ [Some m]) = Suc (failing_since rs)"
  by (simp_all add: failing_since_def)

lemma poll_history_snoc: "poll_history i s (es @ [e]) = poll_history i s es @ delivered i (run_events dash_step s es) e"
  by (induction es arbitrary: s) simp_all

definition history_inv :: "nat \<Rightarrow> string option list \<Rightarrow> dashboard \<Rightarrow> bool" where
  "history_inv i rs s \<longleftrightarrow> (case visit_at s i of Polling k n owed \<Rightarrow> n = failing_since rs | _ \<Rightarrow> rs = [])"

lemma visit_at_simps [simp]:
  "visit_at (render_dash d s) i = visit_at s i"
  "visit_at (s\<lparr>dash_main := m\<rparr>) i = visit_at s i" "visit_at (s\<lparr>clock := tm\<rparr>) i = visit_at s i"
  "visit_at (s\<lparr>dash_toasts := ts\<rparr>) i = visit_at s i" "visit_at (s\<lparr>dash_page := q\<rparr>) i = visit_at s i"
  "visit_at (set_visit j v s) i = (if i = j \<and> j < length (visits s) then v else visit_at s i)"
  "dash_toasts (set_visit j v s) = dash_toasts s" "dash_toasts (render_dash d s) = dash_toasts s"
  "visits (render_dash d s) = visits s"
  by (simp_all add: visit_at_def render_dash_def set_visit_def)

lemma visit_in_range: "visit_at s i \<noteq> Over \<Longrightarrow> i < length (visits s)"
  by (auto simp: visit_at_def split: if_splits)

lemma visit_at_grow: "visit_at (s\<lparr>visits := visits s @ [AwaitFirst]\<rparr>) i = (if i = length (visits s) then AwaitFirst else visit_at s i)"
  by (auto simp: visit_at_def nth_append)

lemma arm_poll_simps [simp]:
  "visit_at (arm_poll j s) i = (if i = j \<and> j < length (visits s) then Polling (next_id (clock s)) 0 0 else visit_at s i)"
  "dash_toasts (arm_poll j s) = dash_toasts s"
  by (simp_all add: arm_poll_def managed_interval_def)

lemma history_step: "history_inv i rs s \<Longrightarrow> history_inv i (rs @ delivered i s e) (dash_step s e)"
proof (cases e)
  case (Visit q)
  assume inv: "history_inv i rs s"
  have "visit_at s (length (visits s)) = Over" by (simp add: visit_at_def)
  with inv Visit show ?thesis by (auto simp: history_inv_def delivered_def Let_def visit_at_def nth_append split: if_splits)
next
  case (PollAnswer j d)
  assume inv: "history_inv i rs s"
  show ?thesis
  proof (cases "visit_at s j")
    case (Polling k n owed)
    with visit_in_range [of s j] inv PollAnswer show ?thesis
      by (cases "j = i") (auto simp: history_inv_def delivered_def polled_def split: visit.splits)
  qed (use inv PollAnswer in \<open>auto simp: history_inv_def delivered_def polled_def split: visit.splits\<close>)
next
  case (PollFailed j m)
  assume inv: "history_inv i rs s"
  show ?thesis
  proof (cases "visit_at s j")
    case (Polling k n owed)
    with visit_in_range [of s j] inv PollFailed show ?thesis
      by (cases "j = i") (auto simp: history_inv_def delivered_def polled_def Let_def split: visit.splits)
  qed (use inv PollFailed in \<open>auto simp: history_inv_def delivered_def polled_def split: visit.splits\<close>)
qed (auto simp: history_inv_def delivered_def visit_in_range split: visit.splits if_splits)

lemma history_run: "history_inv i (poll_history i (dash_init q) es) (run_events dash_step (dash_init q) es)"
proof (induction es rule: rev_induct)
  case Nil
  show ?case by (simp add: history_inv_def dash_init_def visit_at_def)
next
  case (snoc e es)
  from history_step [OF this, of e] show ?case by (simp add: poll_history_snoc)
qed

text \<open>
  The alert of the dashboard. For any visits, ticks and answers in any order, the event that adds a toast is
  exactly the failure of a poll whose history then ends in three failures in a row; the fourth and later
  ones are silent, and a success starts the count again.
\<close>

theorem dashboard_alert_third_failure:
  "dash_toasts (dash_step (run_events dash_step (dash_init q) es) e) = dash_toasts (run_events dash_step (dash_init q) es) @
     (case e of PollFailed i m \<Rightarrow>
        if polled (run_events dash_step (dash_init q) es) i \<and> failing_since (poll_history i (dash_init q) es @ [Some m]) = 3
        then [failing_toast m] else [] | _ \<Rightarrow> [])"
proof (cases e)
  case (PollFailed i m)
  with history_run [of i q es] show ?thesis by (auto simp: history_inv_def polled_def Let_def split: visit.split)
qed (auto simp: Let_def split: visit.split)

text \<open>
  An overview is painted on the dashboard only; an answer that comes after the user has left still arms the poll, on
  the page that is open then.
\<close>

theorem poll_armed_after_leaving:
  assumes "q \<noteq> ''dashboard''"
  shows "let s = run_events dash_step (dash_init q) [Visit ''dashboard'', Visit q, FirstAnswer 0 d] in
    dash_page s = q \<and> dash_main s = DOther q \<and> live (clock s) \<noteq> []"
  using assms by (simp add: dash_init_def visit_at_def render_dash_def arm_poll_def set_visit_def managed_interval_def Let_def)

end
