(* ===== verification/ThemeTour.thy ===== *)
theory ThemeTour
  imports SingleFlight Store
begin

text \<open>
  The small scripts beside the pages: the theme before the first paint (core/theme-init.js) and its buttons
  (core/theme.js), the first-run tour and its wait for the sidebar (core/tour.js), and the API page
  (core/docs.js), whose Swagger bundle is not modelled beyond what it is given.
\<close>

section \<open>Theme\<close>

text \<open>
  \<open>data_theme\<close> is the attribute of the document element, \<open>stored_theme\<close> the key in local storage, \<open>pressed\<close> the
  \<open>aria-pressed\<close> of the three buttons of index.html by their value. The first argument of the operations says
  whether local storage works; blocked storage throws, which every use catches.
\<close>

record theme_state =
  data_theme :: "string option"
  stored_theme :: "string option"
  pressed :: "(string \<times> bool) list"

definition theme_values :: "string list" where
  "theme_values = [[], ''light'', ''dark'']"

definition named_theme :: "string \<Rightarrow> bool" where
  "named_theme t = (t = ''light'' \<or> t = ''dark'')"

definition current_pref :: "bool \<Rightarrow> theme_state \<Rightarrow> string" where
  "current_pref ok s = (if ok then (case stored_theme s of None \<Rightarrow> [] | Some v \<Rightarrow> v) else [])"

definition sync_pressed :: "bool \<Rightarrow> theme_state \<Rightarrow> theme_state" where
  "sync_pressed ok s = s\<lparr>pressed := map (\<lambda>b. (b, b = current_pref ok s)) theme_values\<rparr>"

definition apply_theme :: "bool \<Rightarrow> string \<Rightarrow> theme_state \<Rightarrow> theme_state" where
  "apply_theme ok t s = sync_pressed ok (let new = (if named_theme t then Some t else None) in
     s\<lparr>data_theme := new, stored_theme := (if ok then new else stored_theme s)\<rparr>)"

definition theme_init :: "bool \<Rightarrow> theme_state \<Rightarrow> theme_state" where
  "theme_init ok s = s\<lparr>data_theme := (case stored_theme s of None \<Rightarrow> None
     | Some v \<Rightarrow> if ok \<and> named_theme v then Some v else None)\<rparr>"

text \<open>Loading the page: the script before the first paint, then \<open>init\<close> of the buttons.\<close>

definition theme_load :: "bool \<Rightarrow> theme_state \<Rightarrow> theme_state" where
  "theme_load ok s = sync_pressed ok (theme_init ok s)"

datatype theme_event = ClickTheme nat

fun theme_step :: "bool \<Rightarrow> theme_state \<Rightarrow> theme_event \<Rightarrow> theme_state" where
  "theme_step ok s (ClickTheme i) = (if i < length theme_values then apply_theme ok (theme_values ! i) s else s)"

section \<open>The first-run tour\<close>

definition tour_steps :: "string list" where
  "tour_steps = [''Welcome to SKIFF'', ''Sidebar navigation'', ''Command palette'', ''You are set'']"

text \<open>
  \<open>overlay\<close>: the overlay on the page and its step; \<open>esc_listeners\<close>: the overlays whose Escape listener is attached
  to the document; \<open>tour_done\<close>: the key in local storage. Overlays are numbered in the order they are made.
\<close>

record tour =
  overlay :: "(nat \<times> nat) option"
  made :: nat
  esc_listeners :: "nat list"
  tour_done :: bool

definition tour_init :: "bool \<Rightarrow> tour" where
  "tour_init d = \<lparr>overlay = None, made = 0, esc_listeners = [], tour_done = d\<rparr>"

definition mark_done :: "bool \<Rightarrow> tour \<Rightarrow> tour" where
  "mark_done ok s = (if ok then s\<lparr>tour_done := True\<rparr> else s)"

definition tour_render :: "bool \<Rightarrow> nat \<Rightarrow> tour \<Rightarrow> tour" where
  "tour_render ok idx s = (let s1 = s\<lparr>overlay := None\<rparr> in
     if length tour_steps \<le> idx then mark_done ok s1
     else s1\<lparr>overlay := Some (made s1, idx), made := Suc (made s1), esc_listeners := esc_listeners s1 @ [made s1]\<rparr>)"

definition maybe_start :: "bool \<Rightarrow> bool \<Rightarrow> tour \<Rightarrow> tour" where
  "maybe_start ok sidebar s = (if \<not> sidebar \<or> \<not> ok \<or> tour_done s then s else tour_render ok 0 s)"

definition next_label :: "nat \<Rightarrow> string" where
  "next_label idx = (if Suc idx = length tour_steps then ''Done'' else ''Next'')"

text \<open>One Escape key runs every listener that is attached, each of which detaches itself.\<close>

definition esc_listener :: "bool \<Rightarrow> nat \<Rightarrow> tour \<Rightarrow> tour" where
  "esc_listener ok i s = (let s1 = mark_done ok s in
     s1\<lparr>overlay := (case overlay s1 of Some (j, k) \<Rightarrow> if j = i then None else Some (j, k) | None \<Rightarrow> None),
       esc_listeners := removeAll i (esc_listeners s1)\<rparr>)"

datatype tour_event = SidebarSeen bool | NextStep | SkipTour | EscKey | Replay

fun tour_step :: "bool \<Rightarrow> tour \<Rightarrow> tour_event \<Rightarrow> tour" where
  "tour_step ok s (SidebarSeen b) = maybe_start ok b s"
| "tour_step ok s NextStep = (case overlay s of Some (i, idx) \<Rightarrow> tour_render ok (Suc idx) s | None \<Rightarrow> s)"
| "tour_step ok s SkipTour = (case overlay s of Some x \<Rightarrow> (mark_done ok s)\<lparr>overlay := None\<rparr> | None \<Rightarrow> s)"
| "tour_step ok s EscKey = fold (esc_listener ok) (esc_listeners s) s"
| "tour_step ok s Replay = tour_render ok 0 (if ok then s\<lparr>tour_done := False\<rparr> else s)"

text \<open>The wait for the sidebar: a poll every half second that gives up; \<open>start_due\<close>: the tour will be tried.\<close>

record tour_wait =
  attempts :: nat
  waiting :: bool
  start_due :: bool

definition wait_init :: tour_wait where
  "wait_init = \<lparr>attempts = 0, waiting = True, start_due = False\<rparr>"

definition wait_tick :: "tour_wait \<Rightarrow> bool \<Rightarrow> tour_wait" where
  "wait_tick w sidebar = (if \<not> waiting w then w else let w1 = w\<lparr>attempts := Suc (attempts w)\<rparr> in
     if sidebar then w1\<lparr>waiting := False, start_due := True\<rparr>
     else if attempts w1 > 20 then w1\<lparr>waiting := False\<rparr> else w1)"

section \<open>The API page\<close>

text \<open>The token read from session storage, \<open>None\<close> also when reading throws; what the bundle is told.\<close>

definition preloaded_token :: "bool \<Rightarrow> string option \<Rightarrow> string option" where
  "preloaded_token ok tok = (if ok then tok else None)"

definition request_interceptor :: "(string \<times> string) list \<Rightarrow> (string \<times> string) list" where
  "request_interceptor hs = alist_set ''X-Requested-With'' ''ContainerManager'' hs"

definition docs_on_complete :: "bool \<Rightarrow> string option \<Rightarrow> (string \<times> string) option" where
  "docs_on_complete can_preauthorize tok = (case tok of None \<Rightarrow> None
     | Some v \<Rightarrow> if v \<noteq> [] \<and> can_preauthorize then Some (''bearerAuth'', v) else None)"

section \<open>Properties\<close>

lemma sync_pressed_simps [simp]: "data_theme (sync_pressed ok s) = data_theme s" "stored_theme (sync_pressed ok s) = stored_theme s"
  by (simp_all add: sync_pressed_def)

text \<open>With storage that works, the page shows the stored theme and the buttons agree with it.\<close>

definition theme_inv :: "theme_state \<Rightarrow> bool" where
  "theme_inv s \<longleftrightarrow> data_theme s = (case stored_theme s of None \<Rightarrow> None | Some v \<Rightarrow> if named_theme v then Some v else None) \<and>
     pressed s = map (\<lambda>b. (b, b = current_pref True s)) theme_values"

lemma theme_load_inv: "theme_inv (theme_load True s)"
  by (simp add: theme_inv_def theme_load_def theme_init_def sync_pressed_def current_pref_def split: option.split)

lemma apply_theme_inv: "theme_inv (apply_theme True t s)"
  by (simp add: theme_inv_def apply_theme_def sync_pressed_def current_pref_def Let_def)

lemma theme_step_inv: "theme_inv s \<Longrightarrow> theme_inv (theme_step True s e)"
  by (cases e) (simp add: apply_theme_inv)

lemma theme_load_id: "theme_inv s \<Longrightarrow> theme_load True s = s"
  by (cases s) (simp add: theme_inv_def theme_load_def theme_init_def sync_pressed_def current_pref_def split: option.split)

lemma theme_run_inv: "theme_inv (run_events (theme_step True) (theme_load True s) es)"
  using theme_load_inv theme_step_inv by (rule run_events_invariant)

definition shown_theme :: "theme_state \<Rightarrow> string" where
  "shown_theme s = (case data_theme s of None \<Rightarrow> [] | Some t \<Rightarrow> t)"

text \<open>
  The theme round trip: where local storage works, after any clicks a reload of the page gives back the very
  theme and button states that were on screen, and once a button was clicked exactly the button of the shown
  theme is pressed.
\<close>

theorem theme_survives_reload:
  "let s = run_events (theme_step True) (theme_load True s0) es; s' = apply_theme True (theme_values ! (n mod 3)) s in
     theme_load True s = s \<and> filter snd (pressed s') = [(shown_theme s', True)] \<and> theme_load True s' = s'"
proof -
  let ?s = "run_events (theme_step True) (theme_load True s0) es"
  have "theme_load True ?s = ?s" by (rule theme_load_id [OF theme_run_inv])
  moreover have "theme_load True (apply_theme True t ?s) = apply_theme True t ?s" for t
    by (rule theme_load_id [OF apply_theme_inv])
  moreover have "filter snd (pressed (apply_theme True t s)) = [(shown_theme (apply_theme True t s), True)]"
    if "t \<in> set theme_values" for t s
    using that by (auto simp: apply_theme_def sync_pressed_def current_pref_def shown_theme_def theme_values_def named_theme_def Let_def)
  moreover have "theme_values ! (n mod 3) \<in> set theme_values" by (rule nth_mem) (simp add: theme_values_def)
  ultimately show ?thesis by (simp add: Let_def)
qed

text \<open>Where storage is blocked the theme changes, and the buttons say that the system's is in use.\<close>

theorem blocked_storage_misreports_theme:
  "let s = theme_step False (theme_load False s0) (ClickTheme 2) in
     data_theme s = Some ''dark'' \<and> filter snd (pressed s) = [([], True)]"
  by (simp add: apply_theme_def sync_pressed_def current_pref_def theme_values_def named_theme_def Let_def)

text \<open>An overlay that is on the page has its listener attached.\<close>

definition tour_inv :: "tour \<Rightarrow> bool" where
  "tour_inv s \<longleftrightarrow> (case overlay s of Some (i, idx) \<Rightarrow> i \<in> set (esc_listeners s) \<and> idx < length tour_steps | None \<Rightarrow> True)"

lemma esc_fold:
  "overlay (fold (esc_listener ok) is s) = (case overlay s of Some (j, k) \<Rightarrow> if j \<in> set is then None else Some (j, k) | None \<Rightarrow> None)"
  "esc_listeners (fold (esc_listener ok) is s) = filter (\<lambda>i. i \<notin> set is) (esc_listeners s)"
  "tour_done (fold (esc_listener ok) is s) = (if is \<noteq> [] \<and> ok then True else tour_done s)"
  by (induction "is" arbitrary: s)
    (auto simp: esc_listener_def mark_done_def Let_def removeAll_filter_not_eq split: option.splits intro!: filter_cong)

lemma tour_render_inv: "tour_inv (tour_render ok idx s)"
  by (simp add: tour_inv_def tour_render_def mark_done_def Let_def)

lemma tour_step_inv: "tour_inv s \<Longrightarrow> tour_inv (tour_step ok s e)"
proof (cases e)
  case (SidebarSeen b)
  assume "tour_inv s"
  with SidebarSeen tour_render_inv show ?thesis by (simp add: maybe_start_def)
next
  case NextStep
  assume "tour_inv s"
  with NextStep tour_render_inv show ?thesis by (cases "overlay s") (simp_all add: case_prod_beta)
next
  case SkipTour
  assume "tour_inv s"
  with SkipTour show ?thesis by (cases "overlay s") (simp_all add: tour_inv_def mark_done_def)
next
  case EscKey
  assume "tour_inv s"
  with EscKey show ?thesis by (auto simp: tour_inv_def esc_fold split: option.splits)
qed (simp_all add: tour_render_inv)

lemma tour_run_inv: "tour_inv (run_events (tour_step ok) (tour_init d) es)"
proof (rule run_events_invariant [where P = tour_inv])
  show "tour_inv (tour_init d)" by (simp add: tour_inv_def tour_init_def)
qed (rule tour_step_inv)

lemma done_stays:
  "tour_done s \<Longrightarrow> overlay s = None \<Longrightarrow> Replay \<notin> set es \<Longrightarrow>
    overlay (run_events (tour_step True) s es) = None \<and> tour_done (run_events (tour_step True) s es)"
proof (induction es arbitrary: s)
  case (Cons e es)
  then have "tour_done (tour_step True s e) \<and> overlay (tour_step True s e) = None"
    by (cases e) (simp_all add: maybe_start_def esc_fold)
  with Cons show ?case by simp
qed simp

text \<open>
  Escape ends the tour, at any moment and for good: whatever happened before, a tour that is on the page is gone
  after the key, and no later event but a replay brings it back.
\<close>

theorem escape_ends_tour:
  assumes "s = run_events (tour_step True) (tour_init d) es" and "overlay s \<noteq> None" and "Replay \<notin> set later"
  shows "overlay (run_events (tour_step True) s (EscKey # later)) = None"
proof -
  from assms(1) tour_run_inv have inv: "tour_inv s" by simp
  from assms(2) obtain i k where ov: "overlay s = Some (i, k)" by auto
  with inv have "i \<in> set (esc_listeners s)" by (simp add: tour_inv_def)
  with ov have "overlay (tour_step True s EscKey) = None" "tour_done (tour_step True s EscKey)"
    by (auto simp: esc_fold)
  from done_stays [OF this(2,1) assms(3)] show ?thesis by simp
qed

theorem escape_ends_tour_witness:
  "overlay (run_events (tour_step True) (run_events (tour_step True) (tour_init False) [SidebarSeen True, NextStep])
     [EscKey, SidebarSeen True]) = None"
proof -
  have "overlay (run_events (tour_step True) (tour_init False) [SidebarSeen True, NextStep]) \<noteq> None"
    by (simp add: tour_init_def maybe_start_def tour_render_def tour_steps_def Let_def)
  then show ?thesis by (rule escape_ends_tour [OF refl]) simp
qed

text \<open>The buttons leave the listeners of the steps they close on the document.\<close>

theorem tour_listeners_leak:
  "let s = run_events (tour_step ok) (tour_init d) [Replay, NextStep, NextStep, NextStep, NextStep] in
     overlay s = None \<and> length (esc_listeners s) = 4"
  by (simp add: tour_init_def tour_render_def tour_steps_def mark_done_def Let_def)

lemma wait_fold:
  assumes "waiting w" and "\<not> start_due w" and "attempts w \<le> 20"
  shows "let v = run_events wait_tick w obs in
    (21 - attempts w \<le> length obs \<longrightarrow> \<not> waiting v) \<and> (start_due v \<longleftrightarrow> True \<in> set (take (21 - attempts w) obs))"
  using assms
proof (induction obs arbitrary: w)
  case (Cons b obs)
  have stop: "run_events wait_tick v xs = v" if "\<not> waiting v" for v xs
    using that by (induction xs) (simp_all add: wait_tick_def)
  show ?case
  proof (cases "b \<or> attempts w = 20")
    case True
    with Cons.prems have off: "\<not> waiting (wait_tick w b)" and due: "start_due (wait_tick w b) = b"
      by (auto simp: wait_tick_def Let_def)
    have "run_events wait_tick w (b # obs) = wait_tick w b" using stop [OF off] by simp
    with off due True Cons.prems show ?thesis by (auto simp: Let_def take_Cons')
  next
    case False
    then have "waiting (wait_tick w b)" "\<not> start_due (wait_tick w b)" "attempts (wait_tick w b) = Suc (attempts w)"
      using Cons.prems by (auto simp: wait_tick_def Let_def)
    with Cons.IH [of "wait_tick w b"] False Cons.prems show ?thesis
      by (auto simp: Let_def take_Cons' Suc_diff_le)
  qed
qed (simp_all add: Let_def)

text \<open>
  The wait for the sidebar ends: after 21 ticks at the latest the poll is off, and the tour is tried exactly
  when one of those ticks saw the sidebar.
\<close>

theorem tour_wait_ends:
  assumes "21 \<le> length obs"
  shows "let w = run_events wait_tick wait_init obs in \<not> waiting w \<and> (start_due w \<longleftrightarrow> True \<in> set (take 21 obs))"
  using wait_fold [of wait_init obs] assms by (simp add: wait_init_def Let_def)

theorem tour_wait_ends_witness: "\<not> waiting (run_events wait_tick wait_init (replicate 30 False))"
  using tour_wait_ends [of "replicate 30 False"] by (simp add: Let_def)

text \<open>Every request of the API page carries the header the server asks for, beside the headers it had.\<close>

theorem docs_requests_carry_header:
  "map_of (request_interceptor hs) = (map_of hs)(''X-Requested-With'' \<mapsto> ''ContainerManager'')"
  by (simp add: request_interceptor_def map_of_alist_set)

end
