(* ===== verification/Startup.thy ===== *)
theory Startup
  imports Wizard Registry Session
begin

text \<open>
  The start-up code at the end of app.js: from the answers of the server to the setup wizard, the sign-in card or the
  page the user was last on, with the profile and its banners; and the sign-in that replaces the card later.
\<close>

section \<open>Starting\<close>

text \<open>What start-up and sign-in read from \<open>/api/config\<close> beside the fields of the session.\<close>

record boot_cfg =
  session_cfg :: app_cfg
  cfg_profile :: string
  cfg_insecure :: bool
  cfg_bind_host :: string

text \<open>
  \<open>taken_over\<close> is the wizard when it has taken the page over; \<open>switcher\<close>: the profile switcher is shown; \<open>top_banners\<close>:
  ids and texts of the strips above the application; \<open>config_asked\<close>: calls of \<open>apiFetch\<close> for the configuration, which
  asks the server unless the session is past its limit.
\<close>

record app =
  sess :: session
  nav :: nav
  taken_over :: "wizard option"
  reviewer_class :: bool
  switcher :: bool
  top_banners :: "(string \<times> string) list"
  logout_shown :: bool
  config_asked :: nat

definition app_start :: "session \<Rightarrow> nav \<Rightarrow> app" where
  "app_start s n = \<lparr>sess = s, nav = n, taken_over = None, reviewer_class = False, switcher = False, top_banners = [],
     logout_shown = False, config_asked = 0\<rparr>"

definition go_page :: "bool \<Rightarrow> string \<Rightarrow> app \<Rightarrow> app" where
  "go_page storage p a = a\<lparr>nav := show_page pages storage p (nav a), sess := (sess a)\<lparr>screen := Page p\<rparr>\<rparr>"

text \<open>The part of the answer that start-up applies: the hosts, the session times, the profile.\<close>

definition boot_session :: "int \<Rightarrow> app_cfg \<Rightarrow> session \<Rightarrow> session" where
  "boot_session now c s =
     (let s0 = (if cfg_docker_vm_host c \<noteq> [] then s\<lparr>docker_vm_host := cfg_docker_vm_host c\<rparr> else s);
          s1 = (if cfg_docker_host c \<noteq> [] then s0\<lparr>docker_host := cfg_docker_host c\<rparr> else s0)
      in apply_session_timeouts now (Some c) s1)"

definition boot_profile :: "boot_cfg \<Rightarrow> app \<Rightarrow> app" where
  "boot_profile c a = (let (rev_class, sw, strips) = apply_profile (cfg_profile c) (cfg_insecure c) (cfg_bind_host c)
       (t skiff_strings ''reviewer.banner'' None) (top_banners a) in
     a\<lparr>reviewer_class := reviewer_class a \<or> rev_class, switcher := switcher a \<or> sw, top_banners := strips\<rparr>)"

definition no_opts :: fetch_opts where
  "no_opts = \<lparr>opt_headers = [], opt_timeout = 0\<rparr>"

text \<open>
  The configuration is asked for with \<open>apiFetch\<close>, which may end the session or show the sign-in card by itself; a
  failure is swallowed. \<open>net\<close> is the network, \<open>cfg_of\<close> reads the answer's body.
\<close>

definition boot_config :: "int \<Rightarrow> (request \<Rightarrow> net_result) \<Rightarrow> (json \<Rightarrow> boot_cfg) \<Rightarrow> app \<Rightarrow> app" where
  "boot_config now net cfg_of a = (case api_fetch now now no_opts net (sess a) of
      (Inl e, s) \<Rightarrow> a\<lparr>sess := s, config_asked := Suc (config_asked a)\<rparr>
    | (Inr b, s) \<Rightarrow> boot_profile (cfg_of b)
        (a\<lparr>sess := boot_session now (session_cfg (cfg_of b)) s, config_asked := Suc (config_asked a)\<rparr>))"

text \<open>
  The whole of it. \<open>setup_answer\<close> and \<open>auth_answer\<close> are the answers to \<open>/api/setup-state\<close> and
  \<open>/api/auth-required\<close>, \<open>None\<close> when they fail; \<open>stored\<close> is the last page, \<open>None\<close> when storage is blocked.
\<close>

definition startup :: "int \<Rightarrow> setup_state option \<Rightarrow> bool option \<Rightarrow> (request \<Rightarrow> net_result) \<Rightarrow> (json \<Rightarrow> boot_cfg) \<Rightarrow>
    bool \<Rightarrow> string option \<Rightarrow> app \<Rightarrow> app" where
  "startup now setup_answer auth_answer net cfg_of storage stored a =
     (case check_setup_state now setup_answer of
        Some w \<Rightarrow> a\<lparr>taken_over := Some w\<rparr>
      | None \<Rightarrow>
          if auth_answer = Some True \<and> api_token (sess a) = [] then a\<lparr>sess := show_login (sess a)\<rparr>
          else go_page storage (landing (if storage then stored else None))
            (boot_config now net cfg_of (a\<lparr>logout_shown := logout_shown a \<or> api_token (sess a) \<noteq> []\<rparr>)))"

text \<open>Signing in: the token, the configuration again, and the container page whatever became of it.\<close>

definition sign_in :: "int \<Rightarrow> string \<Rightarrow> (request \<Rightarrow> net_result) \<Rightarrow> (json \<Rightarrow> boot_cfg) \<Rightarrow> bool \<Rightarrow> app \<Rightarrow> app" where
  "sign_in now typed net cfg_of storage a = (case login_click now typed (sess a) of
      None \<Rightarrow> a
    | Some s \<Rightarrow> (case api_fetch now now no_opts net s of
          (Inl e, s') \<Rightarrow> go_page storage ''containers'' (a\<lparr>sess := s', config_asked := Suc (config_asked a)\<rparr>)
        | (Inr b, s') \<Rightarrow> go_page storage ''containers''
            (a\<lparr>sess := login_config (\<lambda>k. t skiff_strings k None) now (session_cfg (cfg_of b)) s',
               config_asked := Suc (config_asked a)\<rparr>)))"

text \<open>The logout button of the sidebar follows the token, every two seconds and on each change of visibility.\<close>

definition sync_logout :: "app \<Rightarrow> app" where
  "sync_logout a = a\<lparr>logout_shown := (api_token (sess a) \<noteq> [])\<rparr>"

section \<open>Properties\<close>

lemma boot_profile_fields [simp]: "nav (boot_profile c a) = nav a" "sess (boot_profile c a) = sess a"
  "taken_over (boot_profile c a) = taken_over a" "config_asked (boot_profile c a) = config_asked a"
  "logout_shown (boot_profile c a) = logout_shown a"
  by (simp_all add: boot_profile_def case_prod_beta)

lemma boot_config_fields [simp]: "nav (boot_config now net cfg_of a) = nav a"
  "taken_over (boot_config now net cfg_of a) = taken_over a" "config_asked (boot_config now net cfg_of a) = Suc (config_asked a)"
  "logout_shown (boot_config now net cfg_of a) = logout_shown a"
  by (simp_all add: boot_config_def split: prod.split sum.split)

lemma landing_in: "landing st \<in> set landing_pages"
  by (cases st) (simp_all add: landing_def landing_pages_def)

lemma go_page_nav:
  assumes "p \<in> set landing_pages"
  shows "current_page (nav (go_page storage p a)) = p" "loads (nav (go_page storage p a)) = loads (nav a) @ [loader_of p]"
  using assms by (simp_all add: go_page_def show_page_internal enter_page_def)

text \<open>
  C16: start-up ends in exactly one place. The wizard when the server says it has no configuration; else the sign-in
  card when a token is required and there is none, and then nothing is requested and no page is loaded; else
  one page of the sidebar, whose own loader runs once, after one call of \<open>apiFetch\<close> for the configuration (it sends
  no request when the stored session is past its limit).
\<close>

theorem startup_lands_once:
  "let a = startup now st auth net cfg_of storage stored (app_start s n);
       wiz = (\<exists>x. st = Some x \<and> \<not> configured x \<and> \<not> from_env x); card = (auth = Some True \<and> api_token s = []) in
   (taken_over a \<noteq> None \<longleftrightarrow> wiz) \<and>
   (loads (nav a) = loads n @ (if wiz \<or> card then [] else [loader_of (landing (if storage then stored else None))])) \<and>
   (config_asked a = (if wiz \<or> card then 0 else 1)) \<and>
   (if wiz then sess a = s else if card then screen (sess a) = Login \<and> nav a = n
    else current_page (nav a) = landing (if storage then stored else None) \<and> current_page (nav a) \<in> set landing_pages)"
proof -
  define wiz where "wiz = (\<exists>x. st = Some x \<and> \<not> configured x \<and> \<not> from_env x)"
  define card where "card = (auth = Some True \<and> api_token s = [])"
  define p where "p = landing (if storage then stored else None)"
  have check: "check_setup_state now st = (if wiz then Some (show_setup_wizard now (the st)) else None)"
    by (auto simp: check_setup_state_def wiz_def split: option.split)
  have p: "p \<in> set landing_pages" by (simp add: p_def landing_in)
  have keeps: "taken_over (go_page b q x) = taken_over x" "config_asked (go_page b q x) = config_asked x" for b q x
    by (simp_all add: go_page_def)
  have start: "startup now st auth net cfg_of storage stored (app_start s n) =
    (if wiz then (app_start s n)\<lparr>taken_over := Some (show_setup_wizard now (the st))\<rparr>
     else if card then (app_start s n)\<lparr>sess := show_login s\<rparr>
     else go_page storage p (boot_config now net cfg_of ((app_start s n)\<lparr>logout_shown := api_token s \<noteq> []\<rparr>)))"
    unfolding startup_def check card_def p_def by (simp add: app_start_def)
  show ?thesis unfolding Let_def wiz_def [symmetric] card_def [symmetric] p_def [symmetric] start
    by (cases wiz; cases card) (simp_all add: app_start_def show_login_def go_page_nav [OF p] p keeps)
qed

text \<open>A configuration that arrives is applied: the reviewer's class and strip, the switcher, the insecure strip.\<close>

theorem startup_applies_profile:
  assumes "check_setup_state now st = None" and "\<not> (auth = Some True \<and> api_token s = [])"
    and "fst (api_fetch now now no_opts net s) = Inr b"
  shows "let a = startup now st auth net cfg_of storage stored (app_start s n); c = cfg_of b in
    reviewer_class a = (cfg_profile c = ''reviewer'') \<and> switcher a = (cfg_profile c \<noteq> ''reviewer'') \<and>
    (''reviewer-mode-banner'' \<in> fst ` set (top_banners a) \<longleftrightarrow> cfg_profile c = ''reviewer'') \<and>
    (''insecure-mode-banner'' \<in> fst ` set (top_banners a) \<longleftrightarrow> cfg_insecure c)"
proof -
  obtain s' where "api_fetch now now no_opts net s = (Inr b, s')" using assms(3) by (cases "api_fetch now now no_opts net s") simp
  with assms(1,2) show ?thesis
    by (auto simp: startup_def app_start_def boot_config_def boot_profile_def apply_profile_def go_page_def Let_def
        render_reviewer_banner_def render_insecure_banner_def)
qed

text \<open>
  A sign-in does not read the profile: a server in reviewer mode, or an insecure one, shows no sign of it until
  the page is loaded again.
\<close>

theorem sign_in_skips_profile:
  "let a = sign_in now typed net cfg_of storage (startup now0 st (Some True) net0 cfg_of storage stored (app_start (session_init [] None) n))
   in st = None \<longrightarrow> \<not> reviewer_class a \<and> \<not> switcher a \<and> top_banners a = []"
  by (auto simp: sign_in_def startup_def app_start_def check_setup_state_def session_init_def go_page_def Let_def
      split: option.split prod.split sum.split)

text \<open>
  A token the server refuses while start-up asks for the configuration brings up the sign-in card, and then the page
  over it.
\<close>

theorem refused_token_page_over_card:
  assumes "api_token s = tok" and "tok \<noteq> []" and "session_start s = None" and "status r = 401"
  shows "let a = startup now None (Some True) (\<lambda>q. Responded r) cfg_of storage stored (app_start s n) in
    api_token (sess a) = [] \<and> screen (sess a) = Page (landing (if storage then stored else None)) \<and> top_banners a = []"
  using assms
  by (simp add: startup_def app_start_def check_setup_state_def boot_config_def api_fetch_def api_prepare_def
      check_session_expiry_def start_time_def api_handle_def show_login_def say_def go_page_def Let_def)

end
