(* ===== verification/FileBrowser.thy ===== *)
theory FileBrowser
  imports Detail ListPage
begin

text \<open>
  The files tab of a container as a machine: \<open>_renderFileBrowser\<close> with its breadcrumb and rows, the answers that
  arrive in any order, deletion with its undo bar, uploads and downloads.
\<close>

section \<open>The browser\<close>

text \<open>
  \<open>at_path\<close> is \<open>_filesPath[id]\<close>, empty when not set; \<open>listings\<close> the paths of the listings that are out, each with
  the closure's own \<open>path\<close>.
\<close>

datatype file_panel = FilesLoading | Listing string "dir_entry list" bool | ListError string string

record browser =
  at_path :: string
  panel :: file_panel
  listings :: "string list"
  file_toasts :: "toast list"

definition shown_path :: "browser \<Rightarrow> string" where
  "shown_path b = or_str (at_path b) ''/''"

definition render_files :: "browser \<Rightarrow> browser" where
  "render_files b = b\<lparr>panel := FilesLoading, listings := listings b @ [shown_path b]\<rparr>"

definition go_path :: "string \<Rightarrow> browser \<Rightarrow> browser" where
  "go_path p b = render_files (b\<lparr>at_path := p\<rparr>)"

definition open_files :: "string \<Rightarrow> browser" where
  "open_files stored = render_files \<lparr>at_path = stored, panel = FilesLoading, listings = [], file_toasts = []\<rparr>"

definition listing_url :: "string \<Rightarrow> string \<Rightarrow> string" where
  "listing_url box path = ''/api/containers/'' @ box @ ''/ls?path='' @ encode_uri path"

text \<open>The row that goes up, and the line below the table of a directory that was cut off.\<close>

definition up_row :: "string \<Rightarrow> string option" where
  "up_row path = (if path \<noteq> ''/'' then Some (parent_path path) else None)"

definition truncated_note :: "dir_entry list \<Rightarrow> bool \<Rightarrow> string" where
  "truncated_note es trunc = (if trunc then ''Directory truncated at '' @ show_nat (length es) @
     '' entries. Raise CONTAINER_LS_MAX_ENTRIES on the server to see more.'' else [])"

definition without :: "nat \<Rightarrow> 'a list \<Rightarrow> 'a list" where
  "without i xs = take i xs @ drop (Suc i) xs"

text \<open>The question of a deletion, and what its reply does.\<close>

definition delete_question :: "int \<Rightarrow> dir_entry \<Rightarrow> string" where
  "delete_question secs e = ''Delete '' @ (if etype e = Dir then ''directory'' else ''file'') @ '' '' @ dquote @ ename e @ dquote @ ''? '' @ undo_hint secs"

definition file_deleted :: "string \<Rightarrow> json \<Rightarrow> reply_effect" where
  "file_deleted n resp = undo_reply (''Delete '' @ dquote @ n @ dquote) (''Deleted '' @ n, Info) resp"

definition upload_url :: "string \<Rightarrow> string \<Rightarrow> string" where
  "upload_url box path = ''/api/containers/'' @ box @ ''/upload?path='' @ encode_uri path"

text \<open>Uploads and downloads use \<open>fetch\<close> itself, with headers of their own; the token may be empty.\<close>

definition raw_headers :: "string \<Rightarrow> (string \<times> string) list" where
  "raw_headers tok = [(''Authorization'', ''Bearer '' @ tok), (''X-Requested-With'', ''ContainerManager'')]"

text \<open>The message of a refused upload: the detail's, else the status. The body is what the refusal parsed to.\<close>

definition upload_error :: "int \<Rightarrow> json \<Rightarrow> string" where
  "upload_error st bdy = (case json_get bdy ''detail'' of
      Some d \<Rightarrow> (case json_get d ''message'' of Some m \<Rightarrow> if truthy (Some m) then js_string m else ''HTTP '' @ show_int st
        | None \<Rightarrow> ''HTTP '' @ show_int st)
    | None \<Rightarrow> ''HTTP '' @ show_int st)"

datatype file_event = ClickEntry nat | ClickUp | ClickCrumb nat | RefreshFiles
  | ListDone nat "string + dir_entry list \<times> bool" | FileChanged toast | FileSaid toast

text \<open>
  The clicks a listing offers. Its rows use the path of the listing, not \<open>at_path\<close>; an entry opens when it is a
  directory or a link. A panel that shows an error keeps the header, so its crumbs work.
\<close>

definition panel_path :: "file_panel \<Rightarrow> string option" where
  "panel_path v = (case v of FilesLoading \<Rightarrow> None | Listing p es t \<Rightarrow> Some p | ListError p m \<Rightarrow> Some p)"

definition entry_target :: "file_panel \<Rightarrow> nat \<Rightarrow> string option" where
  "entry_target v i = (case v of Listing p es t \<Rightarrow> (if i < length es then entry_opens p (es ! i) else None) | _ \<Rightarrow> None)"

definition crumb_target :: "file_panel \<Rightarrow> nat \<Rightarrow> string option" where
  "crumb_target v i = (case panel_path v of None \<Rightarrow> None
     | Some p \<Rightarrow> if i < length (breadcrumb p) then Some (snd (breadcrumb p ! i)) else None)"

definition up_target :: "file_panel \<Rightarrow> string option" where
  "up_target v = (case v of Listing p es t \<Rightarrow> up_row p | _ \<Rightarrow> None)"

definition follow :: "string option \<Rightarrow> browser \<Rightarrow> browser" where
  "follow target b = (case target of None \<Rightarrow> b | Some p \<Rightarrow> go_path p b)"

fun file_step :: "browser \<Rightarrow> file_event \<Rightarrow> browser" where
  "file_step b (ClickEntry i) = follow (entry_target (panel b) i) b"
| "file_step b ClickUp = follow (up_target (panel b)) b"
| "file_step b (ClickCrumb i) = follow (crumb_target (panel b) i) b"
| "file_step b RefreshFiles = render_files b"
| "file_step b (ListDone i ans) = (if i < length (listings b)
     then b\<lparr>listings := without i (listings b), panel := (case ans of Inl msg \<Rightarrow> ListError (listings b ! i)
         (''Cannot list '' @ listings b ! i @ '': '' @ msg) | Inr (es, trunc) \<Rightarrow> Listing (listings b ! i) es trunc)\<rparr> else b)"
| "file_step b (FileChanged msg) = render_files (b\<lparr>file_toasts := file_toasts b @ [msg]\<rparr>)"
| "file_step b (FileSaid msg) = b\<lparr>file_toasts := file_toasts b @ [msg]\<rparr>"

section \<open>Properties\<close>

text \<open>The answers so far, each with the path its request was made for.\<close>

definition answered_now :: "browser \<Rightarrow> file_event \<Rightarrow> (string \<times> (string + dir_entry list \<times> bool)) list" where
  "answered_now b e = (case e of ListDone i ans \<Rightarrow> if i < length (listings b) then [(listings b ! i, ans)] else [] | _ \<Rightarrow> [])"

fun answered :: "browser \<Rightarrow> file_event list \<Rightarrow> (string \<times> (string + dir_entry list \<times> bool)) list" where
  "answered b [] = []"
| "answered b (e # es) = answered_now b e @ answered (file_step b e) es"

lemma answered_snoc: "answered b (es @ [e]) = answered b es @ answered_now (run_events file_step b es) e"
  by (induction es arbitrary: b) simp_all

definition panel_inv :: "(string \<times> (string + dir_entry list \<times> bool)) list \<Rightarrow> browser \<Rightarrow> bool" where
  "panel_inv log b \<longleftrightarrow> (case panel b of FilesLoading \<Rightarrow> listings b \<noteq> []
     | Listing p es trunc \<Rightarrow> (p, Inr (es, trunc)) \<in> set log
     | ListError p m \<Rightarrow> \<exists>msg. m = ''Cannot list '' @ p @ '': '' @ msg \<and> (p, Inl msg) \<in> set log)"

lemma render_files_inv: "panel_inv log (render_files b)"
  by (simp add: panel_inv_def render_files_def)

lemma panel_inv_more: "panel_inv log b \<Longrightarrow> panel_inv (log @ xs) b"
  by (auto simp: panel_inv_def split: file_panel.splits)

lemma follow_inv: "panel_inv log b \<Longrightarrow> panel_inv log (follow target b)"
  by (cases target) (simp_all add: follow_def go_path_def render_files_inv)

lemma file_step_inv: "panel_inv log b \<Longrightarrow> panel_inv (log @ answered_now b e) (file_step b e)"
proof (cases e)
  case (ListDone i ans)
  assume "panel_inv log b"
  with ListDone show ?thesis by (cases "panel b"; cases ans) (auto simp: panel_inv_def answered_now_def)
next
  case (FileSaid m)
  assume "panel_inv log b"
  with FileSaid show ?thesis by (cases "panel b") (simp_all add: answered_now_def panel_inv_def)
qed (simp_all add: answered_now_def follow_inv render_files_inv)

lemma file_run_inv: "panel_inv (answered (open_files st) es) (run_events file_step (open_files st) es)"
proof (induction es rule: rev_induct)
  case Nil
  show ?case by (simp add: open_files_def render_files_inv)
next
  case (snoc e es)
  from file_step_inv [OF this, of e] show ?case by (simp add: answered_snoc)
qed

text \<open>The path a server reads from the address of an action.\<close>

definition requested_path :: "string \<Rightarrow> string \<Rightarrow> string" where
  "requested_path box url = decode_uri (drop (length (''/api/containers/'' @ box @ ''/files?path='')) url)"

lemma requested_file_url: "requested_path box (file_url box full) = full"
proof -
  have "drop (length pre) (pre @ x) = x" for pre x :: string by simp
  from this [of "''/api/containers/'' @ box @ ''/files?path=''" "encode_uri full"] show ?thesis
    unfolding requested_path_def file_url_def append_assoc by simp
qed

lemma entry_action_path: "act \<in> set (entry_actions box p e) \<Longrightarrow> requested_path box (fst (snd act)) = next_path p (ename e)"
  by (auto simp: entry_actions_def Let_def requested_file_url split: if_splits)

text \<open>
  C27: the file browser never mixes two directories. Whatever is clicked and in whatever order the listings come
  back, the rows shown are those an answer gave for the path in the breadcrumb above them, every action of a row
  names that path with the row's name, and "Loading" is shown only while a listing is out.
\<close>

theorem listing_is_of_its_path:
  assumes "b = run_events file_step (open_files st) es"
  shows "(panel b = Listing p ents trunc \<longrightarrow> (p, Inr (ents, trunc)) \<in> set (answered (open_files st) es) \<and>
      (\<forall>e \<in> set ents. \<forall>act \<in> set (entry_actions box p e). requested_path box (fst (snd act)) = next_path p (ename e))) \<and>
    (panel b = FilesLoading \<longrightarrow> listings b \<noteq> [])"
  using file_run_inv [of st es] entry_action_path [of _ box p] assms
  by (auto simp: panel_inv_def split: file_panel.splits)

theorem listing_is_of_its_path_witness:
  "(''/etc'', Inr ([\<lparr>ename = ''hosts'', etype = File, etarget = [], esize = 9, emode = ''0644''\<rparr>], False)) \<in>
    set (answered (open_files ''/etc'') [ListDone 0 (Inr ([\<lparr>ename = ''hosts'', etype = File, etarget = [], esize = 9, emode = ''0644''\<rparr>], False))])"
proof -
  let ?es = "[ListDone 0 (Inr ([\<lparr>ename = ''hosts'', etype = File, etarget = [], esize = 9, emode = ''0644''\<rparr>], False))]"
  have "panel (run_events file_step (open_files ''/etc'') ?es) = Listing ''/etc'' [\<lparr>ename = ''hosts'', etype = File, etarget = [], esize = 9, emode = ''0644''\<rparr>] False"
    by (simp add: open_files_def render_files_def shown_path_def)
  with listing_is_of_its_path [OF refl, of "''/etc''" ?es] show ?thesis by blast
qed

text \<open>
  The last answer wins: a listing that is answered late is shown although the user has gone on, and Refresh then
  jumps to where they went.
\<close>

theorem late_listing_shown:
  assumes "p \<noteq> []" and "r \<noteq> []"
  shows "let b = run_events file_step (open_files p) [ListDone 0 (Inr (es0, False)), RefreshFiles] in
    let v = run_events file_step (go_path r b) [ListDone 1 (Inr (es2, False)), ListDone 0 (Inr (es1, False))] in
    panel v = Listing p es1 False \<and> at_path v = r \<and> listings (file_step v RefreshFiles) = [r]"
  using assms by (simp add: open_files_def render_files_def go_path_def shown_path_def without_def or_str_def Let_def)

text \<open>The crumbs of a path are its prefixes, and the last one is the path.\<close>

definition path_of :: "string list \<Rightarrow> string" where
  "path_of ns = concat (map (\<lambda>n. ''/'' @ n) ns)"

lemma split_path_of:
  "list_all (\<lambda>n. n \<noteq> [] \<and> CHR ''/'' \<notin> set n) ns \<Longrightarrow> nonempty (split_on CHR ''/'' (path_of ns)) = ns"
proof (induction ns)
  case (Cons n ns)
  have tail: "split_on CHR ''/'' (path_of ns) = [] # ns" if "ns \<noteq> []"
  proof -
    have "path_of ns = ''/'' @ join ''/'' ns" using that
      by (induction ns rule: induct_list012) (simp_all add: path_of_def)
    moreover have "split_on CHR ''/'' (join ''/'' ns) = ns"
      using Cons.prems that by (intro split_on_join) (auto simp: list_all_iff)
    ultimately show ?thesis by simp
  qed
  have "path_of (n # ns) = ''/'' @ n @ path_of ns" by (simp add: path_of_def)
  moreover have "nonempty (split_on CHR ''/'' (n @ path_of ns)) = n # ns"
  proof (cases "ns = []")
    case True
    with Cons.prems show ?thesis by (simp add: path_of_def split_on_no_sep nonempty_def)
  next
    case False
    then obtain rest where rest: "path_of ns = CHR ''/'' # rest" by (cases ns) (auto simp: path_of_def)
    have "split_on CHR ''/'' (n @ CHR ''/'' # rest) = n # split_on CHR ''/'' rest"
      using Cons.prems by (intro split_on_append_sep) simp
    moreover have "split_on CHR ''/'' rest = ns" using tail [OF False] rest by simp
    moreover have "nonempty (n # ns) = n # ns" using Cons.prems by (intro nonempty_id) (auto simp: list_all_iff)
    ultimately show ?thesis using rest by simp
  qed
  ultimately show ?case by (simp add: nonempty_def)
qed (simp add: path_of_def nonempty_def)

lemma crumb_paths_prefixes: "map snd (crumb_paths acc ns) = map (\<lambda>k. acc @ path_of (take (Suc k) ns)) [0..<length ns]"
proof (induction ns arbitrary: acc)
  case (Cons n ns)
  have "map (\<lambda>k. acc @ path_of (take (Suc k) (n # ns))) [0..<length (n # ns)] =
      (acc @ ''/'' @ n) # map (\<lambda>k. (acc @ ''/'' @ n) @ path_of (take (Suc k) ns)) [0..<length ns]"
    by (simp add: upt_conv_Cons map_Suc_upt [symmetric] path_of_def del: upt_Suc)
  with Cons show ?case by simp
qed simp

theorem breadcrumb_prefixes:
  assumes "list_all (\<lambda>n. n \<noteq> [] \<and> CHR ''/'' \<notin> set n) ns"
  shows "map snd (breadcrumb (path_of ns)) = ''/'' # map (\<lambda>k. path_of (take (Suc k) ns)) [0..<length ns] \<and>
    (ns \<noteq> [] \<longrightarrow> snd (last (breadcrumb (path_of ns))) = path_of ns)"
proof -
  have m: "map snd (breadcrumb (path_of ns)) = ''/'' # map (\<lambda>k. path_of (take (Suc k) ns)) [0..<length ns]"
    by (simp add: breadcrumb_def split_path_of [OF assms] crumb_paths_prefixes)
  moreover have "snd (last (breadcrumb (path_of ns))) = path_of ns" if "ns \<noteq> []"
  proof -
    have "snd (last (breadcrumb (path_of ns))) = last (map snd (breadcrumb (path_of ns)))"
      by (intro last_map [symmetric]) (simp add: breadcrumb_def)
    also have "\<dots> = path_of ns" using that unfolding m by (simp add: last_map)
    finally show ?thesis .
  qed
  ultimately show ?thesis by blast
qed

theorem breadcrumb_prefixes_witness:
  "snd (last (breadcrumb (path_of [''var'', ''log'']))) = path_of [''var'', ''log'']"
  using breadcrumb_prefixes [of "[''var'', ''log'']"] by simp

end
