(* ===== verification/DetailViews.thy ===== *)
theory DetailViews
  imports Detail
begin

text \<open>
  The other views of a container: the sections of its inspect tab, the form of its live resources as a machine
  with its request, the process table, and the changes against the image.
\<close>

section \<open>The inspect tab\<close>

record health =
  health_status :: string
  failing_streak :: int
  health_test :: "string list option"
  probe_log :: "(int \<times> string) list"

record inspected =
  i_id :: string
  i_name :: string
  i_image :: string
  i_created :: string
  i_status :: string
  i_pid :: string
  i_restarts :: string
  i_platform :: string
  i_cmd :: "string list"
  i_entrypoint :: "string list"
  i_workdir :: string
  i_user :: string
  i_hostname :: string
  i_env :: "string list"
  i_mounts :: "(string \<times> string \<times> string \<times> bool) list"
  i_health :: "health option"
  i_networks :: "(string \<times> string \<times> string) list"

text \<open>The output of a probe is cut at 200 characters, for an ASCII output 200 bytes.\<close>

definition health_entries :: "health \<Rightarrow> (string \<times> string) list" where
  "health_entries h = (case health_test h of Some ts \<Rightarrow> [(''Test'', join '' '' ts)] | None \<Rightarrow> []) @
     [(''Status'', health_status h), (''Failing Streak'', show_int (failing_streak h))] @
     map (\<lambda>(i, code, out). (''Probe '' @ show_nat (Suc i), ''Exit: '' @ show_int code @ '' '' @ em_dash @ '' '' @ take 200 out))
       (enumerate 0 (probe_log h))"

datatype inspect_part = Section string "(string \<times> string) list" | ResourceForm

definition section_if :: "bool \<Rightarrow> string \<Rightarrow> (string \<times> string) list \<Rightarrow> inspect_part list" where
  "section_if b title es = (if b then [Section title es] else [])"

definition inspect_parts :: "inspected \<Rightarrow> inspect_part list" where
  "inspect_parts d =
    [Section ''General'' [(''ID'', i_id d), (''Name'', i_name d), (''Image'', i_image d), (''Created'', i_created d),
       (''Status'', i_status d), (''PID'', i_pid d), (''Restarts'', i_restarts d), (''Platform'', i_platform d)],
     Section ''Config'' [(''Command'', join '' '' (i_cmd d)), (''Entrypoint'', join '' '' (i_entrypoint d)),
       (''Working Dir'', i_workdir d), (''User'', or_str (i_user d) ''(default)''), (''Hostname'', i_hostname d)],
     ResourceForm] @
    section_if (i_env d \<noteq> []) ''Environment'' (map env_entry (i_env d)) @
    section_if (i_mounts d \<noteq> []) ''Mounts'' (map mount_entry (i_mounts d)) @
    (case i_health d of Some h \<Rightarrow> section_if (health_status h \<noteq> ''none'') ''Health Check'' (health_entries h) | None \<Rightarrow> []) @
    section_if (i_networks d \<noteq> []) ''Networks''
      (map (\<lambda>(n, ip, gw). (n, ''IP: '' @ ip @ '' GW: '' @ gw)) (i_networks d))"

text \<open>The rows below the form that cannot be edited.\<close>

definition read_only_rows :: "bool \<Rightarrow> string list \<Rightarrow> (string \<times> string) list \<Rightarrow> (string \<times> string) list" where
  "read_only_rows ro security tmpfs = (''Read-only rootfs'', if ro then ''yes'' else ''no'') #
     (if security \<noteq> [] then [(''Security'', join '', '' security)] else []) @
     map (\<lambda>(p, opts). (''tmpfs '' @ p, or_str opts ''(default opts)'')) tmpfs"

section \<open>The form of the resources\<close>

text \<open>
  \<open>saving\<close>: requests that are not answered; \<open>bodies\<close> those that were sent; \<open>save_off\<close> the state of both buttons;
  \<open>retry_shown\<close> whether the retry count is visible; \<open>reopens\<close> the timers that open the inspect tab again.
\<close>

record resource_form =
  inputs :: "edit_field list"
  save_off :: bool
  retry_shown :: bool
  status_line :: string
  saving :: nat
  bodies :: "(string \<times> json) list list"
  reopens :: nat

definition form_init :: "edit_field list \<Rightarrow> resource_form" where
  "form_init fs = \<lparr>inputs = fs, save_off = True,
     retry_shown = (original (find_field fs ''restart_policy_name'') = ''on-failure''), status_line = [], saving = 0, bodies = [], reopens = 0\<rparr>"

definition type_field :: "string \<Rightarrow> string \<Rightarrow> edit_field list \<Rightarrow> edit_field list" where
  "type_field k v fs = map (\<lambda>f. if edit_key f = k then f\<lparr>val := v\<rparr> else f) fs"

definition update_buttons :: "resource_form \<Rightarrow> resource_form" where
  "update_buttons r = r\<lparr>save_off := \<not> has_changes (inputs r)\<rparr>"

definition sync_retry :: "resource_form \<Rightarrow> resource_form" where
  "sync_retry r = r\<lparr>retry_shown := (val (find_field (inputs r) ''restart_policy_name'') = ''on-failure'')\<rparr>"

definition save_click :: "resource_form \<Rightarrow> resource_form" where
  "save_click r = (case save_body (inputs r) of Inl msg \<Rightarrow> r\<lparr>status_line := msg\<rparr>
     | Inr bdy \<Rightarrow> if bdy = [] then r
         else r\<lparr>save_off := True, status_line := ''Saving'' @ ellipsis, saving := Suc (saving r), bodies := bodies r @ [bdy]\<rparr>)"

datatype form_event = TypeField string string | PickPolicy string | RevertClick | SaveClick | SaveOk | SaveFailed string

definition tick_char :: string where "tick_char = [CHR 0xE2, CHR 0x9C, CHR 0x93]"
definition cross_char :: string where "cross_char = [CHR 0xE2, CHR 0x9C, CHR 0x97]"

fun form_step :: "resource_form \<Rightarrow> form_event \<Rightarrow> resource_form" where
  "form_step r (TypeField k v) = (if k = ''restart_policy_name'' then r
     else update_buttons (r\<lparr>inputs := type_field k v (inputs r)\<rparr>))"
| "form_step r (PickPolicy p) =
     update_buttons (sync_retry (r\<lparr>inputs := type_field ''restart_policy_name'' (select_policy p) (inputs r)\<rparr>))"
| "form_step r RevertClick = (if save_off r then r
     else (update_buttons (sync_retry (r\<lparr>inputs := revert (inputs r)\<rparr>)))\<lparr>status_line := []\<rparr>)"
| "form_step r SaveClick = (if save_off r then r else save_click r)"
| "form_step r SaveOk = (if saving r = 0 then r
     else r\<lparr>saving := saving r - 1, status_line := tick_char @ '' Saved'', reopens := Suc (reopens r)\<rparr>)"
| "form_step r (SaveFailed msg) = (if saving r = 0 then r
     else r\<lparr>saving := saving r - 1, save_off := False, status_line := cross_char @ '' '' @ or_str msg ''Update failed''\<rparr>)"

section \<open>Processes and changes\<close>

text \<open>What the process poll paints; \<open>top_stops\<close>: the errors after which it should stop.\<close>

datatype top_panel = NoProcesses | ProcessTable "string list" "string list list" | TopError string

definition paint_top :: "string + string list \<times> string list list \<Rightarrow> top_panel" where
  "paint_top ans = (case ans of Inl msg \<Rightarrow> TopError msg | Inr (titles, ps) \<Rightarrow> if ps = [] then NoProcesses else ProcessTable titles ps)"

definition top_stops :: "string \<Rightarrow> bool" where
  "top_stops msg = (stops msg \<or> has_sub msg ''conflict'')"

text \<open>The changes: badge class, kind and path of each, and the count below.\<close>

datatype diff_panel = NoChanges | Changes "(string \<times> string \<times> string) list" string | DiffError string

definition paint_diff :: "string + (string \<times> string) list \<Rightarrow> diff_panel" where
  "paint_diff ans = (case ans of Inl msg \<Rightarrow> DiffError msg
     | Inr ds \<Rightarrow> if ds = [] then NoChanges
         else Changes (map (\<lambda>(kind, p). (diff_class kind, kind, p)) ds) (show_nat (length ds) @ '' change(s) from base image''))"

text \<open>The two sub-tabs: which is shown, and how often each was rendered.\<close>

record subtabs =
  diff_shown :: bool
  browser_renders :: nat
  diff_renders :: nat

definition click_subtab :: "bool \<Rightarrow> subtabs \<Rightarrow> subtabs" where
  "click_subtab diff s = (if diff then s\<lparr>diff_shown := True, diff_renders := Suc (diff_renders s)\<rparr>
     else s\<lparr>diff_shown := False, browser_renders := Suc (browser_renders s)\<rparr>)"

definition open_subtabs :: subtabs where
  "open_subtabs = click_subtab False \<lparr>diff_shown = False, browser_renders = 0, diff_renders = 0\<rparr>"

section \<open>Properties\<close>

definition keys_of :: "(string \<times> json) list \<Rightarrow> string set" where
  "keys_of bdy = fst ` set bdy"

lemma type_field_keys [simp]: "map edit_key (type_field k v fs) = map edit_key fs"
  "map original (type_field k v fs) = map original fs"
  by (induction fs) (simp_all add: type_field_def)

lemma revert_keys [simp]: "map edit_key (revert fs) = map edit_key fs" "map original (revert fs) = map original fs"
  by (induction fs) (simp_all add: revert_def)

text \<open>What every body that was sent satisfies.\<close>

definition editable_keys :: "string set" where
  "editable_keys = {''memory'', ''memory_reservation'', ''cpus'', ''cpu_shares'', ''pids_limit'', ''restart_policy''}"

lemma number_keys: "number_part fs k = Inr xs \<Longrightarrow> fst ` set xs \<subseteq> {k}"
  using number_part_keys [of fs k xs] by auto

lemma text_keys: "fst ` set (text_part fs k) \<subseteq> {k}"
  using text_part_keys [of _ fs k] by auto

lemma policy_keys: "fst ` set (policy_part fs) \<subseteq> {''restart_policy''}"
  by (auto simp: policy_part_def Let_def split: if_splits)

lemma save_body_keys:
  assumes "save_body fs = Inr bdy"
  shows "keys_of bdy \<subseteq> editable_keys"
proof -
  obtain a b where a: "number_part fs ''cpu_shares'' = Inr a" and b: "number_part fs ''pids_limit'' = Inr b"
    and bdy: "bdy = text_part fs ''memory'' @ text_part fs ''memory_reservation'' @ text_part fs ''cpus'' @ a @ b @ policy_part fs"
    using assms by (auto simp: save_body_def res_bind_Inr_iff)
  have "fst ` set bdy = fst ` set (text_part fs ''memory'') \<union> fst ` set (text_part fs ''memory_reservation'') \<union>
      fst ` set (text_part fs ''cpus'') \<union> fst ` set a \<union> fst ` set b \<union> fst ` set (policy_part fs)"
    unfolding bdy by (simp only: set_append image_Un Un_assoc)
  also have "\<dots> \<subseteq> {''memory''} \<union> {''memory_reservation''} \<union> {''cpus''} \<union> {''cpu_shares''} \<union> {''pids_limit''} \<union> {''restart_policy''}"
    by (intro Un_mono text_keys number_keys [OF a] number_keys [OF b] policy_keys)
  also have "\<dots> = editable_keys" unfolding editable_keys_def by (simp only: Un_insert_left sup_bot_left)
  finally show ?thesis by (simp add: keys_of_def)
qed

definition form_inv :: "resource_form \<Rightarrow> bool" where
  "form_inv r \<longleftrightarrow> list_all (\<lambda>bdy. bdy \<noteq> [] \<and> keys_of bdy \<subseteq> editable_keys) (bodies r) \<and>
     length (bodies r) \<ge> saving r + reopens r"

lemma save_click_inv: "form_inv r \<Longrightarrow> form_inv (save_click r)"
  using save_body_keys [of "inputs r"] by (auto simp: save_click_def form_inv_def split: sum.split)

lemma form_step_inv: "form_inv r \<Longrightarrow> form_inv (form_step r e)"
proof (cases e)
  case SaveClick
  assume "form_inv r"
  with SaveClick save_click_inv show ?thesis by simp
qed (auto simp: form_inv_def update_buttons_def sync_retry_def)

text \<open>
  The resource form sends nothing it should not. After any typing, reverting, saving and answering, each body
  sent is non-empty and holds live-updatable limits only, a click on Save without a change sends nothing, and the
  view is opened again only behind a save that was sent.
\<close>

theorem resource_form_sound:
  "let r = run_events form_step (form_init fs) es in
     list_all (\<lambda>bdy. bdy \<noteq> [] \<and> keys_of bdy \<subseteq> editable_keys) (bodies r) \<and>
     reopens r + saving r \<le> length (bodies r) \<and> (has_changes (inputs r) \<or> bodies (form_step r SaveClick) = bodies r)"
proof -
  let ?r = "run_events form_step (form_init fs) es"
  have "form_inv ?r"
  proof (rule run_events_invariant [where P = form_inv])
    show "form_inv (form_init fs)" by (simp add: form_inv_def form_init_def)
  qed (rule form_step_inv)
  moreover have "has_changes (inputs ?r) \<or> bodies (form_step ?r SaveClick) = bodies ?r"
    using save_sends_only_changes [of "inputs ?r"] by (auto simp: save_click_def split: sum.split)
  ultimately show ?thesis unfolding Let_def form_inv_def by (simp only: add.commute simp_thms)
qed

text \<open>
  The buttons are disabled while a save is out, but typing enables them again: a second save can be sent before the
  first is answered.
\<close>

theorem typing_reenables_save:
  "let fs = [edit_field ''memory'' ''1Gi'']; es = [TypeField ''memory'' ''2Gi'', SaveClick, TypeField ''memory'' ''3Gi'', SaveClick] in
     saving (run_events form_step (form_init fs) es) = 2"
  by code_simp

text \<open>The sections: general data, configuration and the form always, the others exactly when there is something.\<close>

theorem inspect_parts_titles:
  "[title. Section title es \<leftarrow> inspect_parts d] = [''General'', ''Config''] @
     (if i_env d \<noteq> [] then [''Environment''] else []) @ (if i_mounts d \<noteq> [] then [''Mounts''] else []) @
     (if (\<exists>h. i_health d = Some h \<and> health_status h \<noteq> ''none'') then [''Health Check''] else []) @
     (if i_networks d \<noteq> [] then [''Networks''] else [])"
  by (cases "i_health d") (simp_all add: inspect_parts_def section_if_def)

end
