(* ===== verification/RunDialog.thy ===== *)
theory RunDialog
  imports RunModal Actions
begin

text \<open>
  The run modal of app.js as a machine: opening, typing, the picks that fill the image field, the networks that
  arrive, submitting through the Run button, its answers, and the ways to close it.
\<close>

section \<open>The dialog\<close>

text \<open>
  \<open>run_btn\<close> is the button of \<open>makeActionBtn\<close>; \<open>posts\<close> what was posted, in order; \<open>list_loads\<close> the calls of
  \<open>loadContainers\<close>. The source is \<open>None\<close> for a new container.
\<close>

record run_dialog =
  dlg_open :: bool
  dlg_fields :: run_fields
  dlg_banner :: string
  run_btn :: action_btn
  posts :: "(string \<times> string option \<times> run_body) list"
  dlg_toasts :: "toast list"
  list_loads :: nat
  networks_loaded :: "string list option"
  quick_picks :: "string list"

definition prefill :: "source option \<Rightarrow> template option \<Rightarrow> string \<Rightarrow> run_fields" where
  "prefill src tpl img0 = (let f0 = (case tpl of Some tp \<Rightarrow> template_fields tp | None \<Rightarrow> empty_fields\<lparr>f_image := img0\<rparr>) in
     case src of None \<Rightarrow> f0
     | Some s \<Rightarrow> (clone_fields [] s)\<lparr>f_image := or_str (f_image f0) (src_image s), f_env := f_env f0\<rparr>)"

definition open_dialog :: "source option \<Rightarrow> template option \<Rightarrow> string \<Rightarrow> run_dialog" where
  "open_dialog src tpl img0 = \<lparr>dlg_open = True, dlg_fields = prefill src tpl img0, dlg_banner = [],
     run_btn = make_action_btn ''Run'', posts = [], dlg_toasts = [], list_loads = 0, networks_loaded = None, quick_picks = []\<rparr>"

text \<open>A second modal is refused while one is on the page.\<close>

definition show_run_modal :: "bool \<Rightarrow> source option \<Rightarrow> template option \<Rightarrow> string \<Rightarrow> run_dialog option" where
  "show_run_modal modal_present src tpl img0 = (if modal_present then None else Some (open_dialog src tpl img0))"

definition press_run :: "string \<Rightarrow> btn_event \<Rightarrow> action_btn \<Rightarrow> action_btn" where
  "press_run l e b = btn_step l (Some (''Launching'' @ ellipsis)) b e"

text \<open>
  The click: the button, the checks, and the request. A check that fails throws, which the button reports and
  recovers from at once.
\<close>

definition submit_click :: "source option \<Rightarrow> run_dialog \<Rightarrow> run_dialog" where
  "submit_click src d = (let d1 = d\<lparr>run_btn := press_run ''Run'' Click (run_btn d), dlg_banner := []\<rparr> in
     case submit_run src (dlg_fields d1) of
       Inl (msg, err) \<Rightarrow> d1\<lparr>dlg_banner := msg, run_btn := press_run ''Run'' (Threw err) (run_btn d1)\<rparr>
     | Inr p \<Rightarrow> d1\<lparr>posts := posts d1 @ [p]\<rparr>)"

definition close_dialog :: "run_dialog \<Rightarrow> run_dialog" where
  "close_dialog d = d\<lparr>dlg_open := False, list_loads := Suc (list_loads d)\<rparr>"

datatype dialog_event = EditFields "run_fields \<Rightarrow> run_fields" | PickImage string | NetworksArrive "string list"
  | ImagesArrive "(string list option \<times> string option) list" | RunClick | RunOk bool | RunFailed string | CloseClick

fun dialog_step :: "source option \<Rightarrow> run_dialog \<Rightarrow> dialog_event \<Rightarrow> run_dialog" where
  "dialog_step src d (EditFields f) = (if dlg_open d then d\<lparr>dlg_fields := f (dlg_fields d)\<rparr> else d)"
| "dialog_step src d (PickImage tg) = (if dlg_open d then d\<lparr>dlg_fields := (dlg_fields d)\<lparr>f_image := tg\<rparr>\<rparr> else d)"
| "dialog_step src d (NetworksArrive nets) = (case networks_loaded d of Some x \<Rightarrow> d
     | None \<Rightarrow> d\<lparr>networks_loaded := Some nets, dlg_fields := (case src of None \<Rightarrow> dlg_fields d
         | Some s \<Rightarrow> if clone_network nets s = [] then dlg_fields d else (dlg_fields d)\<lparr>f_network := clone_network nets s\<rparr>)\<rparr>)"
| "dialog_step src d (ImagesArrive imgs) = d\<lparr>quick_picks := quick_tags imgs\<rparr>"
| "dialog_step src d RunClick = (if \<not> dlg_open d \<or> disabled (run_btn d) then d else submit_click src d)"
| "dialog_step src d (RunOk replaced) = (if awaiting (run_btn d) = 0 then d
     else d\<lparr>run_btn := press_run ''Run'' Done (run_btn d), dlg_open := False,
       dlg_toasts := dlg_toasts d @ [(run_toast src replaced, Success)], list_loads := Suc (list_loads d)\<rparr>)"
| "dialog_step src d (RunFailed msg) = (if awaiting (run_btn d) = 0 then d
     else d\<lparr>run_btn := press_run ''Run'' (Threw msg) (run_btn d), dlg_banner := or_str msg ''Run failed''\<rparr>)"
| "dialog_step src d CloseClick = (if dlg_open d then close_dialog d else d)"

lemma submit_click_btn:
  assumes "\<not> disabled (run_btn d)" and "awaiting (run_btn d) = 0"
  shows "awaiting (run_btn (submit_click src d)) = (if disabled (run_btn (submit_click src d)) then 1 else 0)"
  using assms by (simp add: submit_click_def press_run_def btn_restore_def Let_def split: sum.split prod.split)

interpretation run_flight: single_flight "dialog_step src" "\<lambda>d. disabled (run_btn d)" "\<lambda>d. awaiting (run_btn d)" for src
proof (unfold_locales, goal_cases)
  case (1 d e)
  then show ?case
  proof (cases e)
    case RunClick
    with 1 show ?thesis by (auto simp: submit_click_def press_run_def btn_restore_def Let_def split: sum.splits prod.splits)
  qed (auto simp: press_run_def btn_restore_def close_dialog_def split: option.splits)
next
  case (2 d e)
  then show ?case
  proof (cases e)
    case RunClick
    with 2 show ?thesis by (auto simp: submit_click_def press_run_def btn_restore_def Let_def split: sum.splits prod.splits)
  qed (auto simp: press_run_def btn_restore_def close_dialog_def split: option.splits)
qed

section \<open>Properties\<close>

lemma open_dialog_btn: "awaiting (run_btn (open_dialog s0 tpl img0)) = (if disabled (run_btn (open_dialog s0 tpl img0)) then 1 else 0)"
  by (simp add: open_dialog_def make_action_btn_def)

text \<open>What a press of Run asks for, and the requests of a history: one for each press of a live button whose fields pass the checks.\<close>

definition pressed_post :: "source option \<Rightarrow> run_dialog \<Rightarrow> dialog_event \<Rightarrow> (string \<times> string option \<times> run_body) list" where
  "pressed_post src d e = (if e = RunClick \<and> dlg_open d \<and> \<not> disabled (run_btn d)
     then (case submit_run src (dlg_fields d) of Inl _ \<Rightarrow> [] | Inr p \<Rightarrow> [p]) else [])"

fun pressed_posts :: "source option \<Rightarrow> run_dialog \<Rightarrow> dialog_event list \<Rightarrow> (string \<times> string option \<times> run_body) list" where
  "pressed_posts src d [] = []"
| "pressed_posts src d (e # es) = pressed_post src d e @ pressed_posts src (dialog_step src d e) es"

lemma dialog_step_posts: "posts (dialog_step src d e) = posts d @ pressed_post src d e"
  by (cases e) (auto simp: pressed_post_def submit_click_def close_dialog_def Let_def split: option.split sum.split)

lemma dialog_run_posts: "posts (run_events (dialog_step src) d es) = posts d @ pressed_posts src d es"
  by (induction es arbitrary: d) (simp_all add: dialog_step_posts)

lemma run_answered_step:
  assumes "awaiting (run_btn d) = 0" and "e \<noteq> RunClick"
  shows "awaiting (run_btn (dialog_step src d e)) = 0 \<and> dlg_banner (dialog_step src d e) = dlg_banner d \<and>
    disabled (run_btn (dialog_step src d e)) = disabled (run_btn d)"
  using assms by (cases e) (auto simp: close_dialog_def split: option.split)

lemma run_answered_run:
  assumes "awaiting (run_btn d) = 0" and "list_all (\<lambda>e. e \<noteq> RunClick) es"
  shows "dlg_banner (run_events (dialog_step src) d es) = dlg_banner d \<and>
    disabled (run_btn (run_events (dialog_step src) d es)) = disabled (run_btn d)"
  using assms
proof (induction es arbitrary: d)
  case (Cons e es)
  with run_answered_step [of d e src] show ?case by simp
qed simp

text \<open>
  C17: a failed run never loses what was typed. At most one request is ever out, and the requests of a history are
  exactly those its presses of a live Run button ask for, each made of the dialog's fields at that press and only when
  they pass the checks. When the server refuses, the dialog stays as it was with every field, and until the next press
  of Run, whatever is typed, picked or loaded in between, the banner gives the reason and the button works.
\<close>

theorem run_failure_keeps_dialog:
  "let d0 = open_dialog src tpl img0; d = run_events (dialog_step src) d0 es; v = dialog_step src d (RunFailed msg);
       w = run_events (dialog_step src) v later in
     awaiting (run_btn d) \<le> 1 \<and> posts d = pressed_posts src d0 es \<and>
     dlg_fields v = dlg_fields d \<and> dlg_open v = dlg_open d \<and> posts v = posts d \<and>
     (awaiting (run_btn d) = 1 \<and> list_all (\<lambda>e. e \<noteq> RunClick) later \<longrightarrow>
        dlg_banner w = or_str msg ''Run failed'' \<and> \<not> disabled (run_btn w) \<and> posts w = posts d)"
proof -
  let ?start = "open_dialog src tpl img0" and ?d = "run_events (dialog_step src) (open_dialog src tpl img0) es"
  let ?v = "dialog_step src ?d (RunFailed msg)" and ?w = "run_events (dialog_step src) (dialog_step src ?d (RunFailed msg)) later"
  have p: "posts ?d = pressed_posts src ?start es" by (simp add: dialog_run_posts open_dialog_def)
  have v: "dlg_fields ?v = dlg_fields ?d" "dlg_open ?v = dlg_open ?d" "posts ?v = posts ?d" by simp_all
  have "dlg_banner ?w = or_str msg ''Run failed'' \<and> \<not> disabled (run_btn ?w) \<and> posts ?w = posts ?d"
    if "awaiting (run_btn ?d) = 1" and quiet: "list_all (\<lambda>e. e \<noteq> RunClick) later"
  proof -
    have "awaiting (run_btn ?v) = 0" "\<not> disabled (run_btn ?v)" "dlg_banner ?v = or_str msg ''Run failed''"
      using that(1) by (simp_all add: press_run_def btn_restore_def)
    moreover have "pressed_posts src x later = []" for x
      using quiet by (induction later arbitrary: x) (simp_all add: pressed_post_def)
    ultimately show ?thesis
      using run_answered_run [OF _ quiet, of ?v src] v(3) by (simp add: dialog_run_posts)
  qed
  then show ?thesis
    using p v run_flight.run_at_most_one [OF open_dialog_btn, where es = es and src = src] unfolding Let_def by blast
qed

theorem run_failure_keeps_dialog_witness:
  "let d = run_events (dialog_step None) (open_dialog None None ''nginx'') [RunClick]; v = dialog_step None d (RunFailed ''Port in use'');
       w = run_events (dialog_step None) v [EditFields (\<lambda>f. f\<lparr>f_image := ''redis''\<rparr>)] in
     length (posts d) = 1 \<and> dlg_fields v = dlg_fields d \<and> dlg_open v \<and> \<not> disabled (run_btn w) \<and> dlg_banner w = ''Port in use''"
proof -
  let ?d = "run_events (dialog_step None) (open_dialog None None ''nginx'') [RunClick]"
  have "awaiting (run_btn ?d) = 1 \<and> dlg_open ?d \<and> length (posts ?d) = 1"
    by (simp add: open_dialog_def prefill_def submit_click_def submit_run_def press_run_def make_action_btn_def empty_fields_def
        trim_def is_space_def Let_def)
  moreover have "list_all (\<lambda>e. e \<noteq> RunClick) [EditFields (\<lambda>f. f\<lparr>f_image := ''redis''\<rparr>)]" "or_str ''Port in use'' ''Run failed'' = ''Port in use''"
    by (simp_all add: or_str_def)
  ultimately show ?thesis
    using run_failure_keeps_dialog [of None None "''nginx''" "[RunClick]" "''Port in use''" "[EditFields (\<lambda>f. f\<lparr>f_image := ''redis''\<rparr>)]"]
    unfolding Let_def by metis
qed

text \<open>
  Closing the dialog while its request is out does not stop the request: the container is launched, and the list is
  loaded over whatever the user looks at by then.
\<close>

theorem closed_dialog_still_launches:
  assumes "trim img0 = img0" and "img0 \<noteq> []"
  shows "let d = run_events (dialog_step None) (open_dialog None None img0) [RunClick, CloseClick, RunOk False] in
    \<not> dlg_open d \<and> length (posts d) = 1 \<and> dlg_toasts d = [(''Container launched'', Success)] \<and> list_loads d = 2"
  using assms
  by (simp add: open_dialog_def prefill_def submit_click_def submit_run_def press_run_def make_action_btn_def empty_fields_def
      close_dialog_def run_toast_def Let_def)

end
