(* ===== verification/Downloads.thy ===== *)
theory Downloads
  imports FileBrowser SystemPage Compose "HOL-Library.Multiset"
begin

text \<open>
  The ways a file leaves the console: the two log downloads and the download of a file use \<open>fetch\<close> themselves and
  save what comes back through an object URL, \<open>downloadJson\<close> saves what the page already holds, the .env file
  of the setup wizard is saved the same way, and the stack file and the audit log are plain links.
\<close>

section \<open>Requests\<close>

datatype download = LogText string | LogJsonl string | BoxFile string string string

definition is_log :: "download \<Rightarrow> bool" where
  "is_log d = (case d of BoxFile box p n \<Rightarrow> False | _ \<Rightarrow> True)"

definition download_url :: "download \<Rightarrow> string" where
  "download_url d = (case d of
      LogText i \<Rightarrow> ''/api/containers/'' @ i @ ''/logs/download?tail=5000''
    | LogJsonl i \<Rightarrow> ''/api/containers/'' @ i @ ''/logs/download.jsonl?tail=5000''
    | BoxFile box p n \<Rightarrow> file_url box (next_path p n))"

definition saved_name :: "download \<Rightarrow> string" where
  "saved_name d = (case d of LogText i \<Rightarrow> i @ ''-logs.txt'' | LogJsonl i \<Rightarrow> i @ ''-logs.jsonl'' | BoxFile box p n \<Rightarrow> n @ ''.tar'')"

text \<open>The log downloads send the token only when there is one; the file download always sends the header.\<close>

definition log_headers :: "string \<Rightarrow> (string \<times> string) list" where
  "log_headers tok = [(''X-Requested-With'', ''ContainerManager'')] @
     (if tok \<noteq> [] then [(''Authorization'', ''Bearer '' @ tok)] else [])"

definition download_headers :: "string \<Rightarrow> download \<Rightarrow> (string \<times> string) list" where
  "download_headers tok d = (if is_log d then log_headers tok else raw_headers tok)"

text \<open>
  A link that is clicked: the browser follows it with no header of the page's. Address and name of the file.
\<close>

definition stack_file_link :: "string \<Rightarrow> string \<times> string" where
  "stack_file_link n = (stack_url n ''/download'', n @ ''.docker-compose.yml'')"

definition audit_link :: "string \<times> string" where
  "audit_link = (''/api/system/audit-log/download'', ''audit.jsonl'')"

definition link_headers :: "(string \<times> string) list" where
  "link_headers = []"

section \<open>Saving\<close>

text \<open>
  What a fetch comes to: it rejects, or a response arrives with its status and its body can be read or not
  (\<open>Some\<close> the message of the rejection).
\<close>

type_synonym fetched = "string + int \<times> string option"

definition download_error :: "download \<Rightarrow> string \<Rightarrow> toast" where
  "download_error d msg = (if is_log d then ''Download failed: '' @ msg else msg, Error)"

definition refused_message :: "download \<Rightarrow> int \<Rightarrow> string" where
  "refused_message d st = (if is_log d then ''HTTP '' @ show_int st else ''Download failed: '' @ show_int st)"

definition outcome_of :: "download \<Rightarrow> fetched \<Rightarrow> toast option" where
  "outcome_of d ans = (case ans of
      Inl msg \<Rightarrow> Some (download_error d msg)
    | Inr (st, unread) \<Rightarrow> if \<not> (200 \<le> st \<and> st \<le> 299) then Some (download_error d (refused_message d st))
        else map_option (download_error d) unread)"

text \<open>
  Object URLs are numbered by \<open>made\<close>. \<open>live\<close> are those not yet revoked, each with the time its revocation is due (\<open>None\<close>: none is
  scheduled), \<open>revoked\<close> the others, in order. The log downloads revoke theirs at once, the .env file never does.
\<close>

record downloads =
  clock :: int
  requested :: "download list"
  made :: nat
  live :: "(nat \<times> int option) list"
  revoked :: "nat list"
  saved :: "string list"
  reports :: "toast list"

definition downloads_init :: downloads where
  "downloads_init = \<lparr>clock = 0, requested = [], made = 0, live = [], revoked = [], saved = [], reports = []\<rparr>"

datatype release = AtOnce | After int | Never

definition save_blob :: "string \<Rightarrow> release \<Rightarrow> downloads \<Rightarrow> downloads" where
  "save_blob n rel s = s\<lparr>made := Suc (made s), saved := saved s @ [n],
     live := live s @ (case rel of AtOnce \<Rightarrow> [] | After ms \<Rightarrow> [(made s, Some (clock s + ms))] | Never \<Rightarrow> [(made s, None)]),
     revoked := revoked s @ (case rel of AtOnce \<Rightarrow> [made s] | _ \<Rightarrow> [])\<rparr>"

definition download_json :: "string \<Rightarrow> downloads \<Rightarrow> downloads" where
  "download_json filename s = save_blob filename (After 500) s"

text \<open>The file the wizard saves before it sends its request.\<close>

definition save_env_file :: "downloads \<Rightarrow> downloads" where
  "save_env_file s = save_blob ''.env'' Never s"

definition finish :: "download \<Rightarrow> fetched \<Rightarrow> downloads \<Rightarrow> downloads" where
  "finish d ans s = (case outcome_of d ans of
      Some msg \<Rightarrow> s\<lparr>reports := reports s @ [msg]\<rparr>
    | None \<Rightarrow> if is_log d then save_blob (saved_name d) AtOnce s
        else (save_blob (saved_name d) (After 500) s)\<lparr>reports := reports s @
          [(''Downloaded '' @ (case d of BoxFile box p n \<Rightarrow> n | _ \<Rightarrow> []), Success)]\<rparr>)"

datatype download_event = PressDownload download | PressJson string | SaveEnv | Fetched nat fetched | Wait nat

fun download_step :: "downloads \<Rightarrow> download_event \<Rightarrow> downloads" where
  "download_step s (PressDownload d) = s\<lparr>requested := requested s @ [d]\<rparr>"
| "download_step s (PressJson n) = download_json n s"
| "download_step s (Fetched i ans) = (if i < length (requested s)
     then finish (requested s ! i) ans (s\<lparr>requested := without i (requested s)\<rparr>) else s)"
| "download_step s SaveEnv = save_env_file s"
| "download_step s (Wait ms) = (let later = clock s + int ms; due = (\<lambda>u. snd u \<noteq> None \<and> the (snd u) \<le> later) in
     s\<lparr>clock := later, live := filter (\<lambda>u. \<not> due u) (live s), revoked := revoked s @ map fst (filter due (live s))\<rparr>)"

section \<open>Properties\<close>

definition pressed :: "download_event \<Rightarrow> bool" where
  "pressed e = (case e of PressDownload d \<Rightarrow> True | PressJson n \<Rightarrow> True | SaveEnv \<Rightarrow> True | _ \<Rightarrow> False)"

definition failures :: "downloads \<Rightarrow> toast list" where
  "failures s = filter (\<lambda>m. snd m = Error) (reports s)"

lemma length_without: "i < length xs \<Longrightarrow> length (without i xs) = length xs - 1"
  by (simp add: without_def)

lemma outcome_error: "outcome_of d ans = Some m \<Longrightarrow> snd m = Error"
  by (auto simp: outcome_of_def download_error_def split: sum.splits prod.splits if_splits option.splits)

lemma finish_counts: "length (saved (finish d ans s)) + length (failures (finish d ans s)) = Suc (length (saved s) + length (failures s))"
  by (auto simp: finish_def save_blob_def failures_def dest: outcome_error split: option.split)

lemma finish_requested [simp]: "requested (finish d ans s) = requested s"
  by (simp add: finish_def save_blob_def split: option.split)

definition tally :: "downloads \<Rightarrow> nat" where
  "tally s = length (saved s) + length (failures s) + length (requested s)"

lemma tally_step: "tally (download_step s e) = tally s + (if pressed e then 1 else 0)"
proof (cases e)
  case (Fetched i ans)
  then show ?thesis
    using finish_counts [of "requested s ! i" ans "s\<lparr>requested := without i (requested s)\<rparr>"] length_without [of i "requested s"]
    by (auto simp: tally_def pressed_def failures_def)
qed (simp_all add: tally_def pressed_def failures_def download_json_def save_env_file_def save_blob_def Let_def)

lemma tally_run: "tally (run_events download_step s es) = tally s + length (filter pressed es)"
  by (induction es arbitrary: s) (simp_all add: tally_step)

text \<open>Every URL made is revoked once or still live, due within half a second or never.\<close>

definition urls_of :: "downloads \<Rightarrow> nat list" where
  "urls_of s = revoked s @ map fst (live s)"

definition due_soon :: "downloads \<Rightarrow> bool" where
  "due_soon s = list_all (\<lambda>u. snd u = None \<or> the (snd u) \<le> clock s + 500) (live s)"

definition kept_urls :: "downloads \<Rightarrow> nat" where
  "kept_urls s = length (filter (\<lambda>u. snd u = None) (live s))"

definition downloads_inv :: "nat \<Rightarrow> downloads \<Rightarrow> bool" where
  "downloads_inv k s \<longleftrightarrow> mset (urls_of s) = mset [0..<made s] \<and> due_soon s \<and> kept_urls s = k"

lemma downloads_inv_frame [simp]: "downloads_inv k (s\<lparr>reports := r\<rparr>) = downloads_inv k s" "downloads_inv k (s\<lparr>requested := q\<rparr>) = downloads_inv k s"
  by (simp_all add: downloads_inv_def urls_of_def due_soon_def kept_urls_def)

lemma save_blob_inv: "downloads_inv k s \<Longrightarrow> (case rel of After ms \<Rightarrow> ms \<le> 500 | _ \<Rightarrow> True) \<Longrightarrow>
    downloads_inv (if rel = Never then Suc k else k) (save_blob n rel s)"
  by (cases rel) (simp_all add: downloads_inv_def urls_of_def due_soon_def kept_urls_def save_blob_def)

lemma finish_inv: "downloads_inv k s \<Longrightarrow> downloads_inv k (finish d ans s)"
  using save_blob_inv [of k s AtOnce] save_blob_inv [of k s "After 500"] by (simp add: finish_def split: option.split)

lemma mset_map_split: "mset (map f (filter P xs)) + mset (map f (filter (\<lambda>u. \<not> P u) xs)) = mset (map f xs)"
  by (induction xs) simp_all

lemma wait_inv: "downloads_inv k s \<Longrightarrow> downloads_inv k (download_step s (Wait ms))"
proof -
  assume inv: "downloads_inv k s"
  let ?due = "\<lambda>u :: nat \<times> int option. snd u \<noteq> None \<and> the (snd u) \<le> clock s + int ms"
  have "mset (map fst (filter ?due (live s))) + mset (map fst (filter (\<lambda>u. \<not> ?due u) (live s))) = mset (map fst (live s))"
    by (rule mset_map_split)
  then have "mset (urls_of (download_step s (Wait ms))) = mset (urls_of s)" by (simp add: urls_of_def Let_def add.assoc)
  moreover have "due_soon (download_step s (Wait ms))"
    using inv by (auto simp: downloads_inv_def due_soon_def list_all_iff Let_def)
  moreover have "filter (\<lambda>u. snd u = None) (filter (\<lambda>u. \<not> ?due u) (live s)) = filter (\<lambda>u. snd u = None) (live s)"
    by (simp add: conj_commute cong: conj_cong)
  ultimately show ?thesis using inv by (simp add: downloads_inv_def kept_urls_def Let_def)
qed

lemma downloads_inv_step: "downloads_inv k s \<Longrightarrow> downloads_inv (if e = SaveEnv then Suc k else k) (download_step s e)"
proof (cases e)
  case (Wait ms)
  assume "downloads_inv k s"
  with Wait wait_inv show ?thesis by (simp del: download_step.simps)
qed (use save_blob_inv [of k s "After 500"] save_blob_inv [of k s Never] in
    \<open>auto simp: download_json_def save_env_file_def finish_inv\<close>)

lemma downloads_inv_run: "downloads_inv k s \<Longrightarrow>
    downloads_inv (k + length (filter (\<lambda>e. e = SaveEnv) es)) (run_events download_step s es)"
proof (induction es arbitrary: k s)
  case (Cons e es)
  from Cons.IH [OF downloads_inv_step [OF Cons.prems, of e]] show ?case by (cases "e = SaveEnv") simp_all
qed simp

lemma made_step: "made s = length (saved s) \<Longrightarrow> made (download_step s e) = length (saved (download_step s e))"
  by (cases e) (simp_all add: download_json_def save_env_file_def finish_def save_blob_def Let_def split: option.split)

lemma made_run: "made s = length (saved s) \<Longrightarrow> made (run_events download_step s es) = length (saved (run_events download_step s es))"
  by (rule run_events_invariant [where P = "\<lambda>s. made s = length (saved s)"]) (auto intro: made_step)

lemma rested: "due_soon s \<Longrightarrow> list_all (\<lambda>u. snd u = None) (live (download_step s (Wait 500)))"
  by (auto simp: due_soon_def list_all_iff Let_def)

text \<open>
  C37: every download ends in exactly one way, and leaks nothing but the wizard's. Whatever is pressed and however the
  requests are answered, each press so far is still out, or has saved one file, or has put up one error. One object URL is
  made for each file saved, and none is ever revoked twice; half a second of rest later the URLs that are left are
  exactly those of the .env files the setup wizard saved, which it never revokes.
\<close>

theorem downloads_settle_and_release:
  "let s = run_events download_step downloads_init es; r = download_step s (Wait 500) in
     length (saved s) + length (failures s) + length (requested s) = length (filter pressed es) \<and>
     distinct (revoked r @ map fst (live r)) \<and> set (revoked r @ map fst (live r)) = {0..<length (saved s)} \<and>
     length (live r) = length (filter (\<lambda>e. e = SaveEnv) es)"
proof -
  let ?s = "run_events download_step downloads_init es" and ?r = "download_step (run_events download_step downloads_init es) (Wait 500)"
  have "downloads_inv 0 downloads_init"
    by (simp add: downloads_inv_def downloads_init_def urls_of_def due_soon_def kept_urls_def)
  from downloads_inv_run [OF this, of es] have inv: "downloads_inv (length (filter (\<lambda>e. e = SaveEnv) es)) ?s" by simp
  from wait_inv [OF inv] have inv2: "downloads_inv (length (filter (\<lambda>e. e = SaveEnv) es)) ?r" .
  have m: "made ?r = length (saved ?s)" using made_run [of downloads_init es] by (simp add: downloads_init_def Let_def)
  have urls: "mset (revoked ?r @ map fst (live ?r)) = mset [0..<length (saved ?s)]"
    using inv2 unfolding downloads_inv_def urls_of_def m by blast
  have "distinct (revoked ?r @ map fst (live ?r))" using mset_eq_imp_distinct_iff [OF urls] by simp
  moreover have "set (revoked ?r @ map fst (live ?r)) = {0..<length (saved ?s)}" using mset_eq_setD [OF urls] by simp
  moreover have "filter (\<lambda>u. snd u = None) (live ?r) = live ?r"
    using rested [of ?s] inv by (simp add: downloads_inv_def list_all_iff filter_id_conv del: download_step.simps)
  then have "length (live ?r) = length (filter (\<lambda>e. e = SaveEnv) es)" using inv2 by (simp add: downloads_inv_def kept_urls_def del: download_step.simps)
  moreover have "length (saved ?s) + length (failures ?s) + length (requested ?s) = length (filter pressed es)"
    using tally_run [of downloads_init es] by (simp add: tally_def failures_def downloads_init_def)
  ultimately show ?thesis unfolding Let_def by blast
qed

text \<open>
  The server asks for the token in the header (\<open>verify_auth\<close> of auth.py): a token that is set must be presented.
  The fetches present it; the links cannot, so that they are refused whenever a token is required.
\<close>

definition presents :: "string \<Rightarrow> (string \<times> string) list \<Rightarrow> bool" where
  "presents tok hs = (map_of hs ''Authorization'' = Some (''Bearer '' @ tok))"

theorem links_carry_no_token:
  assumes "tok \<noteq> []"
  shows "presents tok (download_headers tok d) \<and> \<not> presents tok link_headers"
  using assms by (simp add: presents_def download_headers_def log_headers_def raw_headers_def link_headers_def)

end
