(* ===== verification/ShortcutsHelp.thy ===== *)
theory ShortcutsHelp
  imports Palette ThemeTour
begin

text \<open>
  The help overlay of core/palette.js (the key \<open>?\<close>) beside the first-run tour it can start again: what it says about
  the keys, and what a click, the replay button and Escape do to both.
\<close>

section \<open>The text\<close>

definition dash :: string where
  "dash = [CHR '' '', CHR 0xE2, CHR 0x80, CHR 0x93, CHR '' '']"

definition help_rows :: "bool \<Rightarrow> (string \<times> string) list" where
  "help_rows mac =
     [(format_shortcut mac, ''Command palette '' @ em_dash @ '' jump to any page or container''),
      (''?'', ''This shortcut help''),
      (''1'' @ dash @ ''9'', ''Jump to sidebar section (Dashboard, Containers, Images, Templates, Volumes, Networks, Compose, System, Settings)''),
      (''0'', ''Open API docs (Swagger UI) in a new tab''),
      (''r'', ''Open Run-container modal (on the Containers page)''),
      (''/'', ''Focus the nearest search / filter input''),
      (''Esc'', ''Close modal / palette / overlay''),
      (''Tab'', ''Next interactive element (visible focus ring)''),
      ([CHR 0xE2, CHR 0x86, CHR 0x91] @ '' / '' @ [CHR 0xE2, CHR 0x86, CHR 0x93], ''Move within a palette or list''),
      (''Enter'', ''Submit modal form or run selected palette item'')]"

text \<open>The hint in the sidebar, when the page has one: the server renders \<open>Ctrl+K\<close>, the start-up code the key that works.\<close>

definition paint_sidebar_hint :: "bool \<Rightarrow> string option \<Rightarrow> string option" where
  "paint_sidebar_hint mac kbd = map_option (\<lambda>old. format_shortcut mac) kbd"

lemma hint_opens_palette: "paint_sidebar_hint mac (Some old) = Some (fst (hd (help_rows mac)))"
  by (simp add: paint_sidebar_hint_def help_rows_def)

section \<open>The overlays\<close>

text \<open>
  \<open>help_on\<close>: the help overlays on the page, numbered as they are made; \<open>help_esc\<close>: those whose Escape listener is
  attached to the document; \<open>walk\<close>: the tour.
\<close>

record desk =
  help_on :: "nat list"
  help_made :: nat
  help_esc :: "nat list"
  walk :: tour

definition desk_init :: "bool \<Rightarrow> desk" where
  "desk_init done_before = \<lparr>help_on = [], help_made = 0, help_esc = [], walk = tour_init done_before\<rparr>"

definition open_help :: "desk \<Rightarrow> desk" where
  "open_help d = (if help_on d \<noteq> [] then d
     else d\<lparr>help_on := [help_made d], help_made := Suc (help_made d), help_esc := help_esc d @ [help_made d]\<rparr>)"

text \<open>A click beside the box and the replay button remove the overlay; neither detaches its listener.\<close>

definition remove_help :: "nat \<Rightarrow> desk \<Rightarrow> desk" where
  "remove_help i d = d\<lparr>help_on := removeAll i (help_on d)\<rparr>"

definition replay_from_help :: "bool \<Rightarrow> bool \<Rightarrow> nat \<Rightarrow> desk \<Rightarrow> desk" where
  "replay_from_help ok tour_loaded i d = (let d1 = remove_help i d in
     if tour_loaded then d1\<lparr>walk := tour_step ok (walk d1) Replay\<rparr> else d1)"

text \<open>\<open>_handleEsc\<close> of one overlay.\<close>

definition handle_esc :: "nat \<Rightarrow> desk \<Rightarrow> desk" where
  "handle_esc i d = remove_help i (d\<lparr>help_esc := removeAll i (help_esc d)\<rparr>)"

datatype desk_event = QuestionKey | HelpBackdrop | HelpReplay bool | DeskEscape | TourNext | TourSkip | SidebarReady bool

fun desk_step :: "bool \<Rightarrow> desk \<Rightarrow> desk_event \<Rightarrow> desk" where
  "desk_step ok d QuestionKey = open_help d"
| "desk_step ok d HelpBackdrop = (case help_on d of i # is \<Rightarrow> remove_help i d | [] \<Rightarrow> d)"
| "desk_step ok d (HelpReplay loaded) = (case help_on d of i # is \<Rightarrow> replay_from_help ok loaded i d | [] \<Rightarrow> d)"
| "desk_step ok d DeskEscape = (let d1 = fold handle_esc (help_esc d) d in d1\<lparr>walk := tour_step ok (walk d1) EscKey\<rparr>)"
| "desk_step ok d TourNext = d\<lparr>walk := tour_step ok (walk d) NextStep\<rparr>"
| "desk_step ok d TourSkip = d\<lparr>walk := tour_step ok (walk d) SkipTour\<rparr>"
| "desk_step ok d (SidebarReady b) = d\<lparr>walk := tour_step ok (walk d) (SidebarSeen b)\<rparr>"

section \<open>Lemmas\<close>

definition desk_inv :: "desk \<Rightarrow> bool" where
  "desk_inv d = (length (help_on d) \<le> 1 \<and> set (help_on d) \<subseteq> set (help_esc d) \<and> tour_inv (walk d))"

lemma fold_handle_esc:
  "help_on (fold handle_esc is d) = filter (\<lambda>i. i \<notin> set is) (help_on d) \<and>
   help_esc (fold handle_esc is d) = filter (\<lambda>i. i \<notin> set is) (help_esc d) \<and> walk (fold handle_esc is d) = walk d"
proof (induction "is" arbitrary: d)
  case (Cons i js)
  have "filter (\<lambda>k. k \<notin> set js) (removeAll i xs) = filter (\<lambda>k. k \<notin> set (i # js)) xs" for xs :: "nat list"
    by (induction xs) auto
  with Cons show ?case by (simp add: handle_esc_def remove_help_def)
qed simp

lemma escape_all:
  "help_on (desk_step ok d DeskEscape) = filter (\<lambda>i. i \<notin> set (help_esc d)) (help_on d) \<and>
   help_esc (desk_step ok d DeskEscape) = [] \<and> walk (desk_step ok d DeskEscape) = tour_step ok (walk d) EscKey"
  by (simp add: Let_def fold_handle_esc)

lemma desk_inv_step: "desk_inv d \<Longrightarrow> desk_inv (desk_step ok d e)"
proof (cases e)
  case DeskEscape
  assume "desk_inv d"
  moreover from this have "filter (\<lambda>i. i \<notin> set (help_esc d)) (help_on d) = []" by (auto simp: desk_inv_def filter_empty_conv)
  moreover from \<open>desk_inv d\<close> have "tour_inv (tour_step ok (walk d) EscKey)" unfolding desk_inv_def by (blast intro: tour_step_inv)
  ultimately show ?thesis unfolding DeskEscape desk_inv_def using escape_all [of ok d] by (simp del: desk_step.simps tour_step.simps)
next
  case HelpBackdrop
  assume "desk_inv d"
  with HelpBackdrop show ?thesis by (cases "help_on d") (auto simp: desk_inv_def remove_help_def)
next
  case (HelpReplay loaded)
  assume "desk_inv d"
  with HelpReplay show ?thesis
    by (cases "help_on d") (auto simp: desk_inv_def remove_help_def replay_from_help_def Let_def tour_render_inv)
qed (auto simp: desk_inv_def open_help_def intro: tour_step_inv simp del: tour_step.simps)

lemma desk_inv_run: "desk_inv (run_events (desk_step ok) (desk_init b) es)"
proof (rule run_events_invariant [where P = desk_inv])
  show "desk_inv (desk_init b)" by (simp add: desk_inv_def desk_init_def tour_inv_def tour_init_def)
qed (rule desk_inv_step)

section \<open>Properties\<close>

text \<open>
  Escape closes what is open. Whatever was opened, dismissed and replayed before, at most one help overlay is on
  the page, and the key removes it and the tour and leaves no listener of either behind.
\<close>

theorem escape_clears_desk:
  "let d = run_events (desk_step ok) (desk_init b) es; v = desk_step ok d DeskEscape in
     length (help_on d) \<le> 1 \<and> help_on v = [] \<and> help_esc v = [] \<and>
     overlay (walk v) = None \<and> esc_listeners (walk v) = []"
proof -
  let ?d = "run_events (desk_step ok) (desk_init b) es"
  have inv: "desk_inv ?d" by (rule desk_inv_run)
  then have "overlay (tour_step ok (walk ?d) EscKey) = None" "esc_listeners (tour_step ok (walk ?d) EscKey) = []"
    by (auto simp: desk_inv_def tour_inv_def esc_fold split: option.splits)
  moreover have "filter (\<lambda>i. i \<notin> set (help_esc ?d)) (help_on ?d) = []" using inv by (auto simp: desk_inv_def filter_empty_conv)
  ultimately show ?thesis using inv escape_all [of ok ?d] by (simp add: Let_def desk_inv_def del: desk_step.simps)
qed

text \<open>The replay button swaps the help for the first step of the tour, wherever the tour was.\<close>

theorem replay_starts_over:
  assumes "help_on d = [i]"
  shows "let v = desk_step ok d (HelpReplay True) in
    help_on v = [] \<and> map_option snd (overlay (walk v)) = Some 0 \<and> help_esc v = help_esc d"
  using assms by (simp add: replay_from_help_def remove_help_def tour_render_def tour_steps_def Let_def)

text \<open>Dismissing the help in any way but Escape leaves its listener on the document, once for every time.\<close>

lemma help_listener_leaks:
  "help_on (run_events (desk_step ok) (desk_init b) (concat (replicate n [QuestionKey, HelpBackdrop]))) = [] \<and>
   length (help_esc (run_events (desk_step ok) (desk_init b) (concat (replicate n [QuestionKey, HelpBackdrop])))) = n"
proof -
  have "help_on d = [] \<Longrightarrow> help_on (run_events (desk_step ok) d (concat (replicate n [QuestionKey, HelpBackdrop]))) = [] \<and>
      length (help_esc (run_events (desk_step ok) d (concat (replicate n [QuestionKey, HelpBackdrop])))) = length (help_esc d) + n" for d
    by (induction n arbitrary: d) (simp_all add: open_help_def remove_help_def)
  from this [of "desk_init b"] show ?thesis by (simp add: desk_init_def)
qed

text \<open>What the help says of the digits is what they do: the sections it lists are the pages of the keys, in order.\<close>

definition capitalised :: "string \<Rightarrow> string" where
  "capitalised s = (case s of [] \<Rightarrow> [] | c # cs \<Rightarrow> (if 97 \<le> (of_char c :: nat) \<and> (of_char c :: nat) \<le> 122 then char_of (of_char c - 32 :: nat) else c) # cs)"

theorem help_names_digit_pages:
  "snd (help_rows True ! 2) = snd (help_rows False ! 2) \<and> snd (help_rows False ! 2) = ''Jump to sidebar section ('' @
     join '', '' (map (\<lambda>i. capitalised (the (digit_page (show_nat (Suc i))))) [0..<9]) @ '')''"
  by code_simp

end
