(* ===== verification/StyleObserver.thy ===== *)
theory StyleObserver
  imports CspStyle
begin

text \<open>
  The observer of ui.js that routes style attributes to the stylesheet: the sweep at the start, the records the
  browser queues for what is added or given a style attribute below the body, and the callback that migrates them.
\<close>

section \<open>The document\<close>

text \<open>
  An empty style attribute, which the migrator leaves in place, counts as none.
  \<open>body\<close> is the tree of \<open>document.body\<close>, \<open>removed\<close> the subtrees a script took out of it, \<open>records\<close> what is queued for
  the next run of the callback, by the identity of the node. \<open>observing\<close>: \<open>_startStyleObserver\<close> has found the body.
\<close>

datatype record_of = Added nat | StyleChanged nat

record document =
  body :: styled
  removed :: "styled list"
  records :: "record_of list"
  observing :: bool
  css_rules :: styles

fun ids :: "styled \<Rightarrow> nat list" where
  "ids Other = []"
| "ids (Styled n a ts) = n # concat (map ids ts)"

text \<open>The elements that have a style attribute, in document order.\<close>

fun styled_ids :: "styled \<Rightarrow> nat list" where
  "styled_ids Other = []"
| "styled_ids (Styled n a ts) = (if a \<noteq> [] then [n] else []) @ concat (map styled_ids ts)"

text \<open>Appending a subtree to an element, setting its style attribute, and taking subtrees out.\<close>

fun append_under :: "nat \<Rightarrow> styled \<Rightarrow> styled \<Rightarrow> styled" where
  "append_under p u Other = Other"
| "append_under p u (Styled n a ts) = Styled n a (map (append_under p u) ts @ (if n = p then [u] else []))"

fun set_attr :: "nat \<Rightarrow> string \<Rightarrow> styled \<Rightarrow> styled" where
  "set_attr p v Other = Other"
| "set_attr p v (Styled n a ts) = Styled n (if n = p then v else a) (map (set_attr p v) ts)"

fun root_is :: "nat \<Rightarrow> styled \<Rightarrow> bool" where
  "root_is p Other = False"
| "root_is p (Styled n a ts) = (n = p)"

fun take_out :: "nat \<Rightarrow> styled \<Rightarrow> styled" where
  "take_out p Other = Other"
| "take_out p (Styled n a ts) = Styled n a (map (take_out p) (filter (\<lambda>t. \<not> root_is p t) ts))"

fun subtrees_at :: "nat \<Rightarrow> styled \<Rightarrow> styled list" where
  "subtrees_at p Other = []"
| "subtrees_at p (Styled n a ts) = (if n = p then [Styled n a ts] else concat (map (subtrees_at p) ts))"

section \<open>The observer\<close>

text \<open>\<open>_migrateInlineStyle\<close> on the node a record names, with the subtree below it.\<close>

fun migrate_at :: "browser \<Rightarrow> sheet_info list \<Rightarrow> nat \<Rightarrow> styled \<Rightarrow> styles \<Rightarrow> styled \<times> styles"
  and migrate_in :: "browser \<Rightarrow> sheet_info list \<Rightarrow> nat \<Rightarrow> styled list \<Rightarrow> styles \<Rightarrow> styled list \<times> styles"
where
  "migrate_at b ds p Other st = (Other, st)"
| "migrate_at b ds p (Styled n a ts) st = (if n = p then migrate b ds (Styled n a ts) st
     else let (us, st1) = migrate_in b ds p ts st in (Styled n a us, st1))"
| "migrate_in b ds p [] st = ([], st)"
| "migrate_in b ds p (t # ts) st = (let (u, st1) = migrate_at b ds p t st; (us, st2) = migrate_in b ds p ts st1 in (u # us, st2))"

definition node_of :: "record_of \<Rightarrow> nat" where
  "node_of r = (case r of Added n \<Rightarrow> n | StyleChanged n \<Rightarrow> n)"

text \<open>
  The callback takes the records queued so far. The attributes it removes are changes too, which the browser
  queues for its next run.
\<close>

definition handle_record :: "browser \<Rightarrow> sheet_info list \<Rightarrow> record_of \<Rightarrow> document \<Rightarrow> document" where
  "handle_record b ds r d = (let (t, st) = migrate_at b ds (node_of r) (body d) (css_rules d);
       (us, st2) = migrate_in b ds (node_of r) (removed d) st in
     d\<lparr>body := t, removed := us, css_rules := st2,
       records := records d @ map StyleChanged (filter (\<lambda>n. n \<notin> set (styled_ids t)) (styled_ids (body d)))\<rparr>)"

definition deliver :: "browser \<Rightarrow> sheet_info list \<Rightarrow> document \<Rightarrow> document" where
  "deliver b ds d = fold (handle_record b ds) (records d) (d\<lparr>records := []\<rparr>)"

text \<open>\<open>_startStyleObserver\<close>: without a body it waits for \<open>DOMContentLoaded\<close>; else it sweeps the body and observes.\<close>

definition start_observer :: "browser \<Rightarrow> sheet_info list \<Rightarrow> bool \<Rightarrow> document \<Rightarrow> document" where
  "start_observer b ds has_body d = (if \<not> has_body then d
     else let (t, st) = migrate b ds (body d) (css_rules d) in d\<lparr>body := t, css_rules := st, observing := True\<rparr>)"

text \<open>
  What scripts do: a new subtree or one taken out before is appended to an element, an element is taken out, a
  style attribute or a style is set; and the browser delivers the records. Changes of the body are recorded once
  it is observed.
\<close>

datatype doc_event = AppendNew nat styled | AppendAgain nat nat | TakeOut nat | SetStyleAttr nat string
  | CallSetStyle nat style_arg | DeliverRecords

definition add_records :: "record_of list \<Rightarrow> document \<Rightarrow> document" where
  "add_records rs d = (if observing d then d\<lparr>records := records d @ rs\<rparr> else d)"

definition root_ids :: "styled \<Rightarrow> nat list" where
  "root_ids u = (case u of Other \<Rightarrow> [] | Styled n a ts \<Rightarrow> [n])"

definition append_to :: "nat \<Rightarrow> styled \<Rightarrow> document \<Rightarrow> document" where
  "append_to p u d = add_records (map Added (root_ids u)) (d\<lparr>body := append_under p u (body d)\<rparr>)"

definition all_ids :: "document \<Rightarrow> nat list" where
  "all_ids d = ids (body d) @ concat (map ids (removed d))"

fun doc_step :: "browser \<Rightarrow> sheet_info list \<Rightarrow> document \<Rightarrow> doc_event \<Rightarrow> document" where
  "doc_step b ds d (AppendNew p u) = (if p \<in> set (ids (body d)) \<and> list_all (\<lambda>n. n \<notin> set (all_ids d)) (ids u)
     then append_to p u d else d)"
| "doc_step b ds d (AppendAgain p i) = (if p \<in> set (ids (body d)) \<and> i < length (removed d)
     then append_to p (removed d ! i) (d\<lparr>removed := take i (removed d) @ drop (Suc i) (removed d)\<rparr>) else d)"
| "doc_step b ds d (TakeOut p) = (if root_is p (body d) then d
     else d\<lparr>body := take_out p (body d), removed := removed d @ subtrees_at p (body d)\<rparr>)"
| "doc_step b ds d (SetStyleAttr p v) = (if p \<in> set (ids (body d))
     then add_records [StyleChanged p] (d\<lparr>body := set_attr p v (body d)\<rparr>) else d)"
| "doc_step b ds d (CallSetStyle p arg) = d\<lparr>css_rules := set_style b ds p arg (css_rules d)\<rparr>"
| "doc_step b ds d DeliverRecords = deliver b ds d"

section \<open>Lemmas\<close>

text \<open>An attribute is covered when it stands at or below a node that a record names.\<close>

fun covered :: "nat set \<Rightarrow> styled \<Rightarrow> bool" where
  "covered R Other = True"
| "covered R (Styled n a ts) = (n \<in> R \<or> a = [] \<and> list_all (covered R) ts)"

lemma covered_mono: "covered R t \<Longrightarrow> R \<subseteq> S \<Longrightarrow> covered S t"
  by (induction t) (auto simp: list_all_iff)

lemma covered_none: "covered {} t = no_inline t"
  by (induction t) (auto simp: list_all_iff)

lemma no_inline_covered: "no_inline t \<Longrightarrow> covered R t"
  by (induction t) (auto simp: list_all_iff)

lemma styled_ids_none: "no_inline t \<Longrightarrow> styled_ids t = []"
  by (induction t) (auto simp: list_all_iff)

lemma covered_append: "covered R t \<Longrightarrow> covered R u \<Longrightarrow> covered R (append_under p u t)"
  by (induction t) (auto simp: list_all_iff)

lemma covered_root: "set (root_ids u) \<subseteq> R \<Longrightarrow> covered R u"
  by (cases u) (simp_all add: root_ids_def)

lemma covered_set_attr: "covered R t \<Longrightarrow> covered (insert p R) (set_attr p v t)"
  by (induction t) (auto simp: list_all_iff)

lemma covered_take_out: "covered R t \<Longrightarrow> covered R (take_out p t)"
  by (induction t) (auto simp: list_all_iff)

lemma migrate_no_inline: "no_inline (fst (migrate b ds t st))"
  using migrate_calls(1) by blast

text \<open>Handling the record of a node takes the node out of the cover that is needed.\<close>

lemma migrate_at_covered:
  "covered R t \<Longrightarrow> covered (R - {p}) (fst (migrate_at b ds p t st))"
  "list_all (covered R) ts \<Longrightarrow> list_all (covered (R - {p})) (fst (migrate_in b ds p ts st))"
proof (induction b ds p t st and b ds p ts st rule: migrate_at_migrate_in.induct)
  case (2 b ds p n a ts st)
  show ?case
  proof (cases "n = p")
    case True
    have "migrate_at b ds p (Styled n a ts) st = migrate b ds (Styled n a ts) st" using True by (simp only: migrate_at.simps if_True simp_thms)
    then show ?thesis using no_inline_covered [OF migrate_no_inline] by metis
  next
    case False
    with 2 show ?thesis by (auto simp: split_def Let_def)
  qed
next
  case (4 b ds p t ts st)
  then show ?case by (auto split: prod.splits)
qed auto

lemma handle_covered: "covered R (body d) \<Longrightarrow> covered (R - {node_of r}) (body (handle_record b ds r d))"
  using migrate_at_covered(1) [of R "body d" "node_of r" b ds "css_rules d"] by (simp add: handle_record_def Let_def split_def)

lemma handle_all_covered: "covered R (body d) \<Longrightarrow> covered (R - node_of ` set rs) (body (fold (handle_record b ds) rs d))"
proof (induction rs arbitrary: R d)
  case (Cons r rs)
  have "R - node_of ` set (r # rs) = R - {node_of r} - node_of ` set rs" by auto
  with Cons.IH [OF handle_covered [OF Cons.prems]] show ?case by simp
qed simp

text \<open>The invariant of the observer: what it has not migrated yet is recorded.\<close>

definition recorded :: "document \<Rightarrow> bool" where
  "recorded d = (observing d \<and> covered (node_of ` set (records d)) (body d))"

lemma deliver_clean: "recorded d \<Longrightarrow> no_inline (body (deliver b ds d))"
  using handle_all_covered [of "node_of ` set (records d)" "d\<lparr>records := []\<rparr>" "records d" b ds]
  by (simp add: deliver_def recorded_def covered_none)

lemma handle_observing [simp]: "observing (handle_record b ds r d) = observing d"
  by (simp add: handle_record_def Let_def split_def)

lemma fold_observing [simp]: "observing (fold (handle_record b ds) rs d) = observing d"
  by (induction rs arbitrary: d) simp_all

lemma append_to_recorded:
  assumes "recorded d"
  shows "recorded (append_to p u d)"
proof -
  let ?R = "node_of ` set (records d @ map Added (root_ids u))"
  have "covered ?R (body d)" using assms by (auto simp: recorded_def intro: covered_mono)
  moreover have "node_of ` Added ` A = A" for A by (force simp: node_of_def image_iff)
  then have "covered ?R u" by (intro covered_root) (simp add: image_Un)
  ultimately show ?thesis using assms covered_append [of ?R "body d" u p]
    by (simp add: recorded_def append_to_def add_records_def)
qed

lemma recorded_step: "recorded d \<Longrightarrow> recorded (doc_step b ds d e)"
proof (cases e)
  case (AppendNew p u)
  assume "recorded d"
  with AppendNew show ?thesis by (simp add: append_to_recorded)
next
  case (AppendAgain p i)
  assume "recorded d"
  then have "recorded (d\<lparr>removed := x\<rparr>)" for x by (simp add: recorded_def)
  with AppendAgain \<open>recorded d\<close> show ?thesis by (simp add: append_to_recorded)
next
  case (SetStyleAttr p v)
  assume "recorded d"
  then have "covered (insert p (node_of ` set (records d))) (set_attr p v (body d))"
    by (simp add: recorded_def covered_set_attr)
  with SetStyleAttr \<open>recorded d\<close> show ?thesis by (simp add: recorded_def add_records_def node_of_def)
next
  case DeliverRecords
  assume "recorded d"
  with DeliverRecords no_inline_covered [OF deliver_clean] show ?thesis by (simp add: recorded_def) (simp add: deliver_def)
qed (auto simp: recorded_def covered_take_out)

lemma start_recorded: "recorded (start_observer b ds True d)"
  using no_inline_covered [OF migrate_no_inline [of b ds "body d" "css_rules d"]]
  by (simp add: recorded_def start_observer_def Let_def split_def)

lemma recorded_run: "recorded (run_events (doc_step b ds) (start_observer b ds True d) es)"
  using start_recorded recorded_step by (rule run_events_invariant)

text \<open>Handling records of a document without style attributes queues nothing.\<close>

lemma handle_quiet: "no_inline (body d) \<Longrightarrow> records (handle_record b ds r d) = records d \<and> no_inline (body (handle_record b ds r d))"
  using handle_covered [of "{}" d r b ds] by (simp add: covered_none) (simp add: handle_record_def Let_def split_def styled_ids_none)

lemma fold_quiet: "no_inline (body d) \<Longrightarrow> records (fold (handle_record b ds) rs d) = records d"
  by (induction rs arbitrary: d) (simp_all add: handle_quiet)

text \<open>The calls of \<open>setStyle\<close> that handling a record comes to, as calls on the elements of the subtree.\<close>

fun calls_at :: "nat \<Rightarrow> styled \<Rightarrow> (nat \<times> style_arg) list" where
  "calls_at p Other = []"
| "calls_at p (Styled n a ts) = (if n = p then inline_calls (Styled n a ts) else concat (map (calls_at p) ts))"

definition run_calls :: "browser \<Rightarrow> sheet_info list \<Rightarrow> styles \<Rightarrow> (nat \<times> style_arg) list \<Rightarrow> styles" where
  "run_calls b ds = run_events (\<lambda>st (n, a). set_style b ds n a st)"

lemma run_calls_append [simp]: "run_calls b ds st (xs @ ys) = run_calls b ds (run_calls b ds st xs) ys"
  by (simp add: run_calls_def run_events_append)

lemma migrate_run_calls: "snd (migrate b ds t st) = run_calls b ds st (inline_calls t)"
  using migrate_calls(1) by (simp add: run_calls_def)

lemma migrate_at_hit: "migrate_at b ds p (Styled p a ts) st = migrate b ds (Styled p a ts) st"
  by (simp only: migrate_at.simps if_True simp_thms)

lemma migrate_at_miss: "n \<noteq> p \<Longrightarrow> migrate_at b ds p (Styled n a ts) st = (Styled n a (fst (migrate_in b ds p ts st)), snd (migrate_in b ds p ts st))"
  by (simp split: prod.split)

lemma migrate_at_calls:
  "snd (migrate_at b ds p t st) = run_calls b ds st (calls_at p t)"
  "snd (migrate_in b ds p ts st) = run_calls b ds st (concat (map (calls_at p) ts))"
proof (induction b ds p t st and b ds p ts st rule: migrate_at_migrate_in.induct)
  case (2 b ds p n a ts st)
  then show ?case by (cases "n = p") (simp_all only: migrate_at_hit migrate_at_miss migrate_run_calls calls_at.simps if_True if_False simp_thms snd_conv)
next
  case (4 b ds p t ts st)
  then show ?case by (auto split: prod.splits)
qed (simp_all add: run_calls_def)

lemma migrate_ids: "ids (fst (migrate b ds t st)) = ids t"
  "map ids (fst (migrate_all b ds ts st)) = map ids ts"
  by (induction b ds t st and b ds ts st rule: migrate_migrate_all.induct) (auto simp: Let_def split: prod.splits)

lemma migrate_at_ids: "ids (fst (migrate_at b ds p t st)) = ids t"
  "map ids (fst (migrate_in b ds p ts st)) = map ids ts"
proof (induction b ds p t st and b ds p ts st rule: migrate_at_migrate_in.induct)
  case (2 b ds p n a ts st)
  then show ?case by (cases "n = p") (simp_all only: migrate_at_hit migrate_at_miss migrate_ids ids.simps fst_conv simp_thms)
next
  case (4 b ds p t ts st)
  then show ?case by (auto split: prod.splits)
qed auto

lemma no_inline_calls: "no_inline t \<Longrightarrow> inline_calls t = []"
  by (induction t) (auto simp: list_all_iff)

text \<open>What a record leaves and what it migrates make up the attributes there were.\<close>

lemma migrate_at_inline:
  "set (inline_calls t) = set (inline_calls (fst (migrate_at b ds p t st))) \<union> set (calls_at p t)"
  "set (concat (map inline_calls ts)) = set (concat (map inline_calls (fst (migrate_in b ds p ts st)))) \<union> set (concat (map (calls_at p) ts))"
proof (induction b ds p t st and b ds p ts st rule: migrate_at_migrate_in.induct)
  case (2 b ds p n a ts st)
  show ?case
  proof (cases "n = p")
    case True
    then show ?thesis using no_inline_calls [OF migrate_no_inline, of b ds "Styled n a ts" st]
      by (simp only: migrate_at_hit calls_at.simps if_True simp_thms) simp
  next
    case False
    with 2 show ?thesis by (simp only: migrate_at_miss simp_thms fst_conv inline_calls.simps calls_at.simps if_False set_append) auto
  qed
next
  case (4 b ds p t ts st)
  then show ?case by (auto split: prod.splits)
qed auto

lemma inline_ids: "fst ` set (inline_calls t) \<subseteq> set (ids t)"
  by (induction t) auto

lemma calls_at_ids: "fst ` set (calls_at p t) \<subseteq> set (ids t)"
  using migrate_at_inline(1) [of t _ _ p] inline_ids [of t] by blast

lemma distinct_parts: "distinct (concat (map f xs)) \<Longrightarrow> x \<in> set xs \<Longrightarrow> distinct (f x)"
  by (auto simp: distinct_concat_iff)

text \<open>Lists drawn from disjoint lists, each without repetition, have none together.\<close>

lemma distinct_drawn:
  assumes "distinct (concat (map f xs))" and "list_all (\<lambda>x. set (g x) \<subseteq> set (f x) \<and> distinct (g x)) xs"
  shows "distinct (concat (map g xs)) \<and> set (concat (map g xs)) \<subseteq> set (concat (map f xs))"
  using assms by (induction xs) (simp, simp, blast)

lemma inline_distinct: "distinct (ids t) \<Longrightarrow> distinct (map fst (inline_calls t))"
proof (induction t)
  case (Styled n a ts)
  have "list_all (\<lambda>t. set (map fst (inline_calls t)) \<subseteq> set (ids t) \<and> distinct (map fst (inline_calls t))) ts"
    using Styled distinct_parts [of ids ts] inline_ids by (simp add: list_all_iff)
  from distinct_drawn [OF _ this] Styled.prems show ?case by (auto simp: map_concat comp_def)
qed simp

lemma calls_at_distinct: "distinct (ids t) \<Longrightarrow> distinct (map fst (calls_at p t))"
proof (induction t)
  case (Styled n a ts)
  have "list_all (\<lambda>t. set (map fst (calls_at p t)) \<subseteq> set (ids t) \<and> distinct (map fst (calls_at p t))) ts"
    using Styled distinct_parts [of ids ts] calls_at_ids by (simp add: list_all_iff)
  from distinct_drawn [OF _ this] Styled.prems inline_distinct [of "Styled n a ts"] show ?case
    by (cases "n = p") (simp_all only: calls_at.simps if_True if_False simp_thms, simp add: map_concat comp_def)
qed simp

text \<open>The callback at work: an attribute the document had still stands, or is the style of its element.\<close>

definition kept_styles :: "browser \<Rightarrow> styled \<Rightarrow> document \<Rightarrow> bool" where
  "kept_styles b t0 d = (styles_inv (css_rules d) \<and> ids (body d) = ids t0 \<and> distinct (all_ids d) \<and>
     set (inline_calls (body d)) \<subseteq> set (inline_calls t0) \<and>
     (\<forall>n a. (n, CssText a) \<in> set (inline_calls t0) \<longrightarrow>
        (n, CssText a) \<in> set (inline_calls (body d)) \<or> style_of (css_rules d) n = Some (parse_decls b a)))"

lemma inline_CssText: "(n, x) \<in> set (inline_calls t) \<Longrightarrow> \<exists>a. x = CssText a"
  by (induction t) (auto split: if_splits)

lemma run_calls_styles:
  assumes "styles_inv st" and "pick_sheet ds \<noteq> None"
  shows "styles_inv (run_calls b ds st cs)" and "style_of (run_calls b ds st cs) = run_events (style_call b) (style_of st) cs"
  using style_run_refines [OF assms(2,1), of b cs] by (simp_all add: run_calls_def)

lemma kept_styles_step:
  assumes kept: "kept_styles b t0 d" and ds: "pick_sheet ds \<noteq> None"
  shows "kept_styles b t0 (handle_record b ds r d)"
proof -
  let ?p = "node_of r"
  let ?bc = "calls_at ?p (body d)" and ?rc = "concat (map (calls_at ?p) (removed d))"
  let ?v = "handle_record b ds r d"
  let ?st = "run_calls b ds (css_rules d) ?bc"
  have css: "css_rules ?v = run_calls b ds ?st ?rc"
    by (simp add: handle_record_def Let_def split_def migrate_at_calls)
  have inl: "set (inline_calls (body d)) = set (inline_calls (body ?v)) \<union> set ?bc"
    using migrate_at_inline(1) [of "body d" b ds ?p "css_rules d"] by (simp add: handle_record_def Let_def split_def)
  have bids: "ids (body ?v) = ids (body d)" and rids: "map ids (removed ?v) = map ids (removed d)"
    by (simp_all add: handle_record_def Let_def split_def migrate_at_ids)
  then have all: "all_ids ?v = all_ids d" by (simp add: all_ids_def)
  have inv: "styles_inv (css_rules d)" using kept by (simp add: kept_styles_def)
  have style: "style_of (css_rules ?v) = run_events (style_call b) (run_events (style_call b) (style_of (css_rules d)) ?bc) ?rc"
    by (simp add: css run_calls_styles [OF run_calls_styles(1) [OF inv ds] ds] run_calls_styles [OF inv ds])
  have unique: "distinct (ids (body d))" and unique0: "distinct (ids t0)"
    using kept unfolding kept_styles_def all_ids_def by (metis distinct_append)+
  have dist: "distinct (map fst ?bc)" by (rule calls_at_distinct [OF unique])
  have "fst ` set ?rc \<subseteq> set (concat (map ids (removed d)))" using calls_at_ids [of ?p] by (simp add: image_UN) blast
  moreover have "set (ids (body d)) \<inter> set (concat (map ids (removed d))) = {}"
    using kept unfolding kept_styles_def all_ids_def by (metis distinct_append)
  ultimately have apart: "n \<notin> fst ` set ?rc" if "n \<in> set (ids (body d))" for n using that by blast
  have "(n, CssText a) \<in> set (inline_calls (body ?v)) \<or> style_of (css_rules ?v) n = Some (parse_decls b a)"
    if c: "(n, CssText a) \<in> set (inline_calls t0)" for n a
  proof (cases "(n, CssText a) \<in> set ?bc")
    case True
    then have "n \<in> set (ids (body d))" using calls_at_ids [of ?p "body d"] by force
    then show ?thesis using run_style_calls [OF dist True] run_style_calls_other [OF apart] by (simp add: style)
  next
    case False
    have "(n, CssText a) \<in> set (inline_calls (body d)) \<or> style_of (css_rules d) n = Some (parse_decls b a)"
      using kept c by (simp add: kept_styles_def)
    moreover have "style_of (css_rules ?v) n = style_of (css_rules d) n" if "(n, CssText a) \<notin> set (inline_calls (body d))"
    proof -
      have key: "distinct (map fst (inline_calls t0))" by (rule inline_distinct [OF unique0])
      have "n \<notin> fst ` set ?bc"
      proof
        assume "n \<in> fst ` set ?bc"
        then obtain x where x: "(n, x) \<in> set ?bc" by force
        with inl kept have "(n, x) \<in> set (inline_calls t0)" by (auto simp: kept_styles_def)
        with key c have "x = CssText a" by (metis eq_key_imp_eq_value)
        with x False show False by simp
      qed
      moreover have "n \<in> set (ids (body d))" using c inline_ids [of t0] kept by (force simp: kept_styles_def)
      ultimately show ?thesis using run_style_calls_other apart by (simp add: style)
    qed
    ultimately show ?thesis using inl False by (metis UnE)
  qed
  moreover have "styles_inv (css_rules ?v)" by (simp add: css run_calls_styles [OF run_calls_styles(1) [OF inv ds] ds])
  moreover have "ids (body ?v) = ids t0" "distinct (all_ids ?v)" "set (inline_calls (body ?v)) \<subseteq> set (inline_calls t0)"
    using kept inl unfolding kept_styles_def bids all by blast+
  ultimately show ?thesis unfolding kept_styles_def by blast
qed

lemma kept_styles_run:
  "kept_styles b t0 d \<Longrightarrow> pick_sheet ds \<noteq> None \<Longrightarrow> kept_styles b t0 (fold (handle_record b ds) rs d)"
  by (induction rs arbitrary: d) (simp_all add: kept_styles_step)

section \<open>Properties\<close>

text \<open>
  C22: no style attribute survives. However scripts add, move and restyle elements once the observer runs, the
  callback leaves no element of the document with a style attribute, and the records of its own removals change
  nothing: the run after it has nothing left to do and queues nothing.
\<close>

theorem observer_leaves_no_style:
  "let d = run_events (doc_step b ds) (start_observer b ds True d0) es; v = deliver b ds d in
     no_inline (body v) \<and> no_inline (body (deliver b ds v)) \<and> records (deliver b ds v) = []"
proof -
  let ?d = "run_events (doc_step b ds) (start_observer b ds True d0) es"
  have clean: "no_inline (body (deliver b ds ?d))" using recorded_run by (rule deliver_clean)
  have "recorded (doc_step b ds ?d DeliverRecords)" using recorded_run by (rule recorded_step)
  then have "no_inline (body (deliver b ds (deliver b ds ?d)))" by (intro deliver_clean) simp
  moreover have "records (deliver b ds (deliver b ds ?d)) = []"
    using fold_quiet [of "deliver b ds ?d\<lparr>records := []\<rparr>" b ds "records (deliver b ds ?d)"] clean by (simp add: deliver_def [of b ds "deliver b ds ?d"])
  ultimately show ?thesis using clean by (simp add: Let_def)
qed

text \<open>
  Nothing is lost on the way: every style attribute that stands in the document when the callback runs is afterwards
  what the stylesheet gives its element.
\<close>

theorem observer_keeps_styles:
  assumes "recorded d" and "styles_inv (css_rules d)" and "distinct (all_ids d)" and "pick_sheet ds \<noteq> None"
  shows "list_all (\<lambda>(n, arg). style_of (css_rules (deliver b ds d)) n = Some (apply_style b arg [])) (inline_calls (body d))"
proof -
  let ?d = "d\<lparr>records := []\<rparr>"
  have "kept_styles b (body d) ?d" using assms(2,3) by (simp add: kept_styles_def all_ids_def)
  from kept_styles_run [OF this assms(4)] have kept: "kept_styles b (body d) (deliver b ds d)" by (simp add: deliver_def)
  have none: "inline_calls (body (deliver b ds d)) = []" using assms(1) by (intro no_inline_calls deliver_clean)
  show ?thesis unfolding list_all_iff
  proof (safe, goal_cases)
    case (1 n x)
    then obtain a where "x = CssText a" using inline_CssText by blast
    with 1 kept none show ?case by (simp add: kept_styles_def apply_style_def)
  qed
qed

theorem observer_keeps_styles_witness:
  "style_of (css_rules (deliver \<lparr>parse_decls = \<lambda>s. [(s, s)], accepts = \<lambda>p v. True, computed = \<lambda>n p. []\<rparr>
     [\<lparr>sheet_href = ''/static/styles.css'', readable = True\<rparr>]
     \<lparr>body = Styled 0 [] [Styled 1 ''color:red'' []], removed = [], records = [Added 1], observing = True, css_rules = styles_init\<rparr>)) 1
    = Some [(''color:red'', ''color:red'')]"
proof -
  let ?d = "\<lparr>body = Styled 0 [] [Styled 1 ''color:red'' []], removed = [], records = [Added 1], observing = True, css_rules = styles_init\<rparr>"
  have "pick_sheet [\<lparr>sheet_href = ''/static/styles.css'', readable = True\<rparr>] \<noteq> None" by (simp add: pick_sheet_def)
  moreover have "recorded ?d" by (simp add: recorded_def node_of_def)
  moreover have "distinct (all_ids ?d)" by (simp add: all_ids_def)
  ultimately show ?thesis
    using observer_keeps_styles [of ?d "[\<lparr>sheet_href = ''/static/styles.css'', readable = True\<rparr>]"] styles_init_inv
    by (simp add: apply_style_def)
qed

text \<open>Between a change and the callback the attribute stands, and before the observer starts nothing is recorded.\<close>

theorem late_start_sweeps:
  assumes "\<not> observing d" and "p \<in> set (ids (body d))"
  shows "records (doc_step b ds d (SetStyleAttr p v)) = records d \<and>
    no_inline (body (start_observer b ds True (doc_step b ds d (SetStyleAttr p v))))"
  using assms migrate_no_inline [of b ds "set_attr p v (body d)" "css_rules d"]
  by (simp add: add_records_def start_observer_def Let_def split_def)

end
