(* ===== verification/PageViews.thy ===== *)
theory PageViews
  imports Images Volumes Networks Compose Widgets
begin

text \<open>
  The elements the resource pages put into \<open>#main\<close>: header, description, search field, table or cards, with the
  buttons of every row. Listeners are the actions of the page. Fixed styles are left out.
\<close>

section \<open>Building blocks\<close>

text \<open>\<open>createElement\<close> with a class and children, with text, with markup that is a constant of the source; \<open>makeBtn\<close>.\<close>

definition mk :: "string \<Rightarrow> string \<Rightarrow> 'h node list \<Rightarrow> 'h node" where
  "mk tg cls ks = Elem ((new_elem tg)\<lparr>class_name := cls\<rparr>) ks"

definition mk_text :: "string \<Rightarrow> string \<Rightarrow> string \<Rightarrow> 'h node" where
  "mk_text tg cls s = mk tg cls (text_nodes s)"

definition make_btn :: "string \<Rightarrow> 'h \<Rightarrow> string \<Rightarrow> 'h node" where
  "make_btn l act cls = Elem ((new_elem ''button'')\<lparr>class_name := or_str cls ''btn'', listeners := [(''click'', act)]\<rparr>) (text_nodes l)"

definition search_field :: "string \<Rightarrow> string \<Rightarrow> bool \<Rightarrow> 'h \<Rightarrow> 'h node" where
  "search_field ph test off act = Elem ((new_elem ''input'')\<lparr>class_name := ''search-bar'',
     attributes := [(''type'', ''search''), (''placeholder'', ph), (''data-testid'', test)] @ (if off then [(''disabled'', [])] else []),
     listeners := [(''input'', act)]\<rparr>) []"

definition note_row :: "string \<Rightarrow> string \<Rightarrow> 'h node" where
  "note_row span msg = mk ''tr'' [] [Elem ((new_elem ''td'')\<lparr>attributes := [(''colspan'', span)]\<rparr>) (text_nodes msg)]"

definition loading_div :: "string \<Rightarrow> 'h node" where
  "loading_div msg = Raw (''<div class='' @ dquote @ ''refreshing'' @ dquote @ ''>'' @ msg @ ''</div>'')"

definition page_header :: "string \<Rightarrow> 'h node list \<Rightarrow> 'h node" where
  "page_header heading acts = mk ''div'' ''page-header''
     (mk_text ''h2'' [] heading # (if acts = [] then [] else [mk ''div'' ''header-actions'' acts]))"

section \<open>Networks\<close>

datatype network_click = CreateNetwork | PruneNetworks | SearchNetworks | OnNetwork network_button

definition network_btn :: "network_button \<Rightarrow> network_click node" where
  "network_btn b = (case b of
      ConnectTo i n \<Rightarrow> make_btn ''Connect...'' (OnNetwork b) ''btn small''
    | Disconnect i c cn \<Rightarrow> make_btn (''Disconnect '' @ cn) (OnNetwork b) ''btn danger small''
    | DeleteNetwork i n \<Rightarrow> make_btn ''Delete'' (OnNetwork b) ''btn danger small'')"

definition network_tr :: "network \<Rightarrow> network_click node" where
  "network_tr n = mk ''tr'' []
     [mk ''td'' [] (text_nodes (nname n) @ (if built_in (nname n) then [mk_text ''span'' [] ''built-in''] else [])),
      mk_text ''td'' ''container-id'' (nid n), mk_text ''td'' [] (ndriver n), mk_text ''td'' [] (nscope n),
      mk_text ''td'' [] (if members n \<noteq> [] then join '', '' (map snd (members n)) else ''none''),
      mk_text ''td'' ''container-id'' (subnets n),
      mk ''td'' [] [mk ''div'' ''btn-group'' (map network_btn (network_buttons n))]]"

definition network_tbody :: "string \<Rightarrow> network list \<Rightarrow> network_click node list" where
  "network_tbody q ns = (let shown = filter_networks q ns in
     if shown = [] then [note_row ''7'' (if to_lower q \<noteq> [] then ''No matches'' else ''No networks found'')] else map network_tr shown)"

definition network_head :: string where
  "network_head = ''<thead><tr><th>Name</th><th>ID</th><th>Driver</th><th>Scope</th><th>Containers</th><th>Subnet</th><th>Actions</th></tr></thead>''"

definition network_main :: "string \<Rightarrow> network list page_view \<Rightarrow> network_click node list" where
  "network_main q v = (case v of
      PageLoading \<Rightarrow> [loading_div ''Loading networks...'']
    | PageFailed msg \<Rightarrow> [mk_text ''p'' [] (''Failed: '' @ msg)]
    | PageList ns \<Rightarrow> [page_header (network_heading q ns)
          [make_btn ''Create network'' CreateNetwork ''btn primary'', make_btn ''Prune unused'' PruneNetworks ''btn danger''],
        mk_text ''p'' [] ''Docker networks are internal to the container environment and used for container-to-container communication. They are not externally accessible.'',
        search_field ''Search networks by name, driver, or subnet...'' ''networks-search'' False SearchNetworks,
        mk ''table'' [] [Raw network_head, mk ''tbody'' [] (network_tbody q ns)]]
    | PageOther p \<Rightarrow> [])"

section \<open>Volumes\<close>

datatype volume_click = CreateVolume | PruneVolumes | SearchVolumes | InspectVolume string | BrowseVolume string | AskDelete volume

definition volume_tr :: "volume \<Rightarrow> volume_click node" where
  "volume_tr v = mk ''tr'' []
     [mk_text ''td'' [] (vname v), mk_text ''td'' [] (vdriver v),
      (if in_use v then mk ''td'' [] [mk_text ''span'' ''status running'' (used_by v)] else mk_text ''td'' [] (used_by v)),
      mk_text ''td'' ''created-time'' (vcreated v),
      mk ''td'' [] [make_btn (label ''volumes.actions.inspect'') (InspectVolume (vname v)) ''btn small'',
        make_btn ''Browse'' (BrowseVolume (vname v)) ''btn small'',
        make_btn (label ''common.delete'') (AskDelete v) ''btn danger small'']]"

definition volume_tbody :: "string \<Rightarrow> volume list \<Rightarrow> volume_click node list" where
  "volume_tbody q vs = (let shown = filter_volumes q vs in
     if shown = [] then [note_row ''5'' (if to_lower q \<noteq> [] then label ''common.no_matches'' else label ''volumes.empty'')]
     else map volume_tr shown)"

definition volume_columns :: "string list" where
  "volume_columns = [label ''volumes.columns.name'', label ''volumes.columns.driver'', label ''volumes.in_use'',
     label ''volumes.columns.created'', label ''volumes.columns.actions'']"

definition volume_main :: "string \<Rightarrow> volume list page_view \<Rightarrow> volume_click node list" where
  "volume_main q v = (case v of
      PageLoading \<Rightarrow> [mk_text ''div'' ''refreshing'' (label ''common.loading'')]
    | PageFailed msg \<Rightarrow> [mk_text ''p'' [] (label ''common.error'' @ '': '' @ msg)]
    | PageList vs \<Rightarrow> [page_header (volume_heading q vs)
          [make_btn (label ''volumes.actions.create'') CreateVolume ''btn primary'', make_btn (label ''volumes.actions.prune'') PruneVolumes ''btn danger''],
        mk_text ''p'' [] (label ''volumes.description''),
        search_field (label ''volumes.search_placeholder'') ''volumes-search'' False SearchVolumes,
        mk ''table'' [] [mk ''thead'' [] [mk ''tr'' [] (map (mk_text ''th'' []) volume_columns)], mk ''tbody'' [] (volume_tbody q vs)]]
    | PageOther p \<Rightarrow> [])"

section \<open>Images\<close>

text \<open>The search field of this page stands among the header's buttons; its heading keeps the number of all images.\<close>

datatype image_click = PullImage | PruneImages bool | SearchImages | OnImage image_button

definition image_btn :: "image_button \<Rightarrow> image_click node" where
  "image_btn b = (case b of
      InspectImage i tg \<Rightarrow> make_btn ''Inspect'' (OnImage b) []
    | RunImage tg \<Rightarrow> make_btn ''Run'' (OnImage b) ''btn''
    | DeleteImage i tg \<Rightarrow> make_btn ''Delete'' (OnImage b) ''btn danger'')"

definition image_tr :: "int \<Rightarrow> image \<Rightarrow> image_click node" where
  "image_tr now i = mk ''tr'' []
     [mk_text ''td'' [] (display_tag i), mk_text ''td'' ''container-id'' (img_id i), mk_text ''td'' [] (size_mb i @ '' MB''),
      mk_text ''td'' ''created-time'' (rel_time now (img_created i)),
      mk ''td'' [] [mk ''div'' ''btn-group'' (map image_btn (image_buttons i))]]"

definition image_tbody :: "int \<Rightarrow> string \<Rightarrow> image list \<Rightarrow> image_click node list" where
  "image_tbody now q imgs = (let shown = search_images q imgs in
     if shown = [] then [note_row ''5'' ''No images found''] else map (image_tr now) shown)"

definition image_head :: string where
  "image_head = ''<thead><tr><th>Repository / Tag</th><th>Image ID</th><th>Size</th><th>Created</th><th>Actions</th></tr></thead>''"

definition image_main :: "int \<Rightarrow> string \<Rightarrow> image list page_view \<Rightarrow> image_click node list" where
  "image_main now q v = (case v of
      PageLoading \<Rightarrow> [loading_div ''Loading images...'']
    | PageFailed msg \<Rightarrow> [mk_text ''p'' [] (''Failed: '' @ msg)]
    | PageList imgs \<Rightarrow> [page_header (''Images ('' @ show_nat (length imgs) @ '')'')
          [Elem ((new_elem ''input'')\<lparr>class_name := ''search-bar'', attributes := [(''placeholder'', ''Search images...'')],
             listeners := [(''input'', SearchImages)]\<rparr>) [], make_btn ''Pull image'' PullImage ''btn primary'',
           make_btn ''Prune dangling'' (PruneImages True) ''btn small'', make_btn ''Prune all unused'' (PruneImages False) ''btn small danger''],
        mk_text ''p'' [] ''Images are stored on the remote Docker engine. Only images from approved registries can be pulled or run.'',
        mk ''table'' [] [Raw image_head, mk ''tbody'' [] (image_tbody now q imgs)]]
    | PageOther p \<Rightarrow> [])"

section \<open>Compose\<close>

datatype compose_click = ServiceLogs string string | AllLogs string | OnStack string stack_action | DownloadYaml string
  | SearchStacks | PickFile | DropFile | UploadPicked

definition service_row :: "string \<Rightarrow> service \<Rightarrow> compose_click node" where
  "service_row n v = mk ''div'' []
     [mk ''span'' (dot_class (svc_state v)) [], mk_text ''span'' [] (svc_name v @ '' ('' @ svc_state v @ '')''),
      make_btn ''Logs'' (ServiceLogs (svc_container v) (svc_name v)) ''btn small'',
      make_btn ''Restart'' (OnStack n (RestartService (svc_name v))) ''btn small'']"

definition stack_buttons :: "string \<Rightarrow> compose_click node list" where
  "stack_buttons n =
     [make_btn ''All service logs'' (AllLogs n) ''btn small'', make_btn ''Start'' (OnStack n StartStack) ''btn small'',
      make_btn ''Stop'' (OnStack n StopStack) ''btn small'', make_btn ''Pull updates'' (OnStack n PullUpdates) ''btn small'',
      make_btn (''Scale'' @ ellipsis) (OnStack n ScaleStack) ''btn small'', make_btn ''Restart all'' (OnStack n RestartAll) ''btn small'',
      make_btn ''Download YAML'' (DownloadYaml n) ''btn small'', make_btn ''Tear down'' (OnStack n TearDown) ''btn danger small'']"

definition stack_card :: "stack \<Rightarrow> compose_click node" where
  "stack_card s = mk ''div'' ''stack-card''
     [mk ''h4'' [] (mk ''span'' (dot_class (st_status s)) [] # text_nodes (st_name s)),
      mk ''div'' ''stack-services'' (map (service_row (st_name s)) (services s)), mk ''div'' [] (stack_buttons (st_name s))]"

definition stack_cards :: "string \<Rightarrow> stack list \<Rightarrow> compose_click node list" where
  "stack_cards q ss = (let shown = filter_stacks q ss in
     if shown = [] then [mk_text ''p'' [] (if to_lower q \<noteq> [] then ''No matches'' else [])] else map stack_card shown)"

text \<open>What \<open>uploadCompose\<close> puts into the output area: a notice while the stack is deployed, then the server's output or the error as text.\<close>

datatype upload = NoUpload | Uploading | UploadDone "string + string"

definition uploading_div :: string where
  "uploading_div = ''<div class='' @ dquote @ ''log-viewer'' @ dquote @ ''>Deploying stack...</div>''"

definition upload_area :: "upload \<Rightarrow> compose_click node list" where
  "upload_area u = (case u of NoUpload \<Rightarrow> [] | Uploading \<Rightarrow> [Raw uploading_div]
     | UploadDone res \<Rightarrow> [mk_text ''div'' ''log-viewer'' (upload_output res)])"

definition deploy_section :: "upload \<Rightarrow> compose_click node list" where
  "deploy_section u =
     [mk_text ''h3'' [] ''Deploy Stack'',
      Elem ((new_elem ''div'')\<lparr>class_name := ''drop-zone'', listeners := [(''click'', PickFile), (''drop'', DropFile)]\<rparr>)
        [Elem ((new_elem ''input'')\<lparr>attributes := [(''type'', ''file''), (''accept'', ''.yml,.yaml'')], listeners := [(''change'', UploadPicked)]\<rparr>) [],
         mk_text ''p'' [] ''Upload compose file (docker-compose.yml)'', mk_text ''p'' [] ''Click or drag and drop''],
      mk ''div'' ''mt-16'' [Elem ((new_elem ''label'')\<lparr>attributes := [(''for'', ''compose-project'')]\<rparr>) (text_nodes ''Project Name''),
         mk ''br'' [] [], Elem ((new_elem ''input'')\<lparr>attributes := [(''id'', ''compose-project''), (''value'', ''dev'')]\<rparr>) []],
      Elem ((new_elem ''div'')\<lparr>class_name := ''mt-16'', attributes := [(''id'', ''compose-output'')]\<rparr>) (upload_area u)]"

definition error_banner :: "string option \<Rightarrow> compose_click node list" where
  "error_banner err = (case err of None \<Rightarrow> []
     | Some msg \<Rightarrow> [Elem ((new_elem ''div'')\<lparr>class_name := ''field-error'', attributes := [(''role'', ''alert'')]\<rparr>)
         (text_nodes (''Could not load stacks: '' @ msg))])"

definition compose_main :: "string \<Rightarrow> compose_view page_view \<Rightarrow> upload \<Rightarrow> compose_click node list" where
  "compose_main q v u = (case v of
      PageLoading \<Rightarrow> [loading_div ''Loading...'']
    | PageList (ss, err) \<Rightarrow> [page_header ''Compose'' [],
        mk_text ''p'' [] ''Compose files are validated before deployment. Privileged mode, host-path mounts, build instructions, and unapproved registries are blocked.''] @
        error_banner err @ [mk_text ''h3'' [] (stack_heading q ss),
        search_field ''Search stacks by project name or service...'' ''compose-search'' (ss = []) SearchStacks] @
        (if ss \<noteq> [] then [mk ''div'' [] (stack_cards q ss), mk ''hr'' [] []] else []) @ deploy_section u
    | _ \<Rightarrow> [])"

section \<open>What a tree holds\<close>

text \<open>The markup parsed from strings, and the actions on offer, in document order.\<close>

fun raws :: "'h node \<Rightarrow> string list" where
  "raws (Text s) = []"
| "raws (Raw s) = [s]"
| "raws (Elem e ns) = concat (map raws ns)"

fun actions :: "'h node \<Rightarrow> 'h list" where
  "actions (Text s) = []"
| "actions (Raw s) = []"
| "actions (Elem e ns) = map snd (listeners e) @ concat (map actions ns)"

definition raws_of :: "'h node list \<Rightarrow> string list" where
  "raws_of ns = concat (map raws ns)"

definition actions_of :: "'h node list \<Rightarrow> 'h list" where
  "actions_of ns = concat (map actions ns)"

lemma raws_of_simps [simp]: "raws_of [] = []" "raws_of (n # ns) = raws n @ raws_of ns" "raws_of (ms @ ns) = raws_of ms @ raws_of ns"
  "raws_of (text_nodes s) = []"
  by (simp_all add: raws_of_def text_nodes_def)

lemma actions_of_simps [simp]: "actions_of [] = []" "actions_of (n # ns) = actions n @ actions_of ns"
  "actions_of (ms @ ns) = actions_of ms @ actions_of ns" "actions_of (text_nodes s) = []"
  by (simp_all add: actions_of_def text_nodes_def)

lemma raws_blocks [simp]: "raws (Elem e ns) = raws_of ns" "raws (mk tg cls ns) = raws_of ns" "raws (mk_text tg cls s) = []"
  "raws (make_btn l act cls) = []" "raws (search_field ph test off act) = []" "raws (note_row sp msg) = []"
  "raws (page_header hdg acts) = raws_of acts"
  by (simp_all add: raws_of_def mk_def mk_text_def make_btn_def search_field_def note_row_def page_header_def text_nodes_def)

lemma actions_blocks [simp]: "actions (Elem e ns) = map snd (listeners e) @ actions_of ns" "actions (mk tg cls ns) = actions_of ns"
  "actions (mk_text tg cls s) = []" "actions (make_btn l act cls) = [act]" "actions (search_field ph test off act) = [act]"
  "actions (note_row sp msg) = []" "actions (page_header hdg acts) = actions_of acts"
  by (simp_all add: actions_of_def mk_def mk_text_def make_btn_def search_field_def note_row_def page_header_def text_nodes_def new_elem_def)

declare raws.simps(3) [simp del] actions.simps(3) [simp del]

lemma raws_of_map: "(\<And>x. raws (f x) = []) \<Longrightarrow> raws_of (map f xs) = []"
  by (induction xs) simp_all

lemma actions_of_map: "actions_of (map f xs) = concat (map (\<lambda>x. actions (f x)) xs)"
  by (induction xs) simp_all

lemma row_raws [simp]: "raws (network_tr n) = []" "raws (volume_tr v) = []" "raws (image_tr now i) = []" "raws (stack_card s) = []"
proof -
  have "raws (network_btn b) = []" for b by (simp add: network_btn_def split: network_button.split)
  then show "raws (network_tr n) = []" by (simp add: network_tr_def raws_of_map)
  show "raws (volume_tr v) = []" by (simp add: volume_tr_def)
  have "raws (image_btn b) = []" for b by (simp add: image_btn_def split: image_button.split)
  then show "raws (image_tr now i) = []" by (simp add: image_tr_def raws_of_map)
  have "raws (service_row m w) = []" for m w by (simp add: service_row_def)
  then show "raws (stack_card s) = []" by (simp add: stack_card_def stack_buttons_def raws_of_map)
qed

lemma row_actions [simp]:
  "actions (network_tr n) = map OnNetwork (network_buttons n)"
  "actions (volume_tr v) = [InspectVolume (vname v), BrowseVolume (vname v), AskDelete v]"
  "actions (image_tr now i) = map OnImage (image_buttons i)"
proof -
  have "actions (network_btn b) = [OnNetwork b]" for b by (simp add: network_btn_def split: network_button.split)
  then show "actions (network_tr n) = map OnNetwork (network_buttons n)" by (simp add: network_tr_def actions_of_map)
  show "actions (volume_tr v) = [InspectVolume (vname v), BrowseVolume (vname v), AskDelete v]" by (simp add: volume_tr_def)
  have "actions (image_btn b) = [OnImage b]" for b by (simp add: image_btn_def split: image_button.split)
  then show "actions (image_tr now i) = map OnImage (image_buttons i)" by (simp add: image_tr_def actions_of_map)
qed

section \<open>Properties\<close>

text \<open>The markup of the sources: four notices and two table heads. Assigning the empty string only clears an element.\<close>

definition fixed_markup :: "string list" where
  "fixed_markup = [network_head, image_head] @ map (\<lambda>m. ''<div class='' @ dquote @ ''refreshing'' @ dquote @ ''>'' @ m @ ''</div>'')
     [''Loading networks...'', ''Loading images...'', ''Loading...''] @ [uploading_div]"

text \<open>
  C23: nothing the server sends and nothing the user types is parsed as markup on these pages. Whatever the answers,
  the errors, the search text and whatever the upload of a compose file has printed, every string given to innerHTML
  (empty ones, which clear, aside) is one of six constants of the source; names, tags, messages, the search text and the
  output of a deployment only ever become text.
\<close>

theorem pages_parse_no_input:
  "set (raws_of (network_main q v) @ raws_of (volume_main q w) @ raws_of (image_main now q x) @ raws_of (compose_main q y u))
    \<subseteq> set fixed_markup"
proof -
  have "set (raws_of (network_main q v)) \<subseteq> set fixed_markup"
    by (simp add: network_main_def network_tbody_def Let_def raws_of_map loading_div_def fixed_markup_def split: page_view.split)
  moreover have "set (raws_of (volume_main q w)) \<subseteq> set fixed_markup"
    by (simp add: volume_main_def volume_tbody_def Let_def raws_of_map split: page_view.split)
  moreover have "set (raws_of (image_main now q x)) \<subseteq> set fixed_markup"
    by (simp add: image_main_def image_tbody_def Let_def raws_of_map loading_div_def fixed_markup_def split: page_view.split)
  moreover have "set (raws_of (upload_area u)) \<subseteq> set fixed_markup"
    by (simp add: upload_area_def fixed_markup_def split: upload.split)
  then have "set (raws_of (compose_main q y u)) \<subseteq> set fixed_markup"
    by (auto simp: compose_main_def stack_cards_def deploy_section_def error_banner_def Let_def raws_of_map loading_div_def fixed_markup_def
        split: page_view.split option.split)
  ultimately show ?thesis by simp
qed

text \<open>
  The network page offers its own three actions and those of the rows it shows, no more: in particular nothing that
  connects, disconnects or deletes a built-in network.
\<close>

theorem network_page_actions:
  shows "actions_of (network_main q (PageList ns)) =
      [CreateNetwork, PruneNetworks, SearchNetworks] @ concat (map (\<lambda>n. map OnNetwork (network_buttons n)) (filter_networks q ns))"
    and "OnNetwork (DeleteNetwork i m) \<in> set (actions_of (network_main q (PageList ns))) \<Longrightarrow> \<not> built_in m"
proof -
  show eq: "actions_of (network_main q (PageList ns)) =
      [CreateNetwork, PruneNetworks, SearchNetworks] @ concat (map (\<lambda>n. map OnNetwork (network_buttons n)) (filter_networks q ns))"
    by (simp add: network_main_def network_tbody_def Let_def actions_of_map)
  assume "OnNetwork (DeleteNetwork i m) \<in> set (actions_of (network_main q (PageList ns)))"
  then show "\<not> built_in m" unfolding eq by (auto simp: network_buttons_def split: if_splits)
qed

text \<open>The cells show what the row models say.\<close>

fun kids_of :: "'h node \<Rightarrow> 'h node list" where
  "kids_of (Elem e ns) = ns"
| "kids_of n = []"

lemma text_blocks [simp]: "text_content (mk tg cls ns) = concat (map text_content ns)" "text_content (mk_text tg cls s) = s"
  "concat (map text_content (text_nodes s)) = s"
  by (simp_all add: mk_def mk_text_def text_nodes_def)

lemma rows_show_cells:
  "map text_content (take 6 (kids_of (network_tr n))) = network_cells n"
  "map text_content (take 4 (kids_of (image_tr now i))) = image_cells now i"
  "map text_content (take 4 (kids_of (volume_tr v))) = [vname v, vdriver v, used_by v, vcreated v]"
  by (simp_all add: network_tr_def image_tr_def volume_tr_def mk_def [of "''tr''"] network_cells_def image_cells_def)

end
