(* ===== verification/BulkActions.thy ===== *)
theory BulkActions
  imports Containers
begin

text \<open>
  The bulk bar of the container list as a machine: the four buttons of \<open>_renderBulkBar\<close>, the requests of a press with
  answers in any order, and the re-rendering that goes on meanwhile, by the poll, the search and the ticks.
\<close>

section \<open>The machine\<close>

datatype bulk_kind = BulkStart | BulkStop | BulkRestart | BulkDelete

definition bulk_label :: "bulk_kind \<Rightarrow> string" where
  "bulk_label k = (case k of BulkStart \<Rightarrow> ''Start'' | BulkStop \<Rightarrow> ''Stop'' | BulkRestart \<Rightarrow> ''Restart'' | BulkDelete \<Rightarrow> ''Delete'')"

definition bulk_verb :: "bulk_kind \<Rightarrow> string" where
  "bulk_verb k = (case k of BulkStart \<Rightarrow> ''Started'' | BulkStop \<Rightarrow> ''Stopped'' | BulkRestart \<Rightarrow> ''Restarted'' | BulkDelete \<Rightarrow> ''Deleted'')"

definition bulk_question :: "bulk_kind \<Rightarrow> nat \<Rightarrow> string" where
  "bulk_question k n = bulk_label k @ '' '' @ show_nat n @ '' container(s)?'' @
     (if k = BulkDelete then '' Running ones will be force-killed and CANNOT be undone.'' else [])"

definition bulk_requests :: "bulk_kind \<Rightarrow> list_view \<Rightarrow> (string \<times> string) list" where
  "bulk_requests k v = (case k of
      BulkStart \<Rightarrow> map (Pair ''POST'') (bulk_urls ''start'' v)
    | BulkStop \<Rightarrow> map (Pair ''POST'') (bulk_urls ''stop'' v)
    | BulkRestart \<Rightarrow> map (Pair ''POST'') (bulk_urls ''restart'' v)
    | BulkDelete \<Rightarrow> map (Pair ''DELETE'') (bulk_delete_urls v))"

definition bulk_report :: "bulk_kind \<Rightarrow> (string + unit) list \<Rightarrow> toast" where
  "bulk_report k rs = bulk_toast (bulk_label k) (bulk_verb k) (if k = BulkDelete then [] else '' container(s)'') rs"

text \<open>
  A press that is under way: the bar its button stands in, the containers, and the outcome of each request as it
  arrives (\<open>Inl\<close> the error's message, or \<open>failed\<close>).
\<close>

record bulk_job =
  job_kind :: bulk_kind
  job_bar :: nat
  job_ids :: "string list"
  outcomes :: "(string + unit) option list"

text \<open>
  \<open>bar_no\<close> numbers the bars: every rendering replaces the bar by a new one, with buttons of its own. \<open>asked\<close> is what
  was sent, \<open>reports\<close> what the handlers of the finished presses were given, \<open>list_reloads\<close> the calls of
  \<open>loadContainers\<close>.
\<close>

record bulk_page =
  rows_view :: list_view
  bar_no :: nat
  jobs :: "bulk_job list"
  asked :: "(string \<times> string) list"
  reports :: "(bulk_kind \<times> (string + unit) list) list"
  bulk_toasts :: "toast list"
  list_reloads :: nat

definition bulk_init :: bulk_page where
  "bulk_init = \<lparr>rows_view = list_init, bar_no = 0, jobs = [], asked = [], reports = [], bulk_toasts = [], list_reloads = 0\<rparr>"

definition button_busy :: "bulk_kind \<Rightarrow> bulk_page \<Rightarrow> bool" where
  "button_busy k b = list_ex (\<lambda>j. job_kind j = k \<and> job_bar j = bar_no b) (jobs b)"

text \<open>The last outcome settles \<open>Promise.all\<close>: the toast, an empty selection, and a fresh list.\<close>

definition finish_bulk :: "bulk_kind \<Rightarrow> (string + unit) list \<Rightarrow> bulk_page \<Rightarrow> bulk_page" where
  "finish_bulk k rs b = b\<lparr>reports := reports b @ [(k, rs)], bulk_toasts := bulk_toasts b @ [bulk_report k rs],
     rows_view := (rows_view b)\<lparr>selected := []\<rparr>, list_reloads := Suc (list_reloads b)\<rparr>"

text \<open>\<open>action\<close> of a button: the ids are copied, the question asked, and all requests are sent together. A bar
  that outlives the selection asks for none: \<open>Promise.all\<close> of no requests settles at once.\<close>

definition press_bulk :: "bulk_kind \<Rightarrow> bool \<Rightarrow> bulk_page \<Rightarrow> bulk_page" where
  "press_bulk k confirmed b = (if \<not> confirmed then b\<lparr>bulk_toasts := bulk_toasts b @ [(''Cancelled'', Error)]\<rparr>
     else if selected (rows_view b) = [] then finish_bulk k [] b
     else b\<lparr>asked := asked b @ bulk_requests k (rows_view b),
       jobs := jobs b @ [\<lparr>job_kind = k, job_bar = bar_no b, job_ids = selected (rows_view b),
         outcomes = replicate (length (selected (rows_view b))) None\<rparr>]\<rparr>)"

definition bulk_answer :: "nat \<Rightarrow> nat \<Rightarrow> string + unit \<Rightarrow> bulk_page \<Rightarrow> bulk_page" where
  "bulk_answer i r ans b = (let j = jobs b ! i; os = (outcomes j)[r := Some ans] in
     if list_all (\<lambda>x. x \<noteq> None) os
     then finish_bulk (job_kind j) (map the os) (b\<lparr>jobs := take i (jobs b) @ drop (Suc i) (jobs b)\<rparr>)
     else b\<lparr>jobs := (jobs b)[i := j\<lparr>outcomes := os\<rparr>]\<rparr>)"

text \<open>The events of the list that draw the bar anew.\<close>

definition redraws :: "list_view \<Rightarrow> list_event \<Rightarrow> bool" where
  "redraws v e = (case e of TickRow i on \<Rightarrow> i \<in> set (visible v) | TickAll on \<Rightarrow> visible v \<noteq> [] | ClearAll \<Rightarrow> bar_shown v | _ \<Rightarrow> True)"

datatype bulk_event = ListEvent list_event | PressBulk bulk_kind bool | BulkAnswer nat nat "string + unit"

fun bulk_step :: "bulk_page \<Rightarrow> bulk_event \<Rightarrow> bulk_page" where
  "bulk_step b (ListEvent e) = b\<lparr>rows_view := list_step (rows_view b) e,
     bar_no := (if redraws (rows_view b) e then Suc (bar_no b) else bar_no b)\<rparr>"
| "bulk_step b (PressBulk k confirmed) = (if bar_shown (rows_view b) \<and> \<not> button_busy k b then press_bulk k confirmed b else b)"
| "bulk_step b (BulkAnswer i r ans) = (if i < length (jobs b) \<and> r < length (outcomes (jobs b ! i)) \<and> outcomes (jobs b ! i) ! r = None
     then bulk_answer i r ans b else b)"

section \<open>Lemmas\<close>

text \<open>How many requests a list of jobs, and of reports, stands for.\<close>

definition open_requests :: "bulk_job list \<Rightarrow> nat" where
  "open_requests js = sum_list (map (\<lambda>j. length (outcomes j)) js)"

definition reported_requests :: "(bulk_kind \<times> (string + unit) list) list \<Rightarrow> nat" where
  "reported_requests rs = sum_list (map (\<lambda>r. length (snd r)) rs)"

lemma open_requests_simps [simp]: "open_requests [] = 0" "open_requests (j # js) = length (outcomes j) + open_requests js"
  "open_requests (js @ ks) = open_requests js + open_requests ks"
  by (simp_all add: open_requests_def)

lemma reported_requests_simps [simp]: "reported_requests [] = 0" "reported_requests (rs @ [(k, xs)]) = reported_requests rs + length xs"
  by (simp_all add: reported_requests_def)

lemma length_bulk_requests [simp]: "length (bulk_requests k v) = length (selected v)"
  by (simp add: bulk_requests_def bulk_urls_def bulk_delete_urls_def split: bulk_kind.split)

lemma report_not_cancelled [simp]: "bulk_report k rs \<noteq> (''Cancelled'', Error)"
  by (cases k) (simp_all add: bulk_report_def bulk_toast_def bulk_label_def bulk_verb_def Let_def)

text \<open>A job still open has an outcome outstanding; every request belongs to one open job or to one report.\<close>

definition job_ok :: "nat \<Rightarrow> bulk_job \<Rightarrow> bool" where
  "job_ok n j = (None \<in> set (outcomes j) \<and> job_bar j \<le> n)"

definition job_key :: "bulk_job \<Rightarrow> bulk_kind \<times> nat" where
  "job_key j = (job_kind j, job_bar j)"

definition told :: "bulk_page \<Rightarrow> toast list" where
  "told b = filter (\<lambda>m. m \<noteq> (''Cancelled'', Error)) (bulk_toasts b)"

definition bulk_inv :: "bulk_page \<Rightarrow> bool" where
  "bulk_inv b = (length (asked b) = open_requests (jobs b) + reported_requests (reports b) \<and>
     told b = map (\<lambda>(k, rs). bulk_report k rs) (reports b) \<and> list_reloads b = length (reports b) \<and>
     list_all (job_ok (bar_no b)) (jobs b) \<and> distinct (map job_key (jobs b)))"

lemma finish_bulk_inv:
  assumes "list_all (job_ok (bar_no b)) (jobs b)" and "distinct (map job_key (jobs b))"
    and "length (asked b) = open_requests (jobs b) + reported_requests (reports b) + length rs"
    and "told b = map (\<lambda>(k, rs). bulk_report k rs) (reports b)" and "list_reloads b = length (reports b)"
  shows "bulk_inv (finish_bulk k rs b)"
  using assms by (simp add: bulk_inv_def finish_bulk_def told_def)

lemma bulk_answer_inv:
  assumes inv: "bulk_inv b" and i: "i < length (jobs b)"
  shows "bulk_inv (bulk_answer i r ans b)"
proof -
  obtain A j B where js: "jobs b = A @ j # B" and A: "length A = i"
    using i id_take_nth_drop [OF i] by (metis length_take less_imp_le_nat min.absorb2)
  let ?os = "(outcomes j)[r := Some ans]"
  have at: "jobs b ! i = j" "take i (jobs b) @ drop (Suc i) (jobs b) = A @ B" "(jobs b)[i := x] = A @ x # B" for x
    by (simp_all add: js A [symmetric])
  show ?thesis
  proof (cases "list_all (\<lambda>x. x \<noteq> None) ?os")
    case True
    then have eq: "bulk_answer i r ans b = finish_bulk (job_kind j) (map the ?os) (b\<lparr>jobs := A @ B\<rparr>)"
      by (simp add: bulk_answer_def Let_def at)
    show ?thesis unfolding eq by (rule finish_bulk_inv) (use inv in \<open>auto simp: bulk_inv_def js told_def\<close>)
  next
    case False
    then have eq: "bulk_answer i r ans b = b\<lparr>jobs := A @ j\<lparr>outcomes := ?os\<rparr> # B\<rparr>"
      by (simp add: bulk_answer_def Let_def at)
    have "None \<in> set ?os" using False by (auto simp: list_all_iff)
    then show ?thesis unfolding eq using inv by (auto simp: bulk_inv_def js told_def job_ok_def job_key_def)
  qed
qed

lemma press_bulk_inv:
  assumes inv: "bulk_inv b" and free: "\<not> button_busy k b"
  shows "bulk_inv (press_bulk k ok b)"
proof (cases "ok \<and> selected (rows_view b) \<noteq> []")
  case True
  have "(k, bar_no b) \<notin> job_key ` set (jobs b)"
    using free by (auto simp: button_busy_def list_ex_iff job_key_def)
  with True inv show ?thesis
    by (auto simp: press_bulk_def bulk_inv_def told_def job_ok_def job_key_def)
next
  case False
  then consider "\<not> ok" | "ok" "selected (rows_view b) = []" by blast
  then show ?thesis
  proof cases
    case 1
    with inv show ?thesis by (simp add: press_bulk_def bulk_inv_def told_def)
  next
    case 2
    have "bulk_inv (finish_bulk k [] b)" by (rule finish_bulk_inv) (use inv in \<open>simp_all add: bulk_inv_def\<close>)
    with 2 show ?thesis by (simp add: press_bulk_def)
  qed
qed

lemma job_ok_mono: "job_ok n j \<Longrightarrow> n \<le> m \<Longrightarrow> job_ok m j"
  by (simp add: job_ok_def)

lemma bulk_step_inv: "bulk_inv b \<Longrightarrow> bulk_inv (bulk_step b e)"
proof (cases e)
  case (ListEvent le)
  assume "bulk_inv b"
  with ListEvent show ?thesis by (auto simp: bulk_inv_def told_def list_all_iff intro: job_ok_mono)
qed (simp_all add: bulk_answer_inv press_bulk_inv)

lemma bulk_run_inv: "bulk_inv (run_events bulk_step bulk_init es)"
proof (rule run_events_invariant [where P = bulk_inv])
  show "bulk_inv bulk_init" by (simp add: bulk_inv_def bulk_init_def told_def reported_requests_def)
qed (rule bulk_step_inv)

text \<open>What a bar acts on stays within the rows shown, through the presses too.\<close>

definition targets_shown :: "list_view \<Rightarrow> bool" where
  "targets_shown v = (set (visible v) \<subseteq> cid ` set (last_list v) \<and> (bar_shown v \<longrightarrow> set (selected v) \<subseteq> set (visible v)))"

lemma bar_inv_targets: "bar_inv v \<Longrightarrow> targets_shown v"
  by (simp add: bar_inv_def targets_shown_def)

lemma list_step_targets: "targets_shown v \<Longrightarrow> targets_shown (list_step v e)"
proof (cases e)
  case (TickRow i on)
  assume "targets_shown v"
  with TickRow show ?thesis by (auto simp: toggle_row_def targets_shown_def render_bulk_bar_def Let_def)
qed (auto simp: load_list_def type_search_def sort_click_def toggle_all_def clear_selection_def
    intro!: bar_inv_targets render_containers_inv)

lemma finish_bulk_targets: "targets_shown (rows_view b) \<Longrightarrow> targets_shown (rows_view (finish_bulk k rs b))"
  by (simp add: finish_bulk_def targets_shown_def)

lemma bulk_step_targets: "targets_shown (rows_view b) \<Longrightarrow> targets_shown (rows_view (bulk_step b e))"
  by (cases e) (auto simp: list_step_targets press_bulk_def bulk_answer_def Let_def finish_bulk_targets)

lemma bulk_run_targets: "targets_shown (rows_view (run_events bulk_step bulk_init es))"
proof (rule run_events_invariant [where P = "\<lambda>b. targets_shown (rows_view b)"])
  show "targets_shown (rows_view bulk_init)" by (simp add: targets_shown_def bulk_init_def list_init_def)
qed (rule bulk_step_targets)

section \<open>Properties\<close>

text \<open>
  C25: a bulk action loses no outcome. Through any presses, answers in any order, reloads and ticks: every request
  that was sent is either still awaited or counted in exactly one report, each report put up its one toast and
  loaded the list once, no button has two presses under way, and a press sends one request for each selected
  row, all of them rows on screen.
\<close>

theorem bulk_accounts_for_all:
  "let b = run_events bulk_step bulk_init es; v = rows_view b in
     length (asked b) = open_requests (jobs b) + reported_requests (reports b) \<and>
     told b = map (\<lambda>(k, rs). bulk_report k rs) (reports b) \<and> list_reloads b = length (reports b) \<and>
     distinct (map job_key (jobs b)) \<and>
     asked (bulk_step b (PressBulk k True)) =
       asked b @ (if bar_shown v \<and> \<not> button_busy k b then bulk_requests k v else []) \<and>
     (bar_shown v \<longrightarrow> set (selected v) \<subseteq> set (visible v) \<and> set (visible v) \<subseteq> cid ` set (last_list v))"
proof -
  let ?b = "run_events bulk_step bulk_init es"
  have "asked (bulk_step ?b (PressBulk k True)) =
      asked ?b @ (if bar_shown (rows_view ?b) \<and> \<not> button_busy k ?b then bulk_requests k (rows_view ?b) else [])"
    by (simp add: press_bulk_def finish_bulk_def bulk_requests_def bulk_urls_def bulk_delete_urls_def split: bulk_kind.split)
  then show ?thesis using bulk_run_inv [of es] bulk_run_targets [of es]
    unfolding Let_def bulk_inv_def targets_shown_def by blast
qed

theorem bulk_accounts_for_all_witness:
  "set (selected (rows_view (run_events bulk_step bulk_init [ListEvent (Loaded [sample_container]), ListEvent (TickRow ''ab'' True)])))
    \<subseteq> set (visible (rows_view (run_events bulk_step bulk_init [ListEvent (Loaded [sample_container]), ListEvent (TickRow ''ab'' True)])))"
proof -
  have "bar_shown (rows_view (run_events bulk_step bulk_init [ListEvent (Loaded [sample_container]), ListEvent (TickRow ''ab'' True)]))"
    by (simp add: bulk_init_def list_init_def load_list_def render_containers_def filter_containers_def sort_containers_def
        js_sort_def render_bulk_bar_def toggle_row_def set_add_def Let_def)
  with bulk_accounts_for_all [of "[ListEvent (Loaded [sample_container]), ListEvent (TickRow ''ab'' True)]"]
  show ?thesis unfolding Let_def by blast
qed

text \<open>
  The bar is drawn anew while its action runs, and the new buttons know nothing of it: after the poll a second
  press sends the same requests again.
\<close>

theorem bulk_repeats_after_poll:
  assumes "selected v \<noteq> []" and "bar_shown v" and "rows_view b = v" and "jobs b = []" and "asked b = []"
    and "bar_shown (load_list cs v)" and "selected (load_list cs v) = selected v"
  shows "asked (run_events bulk_step b [PressBulk BulkStop True, ListEvent (Loaded cs), PressBulk BulkStop True]) =
    bulk_requests BulkStop v @ bulk_requests BulkStop v"
proof -
  have "bulk_requests BulkStop (load_list cs v) = bulk_requests BulkStop v" using assms(7) by (simp add: bulk_requests_def bulk_urls_def)
  then show ?thesis using assms by (simp add: press_bulk_def button_busy_def redraws_def)
qed

text \<open>A selection made while an action runs is thrown away when it settles, and a bar can ask about no rows at all.\<close>

theorem bulk_drops_later_selection:
  "selected (rows_view (finish_bulk k rs b)) = [] \<and> bar_shown (rows_view (finish_bulk k rs b)) = bar_shown (rows_view b)"
  by (simp add: finish_bulk_def)

text \<open>
  The refresh after an action runs wherever the user is by then. On another page it writes "Loading" over the page,
  and the answer leaves it there.
\<close>

theorem late_reload_wipes_page:
  assumes "page \<noteq> ''containers''"
  shows "main_view (run_events load_step l [GoTo page, CallLoad, LoadOk cs]) = Loading"
  using assms by (simp add: go_to_def load_call_def load_ok_def Let_def)

end
