(* ===== verification/CtxMenu.thy ===== *)
theory CtxMenu
  imports Containers
begin

text \<open>
  The context menu of a container row: how it opens and closes with its listeners on the document, and what an item
  does with the server's answer.
\<close>

section \<open>The menu\<close>

text \<open>
  Menus are numbered as they are made. \<open>menu_on\<close>: the menus on the page; \<open>off_due\<close>: those whose listeners will be
  attached by the timer of \<open>_showCtxMenu\<close>; \<open>off_click\<close>, \<open>off_ctx\<close>: those whose \<open>_off\<close> listens for clicks and for
  context menus.
\<close>

record ctx =
  menu_on :: "nat list"
  menus_made :: nat
  off_due :: "nat list"
  off_click :: "nat list"
  off_ctx :: "nat list"

definition ctx_init :: ctx where
  "ctx_init = \<lparr>menu_on = [], menus_made = 0, off_due = [], off_click = [], off_ctx = []\<rparr>"

definition show_ctx_menu :: "ctx \<Rightarrow> ctx" where
  "show_ctx_menu s = s\<lparr>menu_on := tl (menu_on s) @ [menus_made s], menus_made := Suc (menus_made s), off_due := off_due s @ [menus_made s]\<rparr>"

text \<open>\<open>_off\<close> of one menu, for an event whose target lies in the menu \<open>inside\<close>, if in any.\<close>

definition ctx_off :: "nat option \<Rightarrow> nat \<Rightarrow> ctx \<Rightarrow> ctx" where
  "ctx_off inside i s = (if inside = Some i then s
     else s\<lparr>menu_on := removeAll i (menu_on s), off_click := removeAll i (off_click s), off_ctx := removeAll i (off_ctx s)\<rparr>)"

datatype ctx_event = RightClickRow | RightClickElsewhere | ClickElsewhere | ClickItem | TimerRuns | PressEscape

text \<open>
  A right click on a row runs the row's handler, then the listeners that are attached; an item's own handler
  removes the menu before the listeners see the click, whose target still lies in it. There is no handler for a key.
\<close>

fun ctx_step :: "ctx \<Rightarrow> ctx_event \<Rightarrow> ctx" where
  "ctx_step s RightClickRow = fold (ctx_off None) (off_ctx s) (show_ctx_menu s)"
| "ctx_step s RightClickElsewhere = fold (ctx_off None) (off_ctx s) s"
| "ctx_step s ClickElsewhere = fold (ctx_off None) (off_click s) s"
| "ctx_step s ClickItem = (case menu_on s of [] \<Rightarrow> s
     | i # is \<Rightarrow> fold (ctx_off (Some i)) (off_click s) (s\<lparr>menu_on := is\<rparr>))"
| "ctx_step s TimerRuns = (case off_due s of [] \<Rightarrow> s
     | i # is \<Rightarrow> s\<lparr>off_due := is, off_click := off_click s @ [i], off_ctx := off_ctx s @ [i]\<rparr>)"
| "ctx_step s PressEscape = s"

section \<open>The items\<close>

text \<open>
  What an item of the menu that posts comes to: the answer, \<open>Inl\<close> the error's message; the toasts; whether the list
  is loaded; and whether the rejection is left unhandled. The button of a row reports the error instead.
\<close>

record ctx_outcome =
  ctx_toasts :: "toast list"
  ctx_reload :: bool
  unhandled :: bool

definition ctx_post :: "toast option \<Rightarrow> string + unit \<Rightarrow> ctx_outcome" where
  "ctx_post done ans = (case ans of
      Inr u \<Rightarrow> \<lparr>ctx_toasts = (case done of None \<Rightarrow> [] | Some m \<Rightarrow> [m]), ctx_reload = True, unhandled = False\<rparr>
    | Inl msg \<Rightarrow> \<lparr>ctx_toasts = [], ctx_reload = False, unhandled = True\<rparr>)"

text \<open>The item \<open>Delete\<close>: the question names no state; the requests are those of the row's button.\<close>

definition ctx_delete :: "bool \<Rightarrow> bool \<Rightarrow> container \<Rightarrow> (string \<times> string) list" where
  "ctx_delete confirmed stop_ok c = (if \<not> confirmed then []
     else (if needs_stop c then [(''POST'', ''/api/containers/'' @ cid c @ ''/stop'')] else []) @
       [(''DELETE'', delete_url (''/api/containers/'' @ cid c))])"

section \<open>Lemmas\<close>

lemma fold_ctx_off:
  "fold (ctx_off None) is s = s\<lparr>menu_on := filter (\<lambda>i. i \<notin> set is) (menu_on s),
     off_click := filter (\<lambda>i. i \<notin> set is) (off_click s), off_ctx := filter (\<lambda>i. i \<notin> set is) (off_ctx s)\<rparr>"
proof (induction "is" arbitrary: s)
  case (Cons i js)
  have "filter (\<lambda>k. k \<notin> set js) (removeAll i xs) = filter (\<lambda>k. k \<notin> set (i # js)) xs" for xs :: "nat list"
    by (induction xs) auto
  with Cons show ?case by (simp add: ctx_off_def)
qed simp

lemma ctx_off_inside: "ctx_off (Some i) k s = (if k = i then s else ctx_off None k s)"
  by (simp add: ctx_off_def)

lemma fold_ctx_inside: "fold (ctx_off (Some i)) is s = fold (ctx_off None) (removeAll i is) s"
  by (induction "is" arbitrary: s) (simp_all add: ctx_off_inside)

text \<open>A menu on the page has its listeners attached, or its timer has yet to run.\<close>

definition ctx_inv :: "ctx \<Rightarrow> bool" where
  "ctx_inv s = (length (menu_on s) \<le> 1 \<and> set (menu_on s) \<subseteq> set (off_click s) \<union> set (off_due s) \<and> set (off_click s) = set (off_ctx s) \<and>
     list_all (\<lambda>i. i < menus_made s) (menu_on s @ off_click s @ off_due s))"

lemma show_ctx_menu_inv: "ctx_inv s \<Longrightarrow> ctx_inv (show_ctx_menu s)"
  by (cases "menu_on s") (auto simp: ctx_inv_def show_ctx_menu_def list_all_iff less_SucI)

lemma ctx_inv_off: "ctx_inv s \<Longrightarrow> ctx_inv (fold (ctx_off None) is s)"
  by (auto simp: ctx_inv_def fold_ctx_off list_all_iff intro: le_trans [OF length_filter_le])

lemma ctx_step_inv: "ctx_inv s \<Longrightarrow> ctx_inv (ctx_step s e)"
proof (cases e)
  case ClickItem
  assume inv: "ctx_inv s"
  show ?thesis
  proof (cases "menu_on s")
    case (Cons i js)
    with inv have "ctx_inv (s\<lparr>menu_on := js\<rparr>)" by (auto simp: ctx_inv_def)
    with ClickItem Cons show ?thesis by (simp add: fold_ctx_inside ctx_inv_off)
  qed (use inv ClickItem in simp)
next
  case TimerRuns
  assume "ctx_inv s"
  with TimerRuns show ?thesis by (cases "off_due s") (auto simp: ctx_inv_def)
qed (simp_all add: ctx_inv_off show_ctx_menu_inv)

lemma ctx_run_inv: "ctx_inv (run_events ctx_step ctx_init es)"
proof (rule run_events_invariant [where P = ctx_inv])
  show "ctx_inv ctx_init" by (simp add: ctx_inv_def ctx_init_def)
qed (rule ctx_step_inv)

section \<open>Properties\<close>

text \<open>
  There is one context menu at most, and a click beside it closes it and leaves nothing behind: whatever was
  opened and chosen before, once the timers have run such a click (and a right click away from the rows as well)
  takes the menu off the page and every listener of every menu off the document.
\<close>

theorem click_beside_closes_menu:
  "let s = run_events ctx_step ctx_init es; due = replicate (length (off_due s)) TimerRuns;
       v = run_events ctx_step s (due @ [ClickElsewhere]); w = run_events ctx_step s (due @ [RightClickElsewhere]) in
     length (menu_on s) \<le> 1 \<and> menu_on v = [] \<and> off_click v = [] \<and> off_ctx v = [] \<and>
     menu_on w = [] \<and> off_click w = [] \<and> off_ctx w = []"
proof -
  let ?s = "run_events ctx_step ctx_init es"
  have timers: "off_due (run_events ctx_step s (replicate (length (off_due s)) TimerRuns)) = []" for s
  proof (induction "off_due s" arbitrary: s)
    case (Cons i js)
    from Cons(2) have "off_due s = i # js" by simp
    with Cons(1) [of "ctx_step s TimerRuns"] show ?case by simp
  qed simp
  define t where "t = run_events ctx_step ?s (replicate (length (off_due ?s)) TimerRuns)"
  have "ctx_inv t" unfolding t_def by (rule run_events_invariant [where P = ctx_inv, OF ctx_run_inv ctx_step_inv])
  moreover have "off_due t = []" unfolding t_def by (rule timers)
  ultimately have "\<forall>i \<in> set (menu_on t). i \<in> set (off_click t)" "set (off_click t) = set (off_ctx t)" by (auto simp: ctx_inv_def)
  then show ?thesis using ctx_run_inv [of es]
    by (auto simp: Let_def fold_ctx_off t_def [symmetric] filter_empty_conv ctx_inv_def)
qed

text \<open>Choosing an item leaves the listeners of the menu attached, and Escape does not close a menu.\<close>

theorem item_click_leaves_listeners:
  "let s = run_events ctx_step ctx_init [RightClickRow, TimerRuns, ClickItem] in menu_on s = [] \<and> off_click s = [0] \<and> off_ctx s = [0]"
  and escape_keeps_menu: "menu_on (run_events ctx_step ctx_init [RightClickRow, TimerRuns, PressEscape]) = [0]"
  by (simp_all add: ctx_init_def show_ctx_menu_def ctx_off_def Let_def)

text \<open>
  The menu keeps a failure to itself: no toast and no reload, where the button of the row with the same request
  reports the message. Its deletions take the same requests as the row's.
\<close>

theorem ctx_failure_silent:
  "ctx_toasts (ctx_post done (Inl msg)) = [] \<and> unhandled (ctx_post done (Inl msg)) \<and>
   btn_toasts (run_events (btn_step l p) (make_action_btn l) [Click, Threw msg]) = [(msg, Error)] \<and>
   ctx_delete True ok c = delete_requests ok c"
  by (simp add: ctx_post_def make_action_btn_def btn_restore_def ctx_delete_def delete_requests_def)

end
