(* ===== verification/UnreachablePanel.thy ===== *)
theory UnreachablePanel
  imports Containers PageViews
begin

text \<open>
  The panel that stands in for the container list while the engine is unreachable: \<open>_renderUnreachableDocker\<close> with
  the answer about the tunnel, the reconnect button, the reload it plans, and the elements of the panel and of the
  card with the start commands.
\<close>

section \<open>Which panel\<close>

text \<open>The regular expression \<open>/^unix:\/\/.*(skiff|tunnel)/i\<close>; a newline ends what the dot runs over.\<close>

definition first_line :: "string \<Rightarrow> string" where
  "first_line s = takeWhile (\<lambda>c. c \<noteq> CHR 0x0A \<and> c \<noteq> CHR 0x0D) s"

definition tunnel_socket :: "string \<Rightarrow> bool" where
  "tunnel_socket h = (let l = to_lower h in starts_with ''unix://'' l \<and>
     (has_sub (first_line (drop 7 l)) ''skiff'' \<or> has_sub (first_line (drop 7 l)) ''tunnel''))"

text \<open>
  \<open>detached\<close>: the panel is no longer in \<open>#main\<close>, because another view has replaced it; its answers go on changing it
  unseen. \<open>status_out\<close>: the question about the tunnel is not answered. \<open>reload_due\<close> counts the timers that will
  load the list, \<open>list_loads\<close> the calls made.
\<close>

datatype panel_body = RuntimeHint string | CheckingTunnel | TunnelPanel string "reconnect option"

record unreachable =
  panel_body :: panel_body
  detached :: bool
  status_out :: bool
  reload_due :: nat
  list_loads :: nat

definition render_unreachable :: "string \<Rightarrow> unreachable" where
  "render_unreachable h = (if \<not> tunnel_socket h
     then \<lparr>panel_body = RuntimeHint (unreachable_hint h), detached = False, status_out = False, reload_due = 0, list_loads = 0\<rparr>
     else \<lparr>panel_body = CheckingTunnel, detached = False, status_out = True, reload_due = 0, list_loads = 0\<rparr>)"

definition tunnel_body :: "string \<Rightarrow> tunnel_status \<Rightarrow> panel_body" where
  "tunnel_body h st = (let (msg, btn) = tunnel_hint h st in TunnelPanel msg (if btn then Some reconnect_init else None))"

datatype panel_event = StatusAnswer tunnel_status | PanelButton reconnect_event | ReloadTimer | LeavePanel

definition planned_reload :: "reconnect \<Rightarrow> reconnect_event \<Rightarrow> bool" where
  "planned_reload r e = (e = Reconnected \<and> rc_out r \<noteq> 0)"

fun panel_step :: "string \<Rightarrow> unreachable \<Rightarrow> panel_event \<Rightarrow> unreachable" where
  "panel_step h u (StatusAnswer st) = (if status_out u then u\<lparr>status_out := False, panel_body := tunnel_body h st\<rparr> else u)"
| "panel_step h u (PanelButton e) = (case panel_body u of
      TunnelPanel msg (Some r) \<Rightarrow> if e = ClickReconnect \<and> detached u then u
        else u\<lparr>panel_body := TunnelPanel msg (Some (reconnect_step r e)),
          reload_due := (if planned_reload r e then Suc (reload_due u) else reload_due u)\<rparr>
    | _ \<Rightarrow> u)"
| "panel_step h u ReloadTimer = (if reload_due u = 0 then u else u\<lparr>reload_due := reload_due u - 1, list_loads := Suc (list_loads u)\<rparr>)"
| "panel_step h u LeavePanel = u\<lparr>detached := True\<rparr>"

text \<open>
  The poll goes on while the engine is unreachable: each failed load puts a new panel in the place of the old one, as
  long as no list was ever loaded. The last panel is the one on the page.
\<close>

datatype outage_event = LoadFails | OnPanel nat panel_event | LeavePage

definition outage_step :: "string \<Rightarrow> unreachable list \<Rightarrow> outage_event \<Rightarrow> unreachable list" where
  "outage_step h us e = (case e of
      LoadFails \<Rightarrow> map (\<lambda>u. u\<lparr>detached := True\<rparr>) us @ [render_unreachable h]
    | OnPanel i pe \<Rightarrow> if i < length us then us[i := panel_step h (us ! i) pe] else us
    | LeavePage \<Rightarrow> map (\<lambda>u. u\<lparr>detached := True\<rparr>) us)"

definition reconnects_out :: "unreachable \<Rightarrow> nat" where
  "reconnects_out u = (case panel_body u of TunnelPanel msg (Some r) \<Rightarrow> rc_out r | _ \<Rightarrow> 0)"

section \<open>Elements\<close>

datatype panel_click = CopyCommand string | ReconnectClick

definition badge_css :: "string \<Rightarrow> string" where
  "badge_css tg = ''font-size:10px;padding:1px 8px;border-radius:10px;background:'' @
     (if tg = ''recommended'' then ''var(--badge-running-bg);color:var(--badge-running-fg)''
      else if tg = ''sudo'' then ''var(--badge-stopped-bg);color:var(--badge-stopped-fg)''
      else ''var(--border);color:var(--muted)'')"

text \<open>\<open>cmd\<close> builds the widget of \<open>copyCmd\<close>, which Widgets models.\<close>

definition runtime_row :: "(string \<Rightarrow> panel_click node) \<Rightarrow> runtime \<Rightarrow> panel_click node" where
  "runtime_row cmd r = mk ''div'' []
     [mk ''div'' [] (mk_text ''strong'' [] (rt_name r) #
        (if rt_tag r = [] then [] else [Elem ((new_elem ''span'')\<lparr>css := Some (badge_css (rt_tag r))\<rparr>) (text_nodes (rt_tag r))])),
      mk_text ''div'' [] (rt_descr r), cmd (rt_cmd r)]"

definition start_helper :: "(string \<Rightarrow> panel_click node) \<Rightarrow> string \<Rightarrow> panel_click node" where
  "start_helper cmd platform = mk ''div'' []
     ([mk_text ''p'' [] ''First time? Start your container runtime'',
       mk_text ''p'' [] ''Pick the runtime you have installed (or install one), then click Copy and paste the command in a terminal. No admin rights needed for the recommended options.''] @
      map (runtime_row cmd) (runtimes platform) @
      [mk_text ''p'' [] (''After starting the runtime, reload this page. If you already used one of these and it's running, check that DOCKER_HOST points at its socket (see the '' @
         dquote @ ''Common values'' @ dquote @ '' hint in the setup wizard).'')])"

definition reconnect_nodes :: "reconnect \<Rightarrow> panel_click node" where
  "reconnect_nodes r = mk ''div'' []
     [Elem ((new_elem ''button'')\<lparr>class_name := ''btn primary'', attributes := (if rc_disabled r then [(''disabled'', [])] else []),
        listeners := [(''click'', ReconnectClick)]\<rparr>) (text_nodes (rc_text r)),
      mk_text ''span'' [] (rc_status r)]"

definition unreachable_main :: "(string \<Rightarrow> panel_click node) \<Rightarrow> string \<Rightarrow> unreachable \<Rightarrow> panel_click node list" where
  "unreachable_main cmd platform u = mk ''div'' ''empty-state'' (mk_text ''h3'' [] ''Cannot reach Docker engine'' #
     (case panel_body u of RuntimeHint msg \<Rightarrow> [mk_text ''p'' [] msg] | CheckingTunnel \<Rightarrow> [mk_text ''p'' [] (''Checking tunnel status'' @ ellipsis)]
      | TunnelPanel msg r \<Rightarrow> mk_text ''p'' [] msg # (case r of None \<Rightarrow> [] | Some r \<Rightarrow> [reconnect_nodes r]))) #
     (case panel_body u of RuntimeHint msg \<Rightarrow> [start_helper cmd platform] | _ \<Rightarrow> [])"

section \<open>Lemmas\<close>

text \<open>The button is disabled exactly while its request is out and for good once it has succeeded.\<close>

definition reconnect_inv :: "reconnect \<Rightarrow> bool" where
  "reconnect_inv r = (rc_disabled r = (rc_out r + rc_reloads r = 1) \<and> rc_out r + rc_reloads r \<le> 1)"

lemma reconnect_step_inv: "reconnect_inv r \<Longrightarrow> reconnect_inv (reconnect_step r e)"
  by (cases e) (auto simp: reconnect_inv_def)

lemma reconnect_reloads: "rc_reloads (reconnect_step r e) = rc_reloads r + (if planned_reload r e then 1 else 0)"
  by (cases e) (auto simp: planned_reload_def)

definition panel_inv :: "unreachable \<Rightarrow> bool" where
  "panel_inv u = ((status_out u \<longrightarrow> panel_body u = CheckingTunnel) \<and>
     (case panel_body u of TunnelPanel msg (Some r) \<Rightarrow> reconnect_inv r \<and> reload_due u + list_loads u = rc_reloads r
      | _ \<Rightarrow> reload_due u = 0 \<and> list_loads u = 0))"

lemma panel_inv_render: "panel_inv (render_unreachable h)"
  by (simp add: panel_inv_def render_unreachable_def)

lemma panel_inv_detach: "panel_inv u \<Longrightarrow> panel_inv (u\<lparr>detached := True\<rparr>)"
  by (simp add: panel_inv_def split: panel_body.splits option.splits)

lemma panel_step_inv: "panel_inv u \<Longrightarrow> panel_inv (panel_step h u e)"
proof (cases e)
  case (StatusAnswer st)
  assume "panel_inv u"
  with StatusAnswer show ?thesis
    by (cases st) (auto simp: panel_inv_def tunnel_body_def tunnel_hint_def reconnect_inv_def reconnect_init_def)
next
  case (PanelButton be)
  assume inv: "panel_inv u"
  show ?thesis
  proof (cases "panel_body u")
    case (TunnelPanel msg r)
    with PanelButton inv show ?thesis
      by (cases r) (auto simp: panel_inv_def reconnect_step_inv reconnect_reloads simp del: reconnect_step.simps)
  qed (use PanelButton inv in simp_all)
next
  case ReloadTimer
  assume "panel_inv u"
  with ReloadTimer show ?thesis by (auto simp: panel_inv_def split: panel_body.splits option.splits)
next
  case LeavePanel
  assume "panel_inv u"
  with LeavePanel show ?thesis by (simp add: panel_inv_detach)
qed

lemma outage_inv: "list_all panel_inv (run_events (outage_step h) [] es)"
proof (rule run_events_invariant [where P = "list_all panel_inv"])
  fix us e
  assume "list_all panel_inv us"
  then show "list_all panel_inv (outage_step h us e)"
    by (auto simp: outage_step_def list_all_iff panel_inv_render panel_inv_detach panel_step_inv
        split: outage_event.splits dest!: set_update_subset_insert [THEN subsetD])
qed simp

lemma tunnel_body_keeps: "panel_inv u \<Longrightarrow> reconnects_out u \<le> 1"
  by (auto simp: panel_inv_def reconnects_out_def reconnect_inv_def split: panel_body.splits option.splits)

section \<open>Properties\<close>

text \<open>
  The reconnect button of a panel asks once. However often the panel is replaced and whatever is clicked and
  answered, each panel has at most one request out; it loads the list only after a reconnect that succeeded, and
  then once; and a refusal gives the button back with the server's words beside it.
\<close>

theorem reconnect_asks_once:
  assumes "u \<in> set (run_events (outage_step h) [] es)"
  shows "reconnects_out u \<le> 1 \<and> reload_due u + list_loads u \<le> 1 \<and> (reconnects_out u = 1 \<longrightarrow> reload_due u + list_loads u = 0) \<and>
    (panel_body u = TunnelPanel m (Some r) \<and> rc_out r = 1 \<longrightarrow>
      panel_body (panel_step h u (PanelButton (ReconnectFailed msg help))) = TunnelPanel m (Some (r\<lparr>rc_disabled := False,
        rc_text := ''Reconnect tunnel'', rc_out := 0, rc_status := [CHR 0xE2, CHR 0x9C, CHR 0x97] @ '' '' @
          or_str msg ''Reconnect failed'' @ (case help of None \<Rightarrow> [] | Some hp \<Rightarrow> '' '' @ em_dash @ '' '' @ hp)\<rparr>)))"
proof -
  have inv: "panel_inv u" using outage_inv [of h es] assms by (auto simp: list_all_iff)
  then show ?thesis
    by (auto simp: panel_inv_def reconnects_out_def reconnect_inv_def split: panel_body.splits option.splits)
qed

theorem reconnect_asks_once_witness:
  "reconnects_out (last (run_events (outage_step ''unix:///tmp/skiff.sock'') []
     [LoadFails, OnPanel 0 (StatusAnswer Managed), OnPanel 0 (PanelButton ClickReconnect)])) \<le> 1"
proof -
  have "run_events (outage_step ''unix:///tmp/skiff.sock'') [] [LoadFails, OnPanel 0 (StatusAnswer Managed), OnPanel 0 (PanelButton ClickReconnect)] \<noteq> []"
    by (simp add: outage_step_def)
  from reconnect_asks_once [OF last_in_set [OF this]] show ?thesis by blast
qed

text \<open>
  But the poll puts a fresh panel in its place: while a reconnect is out, the next failed load brings a second
  button, which sends a second request.
\<close>

theorem reconnect_twice_across_panels:
  assumes "tunnel_socket h"
  shows "map reconnects_out (run_events (outage_step h) [] [LoadFails, OnPanel 0 (StatusAnswer Managed), OnPanel 0 (PanelButton ClickReconnect),
    LoadFails, OnPanel 1 (StatusAnswer Managed), OnPanel 1 (PanelButton ClickReconnect)]) = [1, 1]"
  using assms
  by (simp add: outage_step_def render_unreachable_def tunnel_body_def tunnel_hint_def reconnect_init_def reconnects_out_def)

text \<open>The panel parses nothing: addresses, messages and commands are text, given that the copy widget's are.\<close>

theorem panel_parses_nothing:
  assumes "\<And>c. raws (cmd c) = []"
  shows "raws_of (unreachable_main cmd platform u) = []"
proof -
  have "raws (runtime_row cmd r) = []" for r using assms by (simp add: runtime_row_def)
  then have "raws (start_helper cmd platform) = []" by (simp add: start_helper_def raws_of_map)
  moreover have "raws (reconnect_nodes r) = []" for r by (simp add: reconnect_nodes_def)
  ultimately show ?thesis by (simp add: unreachable_main_def split: panel_body.split option.split)
qed

end
