(* ===== verification/TermGeometry.thy ===== *)
theory TermGeometry
  imports Terminal
begin

text \<open>
  Where the terminal's overlay stands: \<open>_positionTermHost\<close> lays the host, which lives at body level, over the slot in
  the detail view, and the listeners of \<open>_attachTermToSlot\<close> repeat it.
\<close>

section \<open>Boxes\<close>

text \<open>Whole pixels. \<open>viewport_box\<close> is what \<open>getBoundingClientRect\<close> gives for a box of the document.\<close>

record box =
  box_left :: int
  box_top :: int
  box_width :: int
  box_height :: int

definition shift_box :: "int \<Rightarrow> int \<Rightarrow> box \<Rightarrow> box" where
  "shift_box dx dy b = b\<lparr>box_left := box_left b + dx, box_top := box_top b + dy\<rparr>"

text \<open>
  \<open>slot_box\<close> is the slot's box in the document, \<open>None\<close> when it is not connected; \<open>host_box\<close> the styles of the host,
  which is positioned absolutely in the document. \<open>tracking\<close>: the handlers of the slot are installed.
\<close>

record overlay =
  scroll_x :: int
  scroll_y :: int
  slot_box :: "box option"
  host_box :: box
  host_on :: bool
  tracking :: bool

definition viewport_box :: "overlay \<Rightarrow> box \<Rightarrow> box" where
  "viewport_box s b = shift_box (- scroll_x s) (- scroll_y s) b"

definition overlay_init :: overlay where
  "overlay_init = \<lparr>scroll_x = 0, scroll_y = 0, slot_box = None, host_box = \<lparr>box_left = 0, box_top = 0, box_width = 0, box_height = 0\<rparr>,
     host_on = False, tracking = False\<rparr>"

definition position_host :: "overlay \<Rightarrow> overlay" where
  "position_host s = (case slot_box s of None \<Rightarrow> s
     | Some b \<Rightarrow> s\<lparr>host_box := shift_box (scroll_x s) (scroll_y s) (viewport_box s b)\<rparr>)"

section \<open>What happens to the page\<close>

text \<open>
  The events the handlers hear: the page scrolls, or an area inside it (scroll events are captured on the way down),
  the window is resized, the slot or the document changes its size where there is a \<open>ResizeObserver\<close>. \<open>SilentShift\<close>
  is a change that moves the slot and resizes nothing. Leaving the tab hides the host; wiping the view alone leaves
  the handlers with a slot that is gone.
\<close>

datatype layout_event = OpenSlot box | ScrollPage int int | ScrollInside int int | WindowResized box | SizeObserved box
  | SilentShift int int | WipeView | LeaveTab

definition heard :: "overlay \<Rightarrow> overlay" where
  "heard s = (if tracking s then position_host s else s)"

fun layout_step :: "bool \<Rightarrow> overlay \<Rightarrow> layout_event \<Rightarrow> overlay" where
  "layout_step has_ro s (OpenSlot b) = (position_host (s\<lparr>slot_box := Some b, host_on := True\<rparr>))\<lparr>tracking := True\<rparr>"
| "layout_step has_ro s (ScrollPage dx dy) = heard (s\<lparr>scroll_x := scroll_x s + dx, scroll_y := scroll_y s + dy\<rparr>)"
| "layout_step has_ro s (ScrollInside dx dy) = heard (s\<lparr>slot_box := map_option (shift_box (- dx) (- dy)) (slot_box s)\<rparr>)"
| "layout_step has_ro s (WindowResized b) = heard (s\<lparr>slot_box := map_option (\<lambda>x. b) (slot_box s)\<rparr>)"
| "layout_step has_ro s (SizeObserved b) = (let s1 = s\<lparr>slot_box := map_option (\<lambda>x. b) (slot_box s)\<rparr> in if has_ro then heard s1 else s1)"
| "layout_step has_ro s (SilentShift dx dy) = s\<lparr>slot_box := map_option (shift_box dx dy) (slot_box s)\<rparr>"
| "layout_step has_ro s WipeView = s\<lparr>slot_box := None\<rparr>"
| "layout_step has_ro s LeaveTab = s\<lparr>slot_box := None, host_on := False, tracking := False\<rparr>"

section \<open>Properties\<close>

text \<open>The host shows where the slot shows.\<close>

definition covers :: "overlay \<Rightarrow> bool" where
  "covers s = (case slot_box s of None \<Rightarrow> True | Some b \<Rightarrow> viewport_box s (host_box s) = viewport_box s b)"

definition unheard :: "bool \<Rightarrow> layout_event \<Rightarrow> bool" where
  "unheard has_ro e = (case e of SilentShift dx dy \<Rightarrow> True | SizeObserved b \<Rightarrow> \<not> has_ro | _ \<Rightarrow> False)"

lemma shift_back [simp]: "shift_box dx dy (shift_box (- dx) (- dy) b) = b"
  by (simp add: shift_box_def)

lemma position_covers: "covers (position_host s)"
  by (simp add: covers_def position_host_def viewport_box_def split: option.split)

text \<open>A connected slot is tracked, so a heard event covers it.\<close>

definition tracked_slot :: "overlay \<Rightarrow> bool" where
  "tracked_slot s = (slot_box s \<noteq> None \<longrightarrow> tracking s \<and> host_on s)"

lemma position_frame [simp]: "slot_box (position_host s) = slot_box s" "tracking (position_host s) = tracking s" "host_on (position_host s) = host_on s"
  by (simp_all add: position_host_def split: option.split)

lemma heard_frame [simp]: "slot_box (heard s) = slot_box s" "tracking (heard s) = tracking s" "host_on (heard s) = host_on s"
  by (simp_all add: heard_def)

lemma tracked_step: "tracked_slot s \<Longrightarrow> tracked_slot (layout_step has_ro s e)"
  by (cases e) (auto simp: tracked_slot_def Let_def)

lemma tracked_run: "tracked_slot (run_events (layout_step has_ro) overlay_init es)"
proof (rule run_events_invariant [where P = tracked_slot])
  show "tracked_slot overlay_init" by (simp add: tracked_slot_def overlay_init_def)
qed (rule tracked_step)

lemma heard_covers:
  assumes "tracked_slot s" and "slot_box x \<noteq> None \<longrightarrow> slot_box s \<noteq> None" and "tracking x = tracking s"
  shows "covers (heard x)"
proof (cases "slot_box x")
  case (Some b)
  with assms have "tracking x" by (simp add: tracked_slot_def)
  then show ?thesis by (simp add: heard_def position_covers)
qed (simp add: covers_def)

lemma covers_step:
  assumes "tracked_slot s" and "\<not> unheard has_ro e"
  shows "covers (layout_step has_ro s e)"
proof (cases e)
  case (OpenSlot b)
  have "covers (position_host (s\<lparr>slot_box := Some b, host_on := True\<rparr>))" by (rule position_covers)
  with OpenSlot show ?thesis by (simp add: covers_def viewport_box_def)
next
  case (ScrollPage dx dy)
  then show ?thesis using heard_covers [OF assms(1)] by simp
next
  case (ScrollInside dx dy)
  then show ?thesis using heard_covers [OF assms(1)] by simp
next
  case (WindowResized b)
  then show ?thesis using heard_covers [OF assms(1)] by simp
next
  case (SizeObserved b)
  with assms(2) have "has_ro" by (simp add: unheard_def)
  with SizeObserved show ?thesis using heard_covers [OF assms(1)] by simp
next
  case (SilentShift dx dy)
  with assms(2) show ?thesis by (simp add: unheard_def)
qed (simp_all add: covers_def)

text \<open>
  The terminal stays on its place. Whatever happened before, after every event the handlers hear the overlay
  shows exactly where the slot shows, with its size; a shift nobody hears is made good by the next event.
\<close>

theorem overlay_covers_slot:
  assumes "\<not> unheard has_ro e" and "slot_box (run_events (layout_step has_ro) overlay_init (es @ [e])) = Some b"
  shows "let s = run_events (layout_step has_ro) overlay_init (es @ [e]) in
    host_on s \<and> viewport_box s (host_box s) = viewport_box s b"
  using covers_step [OF tracked_run [of has_ro es] assms(1)] tracked_run [of has_ro "es @ [e]"] assms(2)
  by (simp add: covers_def tracked_slot_def Let_def)

theorem overlay_covers_slot_witness:
  "host_on (run_events (layout_step True) overlay_init [OpenSlot \<lparr>box_left = 5, box_top = 90, box_width = 800, box_height = 380\<rparr>, SilentShift 0 40, ScrollPage 0 25])"
  using overlay_covers_slot [of True "ScrollPage 0 25" "[OpenSlot \<lparr>box_left = 5, box_top = 90, box_width = 800, box_height = 380\<rparr>, SilentShift 0 40]"
    "\<lparr>box_left = 5, box_top = 130, box_width = 800, box_height = 380\<rparr>"]
  by (simp add: unheard_def shift_box_def overlay_init_def position_host_def heard_def viewport_box_def)

end
