(* ===== verification/ContainerViews.thy ===== *)
theory ContainerViews
  imports BulkActions FileBrowser DetailViews PageViews HubSearch
begin

text \<open>
  The elements of the container views: the list of \<open>renderContainers\<close> with its header, bulk bar, sortable heads and
  rows, and the tabs of a container's detail: inspect, processes, the file browser and the changes. Listeners are the
  actions of the page; fixed styles are left out. \<open>checked\<close> and \<open>title\<close> stand among the attributes.
\<close>

section \<open>The container list\<close>

datatype list_click = TypeSearch | RunNew | BulkPress bulk_kind | ClearBulk | TickAllBox | SortHeader sort_key_name
  | TickBox string | RowMenu string | RowButton string row_command

definition list_header :: "string \<Rightarrow> nat \<Rightarrow> list_click node" where
  "list_header q n = mk ''div'' ''page-header''
     [mk_text ''h2'' [] (''Containers ('' @ show_nat n @ '')''),
      mk ''div'' ''header-actions'' [Elem ((new_elem ''input'')\<lparr>class_name := ''search-bar'',
        attributes := [(''placeholder'', ''Search containers...''), (''value'', q)], listeners := [(''input'', TypeSearch)]\<rparr>) [],
        make_btn ''Run new container'' RunNew ''btn primary'']]"

definition no_containers_html :: string where
  "no_containers_html = ''<h3>No containers</h3><p style='' @ dquote @ ''margin-top:8px'' @ dquote @ ''>No containers found on the connected Docker engine.</p>''"

definition no_matches_html :: string where
  "no_matches_html = ''<h3>No matches</h3><p>No containers match your search.</p>''"

definition list_empty :: "container list \<Rightarrow> list_click node" where
  "list_empty cs = mk ''div'' ''empty-state'' (if cs = [] then [Raw no_containers_html, make_btn ''Run new container'' RunNew ''btn primary'']
     else [Raw no_matches_html])"

definition bulk_bar :: "string list \<Rightarrow> list_click node list" where
  "bulk_bar sel = (if sel = [] then [] else [mk ''div'' ''bulk-bar''
     (mk_text ''span'' [] (show_nat (length sel) @ '' selected'') #
      map (\<lambda>k. make_btn (bulk_label k) (BulkPress k) ''btn small'') [BulkStart, BulkStop, BulkRestart] @
      [make_btn (bulk_label BulkDelete) (BulkPress BulkDelete) ''btn danger small'', make_btn ''Clear'' ClearBulk ''btn small''])])"

definition check_box :: "string \<Rightarrow> (string \<times> string) list \<Rightarrow> bool \<Rightarrow> list_click \<Rightarrow> list_click node" where
  "check_box lbl xtra on act = Elem ((new_elem ''input'')\<lparr>attributes := [(''type'', ''checkbox''), (''aria-label'', lbl)] @ xtra @
     (if on then [(''checked'', [])] else []), listeners := [(''change'', act)]\<rparr>) []"

definition up_arrow :: string where "up_arrow = [CHR 0xE2, CHR 0x96, CHR 0xB2]"
definition down_arrow :: string where "down_arrow = [CHR 0xE2, CHR 0x96, CHR 0xBC]"

definition list_columns :: "(string \<times> sort_key_name option) list" where
  "list_columns = [(''Name'', Some ByName), (''Image'', Some ByImage), (''Status'', Some ByState), (''Ports'', None),
     (''Created'', Some ByCreated), (''Actions'', None)]"

definition list_th :: "sort_key_name \<times> int \<Rightarrow> string \<times> sort_key_name option \<Rightarrow> list_click node" where
  "list_th srt col = (case snd col of None \<Rightarrow> mk_text ''th'' [] (fst col)
     | Some k \<Rightarrow> Elem ((new_elem ''th'')\<lparr>listeners := [(''click'', SortHeader k)]\<rparr>)
         (text_nodes (fst col @ (if fst srt = k then '' '' @ (if snd srt = 1 then up_arrow else down_arrow) else []))))"

definition list_thead :: "sort_key_name \<times> int \<Rightarrow> bool \<Rightarrow> list_click node" where
  "list_thead srt all_on = mk ''thead'' [] [mk ''tr'' []
     (mk ''th'' [] [check_box ''Select all containers'' [(''title'', ''Select all visible'')] all_on TickAllBox] #
      map (list_th srt) list_columns)]"

definition row_btn :: "container \<Rightarrow> row_button \<Rightarrow> list_click node" where
  "row_btn c b = make_btn (button_label b) (RowButton (cid c) (button_command b)) (button_class b)"

text \<open>\<open>Inl\<close>: reading the ports throws while the row is built, before anything of the table is on the page.\<close>

definition container_tr :: "int \<Rightarrow> int \<Rightarrow> string \<Rightarrow> string list \<Rightarrow> container \<Rightarrow> string + list_click node" where
  "container_tr now secs host sel c = res_bind (ports_cell host (ports c)) (\<lambda>ps. Inr
     (Elem ((new_elem ''tr'')\<lparr>listeners := [(''contextmenu'', RowMenu (cid c))]\<rparr>)
       [mk ''td'' [] [check_box (''Select '' @ cname c) [] (cid c \<in> set sel) (TickBox (cid c))],
        mk ''td'' [] [mk_text ''div'' ''container-name'' (cname c), mk_text ''div'' ''container-id'' (cid c)],
        mk_text ''td'' [] (cimage c),
        mk ''td'' [] (mk_text ''span'' (''status '' @ state c) (cstatus c) #
          (if health c \<noteq> [] \<and> health c \<noteq> ''none'' then [mk_text ''span'' (''health-badge '' @ health c) (health c)] else [])),
        mk ''td'' [] ps,
        mk_text ''td'' ''created-time'' (rel_time now (created c)),
        mk ''td'' [] [mk ''div'' ''btn-group'' (map (row_btn c) (row_buttons secs c))]]))"

text \<open>
  \<open>renderContainers\<close>: what it throws, if anything, and what it leaves in \<open>#main\<close>. The bar is drawn for the selection
  cut down to the rows shown, and put before the table.
\<close>

definition list_main :: "int \<Rightarrow> int \<Rightarrow> string \<Rightarrow> container list \<Rightarrow> list_view \<Rightarrow> string option \<times> list_click node list" where
  "list_main now secs host cs v = (let filtered = filter_containers (search v) cs; hdr = list_header (search v) (length cs) in
     if filtered = [] then (None, [hdr, list_empty cs])
     else let shown = sort_containers filtered (fst (csort v)) (snd (csort v)) in
       case res_map (container_tr now secs host (selected v)) shown of Inl err \<Rightarrow> (Some err, [hdr])
       | Inr trs \<Rightarrow> (None, hdr # bulk_bar (selected (render_bulk_bar (map cid shown) v)) @
           [mk ''table'' [] [list_thead (csort v) (list_all (\<lambda>c. cid c \<in> set (selected v)) shown), mk ''tbody'' [] trs]]))"

section \<open>The detail tabs\<close>

datatype detail_click = RenameTo string | CloneWith | Crumb nat | RefreshList | PickUpload | GoUp | OpenEntry nat | DownloadEntry nat | DeleteEntry nat

definition error_p :: "string \<Rightarrow> 'h node list" where
  "error_p msg = [mk_text ''p'' [] msg]"

text \<open>Inspect: the row with the new name and the clone button, then the sections; \<open>form\<close> is the resources' own section.\<close>

definition inspect_panel :: "(string \<Rightarrow> bool) \<Rightarrow> detail_click node \<Rightarrow> inspected \<Rightarrow> dom_error + detail_click node" where
  "inspect_panel valid form d = res_bind
     (res_map (\<lambda>p. case p of Section title es \<Rightarrow> kv_section valid title (map (\<lambda>(l, v). (l, KvPrim v)) es) | ResourceForm \<Rightarrow> Inr form)
       (inspect_parts d))
     (\<lambda>secs. Inr (mk ''div'' ''inspect-panel'' (mk ''div'' []
        [Elem ((new_elem ''input'')\<lparr>attributes := [(''value'', i_name d)]\<rparr>) [],
         make_btn ''Rename'' (RenameTo (i_id d)) ''btn small'',
         make_btn ''Clone with changes'' CloneWith ''btn small''] # secs)))"

definition no_processes_html :: string where
  "no_processes_html = ''<div class='' @ dquote @ ''empty-state'' @ dquote @ ''><p>No processes running (container may be stopped)</p></div>''"

definition top_nodes :: "top_panel \<Rightarrow> detail_click node list" where
  "top_nodes pnl = (case pnl of NoProcesses \<Rightarrow> [Raw no_processes_html] | TopError msg \<Rightarrow> error_p msg
     | ProcessTable titles ps \<Rightarrow> [mk ''table'' [] [mk ''thead'' [] [mk ''tr'' [] (map (mk_text ''th'' []) titles)],
         mk ''tbody'' [] (map (\<lambda>p. mk ''tr'' [] (map (mk_text ''td'' ''mono'') p)) ps)]])"

definition diff_head :: string where
  "diff_head = ''<thead><tr><th>Change</th><th>Path</th></tr></thead>''"

definition diff_nodes :: "diff_panel \<Rightarrow> detail_click node list" where
  "diff_nodes d = (case d of DiffError msg \<Rightarrow> error_p msg
     | NoChanges \<Rightarrow> [mk ''div'' ''empty-state'' [mk_text ''p'' [] ''No files have changed since this container started.'',
         mk_text ''p'' [] (''This view shows the output of `docker diff` '' @ em_dash @ '' paths the container has added, modified, or deleted versus its base image. An empty list means the container has only read from its image layers (typical for a read-only service, or a container that has just started).'')]]
     | Changes ds note \<Rightarrow> [mk ''table'' [] [Raw diff_head, mk ''tbody'' [] (map (\<lambda>(cls, kind, p).
           mk ''tr'' [] [mk ''td'' [] [mk_text ''span'' cls kind], mk_text ''td'' ''mono'' p]) ds)], mk_text ''p'' [] note])"

text \<open>The file browser. The row that goes up is built from markup, the parent's path escaped.\<close>

definition file_icon :: "entry_type \<Rightarrow> string" where
  "file_icon ft = [CHR 0xF0, CHR 0x9F] @ (case ft of Dir \<Rightarrow> [CHR 0x93, CHR 0x81] | Link \<Rightarrow> [CHR 0x94, CHR 0x97] | _ \<Rightarrow> [CHR 0x93, CHR 0x84])"

definition crumb_link :: "nat \<Rightarrow> string \<Rightarrow> detail_click node" where
  "crumb_link i lbl = Elem ((new_elem ''a'')\<lparr>attributes := [(''href'', ''#'')], listeners := [(''click'', Crumb i)]\<rparr>) (text_nodes lbl)"

definition crumb_nodes :: "string \<Rightarrow> detail_click node" where
  "crumb_nodes p = mk ''div'' [] (concat (map (\<lambda>(i, lbl, target). (if i = 0 then [] else if i = 1 then [Text []] else [Text '' / '']) @ [crumb_link i lbl])
     (enumerate 0 (breadcrumb p))))"

definition file_header :: "string \<Rightarrow> detail_click node" where
  "file_header p = mk ''div'' [] [crumb_nodes p, make_btn ''Refresh'' RefreshList ''btn small'',
     make_btn ''Upload file'' PickUpload ''btn small primary'']"

definition up_html :: "string \<Rightarrow> string" where
  "up_html parent = ''<td>'' @ [CHR 0xE2, CHR 0x86, CHR 0xB0] @ ''</td><td colspan='' @ dquote @ ''4'' @ dquote @ '' style='' @ dquote @
     ''color:var(--muted)'' @ dquote @ ''>.. (up to '' @ esc parent @ '')</td>''"

definition up_tr :: "string \<Rightarrow> detail_click node list" where
  "up_tr p = (case up_row p of None \<Rightarrow> []
     | Some parent \<Rightarrow> [Elem ((new_elem ''tr'')\<lparr>listeners := [(''click'', GoUp)]\<rparr>) [Raw (up_html parent)]])"

definition empty_dir_html :: string where
  "empty_dir_html = ''<td></td><td colspan='' @ dquote @ ''4'' @ dquote @ '' style='' @ dquote @
     ''color:var(--muted);padding:12px 0'' @ dquote @ ''>(empty directory)</td>''"

definition file_head :: string where
  "file_head = ''<thead><tr><th style='' @ dquote @ ''width:24px'' @ dquote @ ''></th><th>Name</th><th>Size</th><th>Mode</th><th>Actions</th></tr></thead>''"

definition file_tr :: "nat \<times> dir_entry \<Rightarrow> detail_click node" where
  "file_tr ie = (let (i, e) = ie in mk ''tr'' []
     [mk_text ''td'' [] (file_icon (etype e)),
      mk ''td'' [] [Elem ((new_elem ''span'')\<lparr>listeners := (if etype e = Dir \<or> etype e = Link then [(''click'', OpenEntry i)] else [])\<rparr>)
        (text_nodes (entry_label e))],
      mk_text ''td'' [] (entry_size e), mk_text ''td'' [] (emode e),
      mk ''td'' [] ((if etype e = File \<or> etype e = Link then [make_btn ''Download'' (DownloadEntry i) ''btn small''] else []) @
        (if etype e \<noteq> Other then [make_btn ''Delete'' (DeleteEntry i) ''btn danger small''] else []))])"

definition file_nodes :: "file_panel \<Rightarrow> detail_click node list" where
  "file_nodes v = (case v of FilesLoading \<Rightarrow> [loading_div (''Loading'' @ ellipsis)]
     | ListError p msg \<Rightarrow> file_header p # error_p msg
     | Listing p es trunc \<Rightarrow> file_header p # (if trunc then [mk_text ''p'' [] (truncated_note es trunc)] else []) @
         [mk ''table'' [] [Raw file_head, mk ''tbody'' [] (up_tr p @
            (if es = [] then [mk ''tr'' [] [Raw empty_dir_html]] else map file_tr (enumerate 0 es)))]])"

section \<open>Lemmas\<close>

lemma raw_free_raws: "raw_free n \<Longrightarrow> raws n = []"
  by (induction n) (auto simp: raws_of_def list_all_iff)

lemma raws_of_concat_map: "(\<And>x. raws_of (f x) = []) \<Longrightarrow> raws_of (concat (map f xs)) = []"
  by (induction xs) simp_all

lemma raws_of_mapped: "(\<And>x. x \<in> set xs \<Longrightarrow> raws (f x) = []) \<Longrightarrow> raws_of (map f xs) = []"
  by (induction xs) simp_all

lemma raws_atoms [simp]: "raws (Text s) = []" "actions (Text s) = []"
  by simp_all

lemma ports_cell_quiet: "ports_cell host ps = Inr ns \<Longrightarrow> raws_of ns = [] \<and> actions_of ns = []"
proof -
  have inter: "raws_of (intersperse_nodes (map (port_node host) xs)) = [] \<and> actions_of (intersperse_nodes (map (port_node host) xs)) = []" for xs
    by (induction xs rule: induct_list012) (simp_all add: port_node_def Let_def new_elem_def)
  show "ports_cell host ps = Inr ns \<Longrightarrow> raws_of ns = [] \<and> actions_of ns = []"
    using inter by (auto simp: ports_cell_def res_bind_def split: sum.splits option.splits)
qed

lemma check_box_parts [simp]: "raws (check_box lbl xtra on act) = []" "actions (check_box lbl xtra on act) = [act]"
  by (simp_all add: check_box_def)

lemma row_btn_parts [simp]: "raws (row_btn c b) = []" "actions (row_btn c b) = [RowButton (cid c) (button_command b)]"
  by (simp_all add: row_btn_def)

lemma container_tr_parts:
  assumes "container_tr now secs host sel c = Inr n"
  shows "raws n = [] \<and> actions n = RowMenu (cid c) # TickBox (cid c) # map (RowButton (cid c) \<circ> button_command) (row_buttons secs c)"
proof -
  obtain ps where ps: "ports_cell host (ports c) = (Inr ps :: string + list_click node list)"
    using assms by (cases "ports_cell host (ports c) :: string + list_click node list") (auto simp: container_tr_def res_bind_def)
  with assms ports_cell_quiet [OF ps] show ?thesis
    by (auto simp: container_tr_def res_bind_def raws_of_map actions_of_map comp_def)
qed

lemma list_th_parts [simp]: "raws (list_th srt col) = []"
  "actions (list_th srt col) = (case snd col of None \<Rightarrow> [] | Some k \<Rightarrow> [SortHeader k])"
  by (simp_all add: list_th_def split: option.split)

lemma list_thead_parts [simp]: "raws (list_thead srt b) = []"
  "actions (list_thead srt b) = TickAllBox # map SortHeader [ByName, ByImage, ByState, ByCreated]"
  by (simp_all add: list_thead_def raws_of_map list_columns_def)

lemma bulk_bar_parts [simp]: "raws_of (bulk_bar sel) = []"
  "actions_of (bulk_bar sel) = (if sel = [] then [] else map BulkPress [BulkStart, BulkStop, BulkRestart, BulkDelete] @ [ClearBulk])"
  by (simp_all add: bulk_bar_def)

lemma list_header_parts [simp]: "raws (list_header q n) = []" "actions (list_header q n) = [TypeSearch, RunNew]"
  by (simp_all add: list_header_def)

lemma container_trs_parts:
  "res_map (container_tr now secs host sel) cs = Inr trs \<Longrightarrow> raws_of trs = [] \<and>
    actions_of trs = concat (map (\<lambda>c. RowMenu (cid c) # TickBox (cid c) # map (RowButton (cid c) \<circ> button_command) (row_buttons secs c)) cs)"
proof (induction cs arbitrary: trs)
  case Nil
  then show ?case by simp
next
  case (Cons c cs)
  then obtain n ns where n: "container_tr now secs host sel c = Inr n" and ns: "res_map (container_tr now secs host sel) cs = Inr ns" and "trs = n # ns"
    by (auto simp: res_bind_def split: sum.splits)
  with Cons.IH [OF ns] container_tr_parts [OF n] show ?case by simp
qed

section \<open>Properties of the list\<close>

text \<open>
  Nothing of a container is parsed as markup in the list: whatever names, images, ports, health and states the server
  sends and whatever is searched for, the page is free of parsed strings when there are rows, or if the rows cannot be built, and holds one of
  two constant notices when there are none.
\<close>

theorem container_list_parses_nothing:
  "raws_of (snd (list_main now secs host cs v)) = (if filter_containers (search v) cs \<noteq> [] then []
     else [if cs = [] then no_containers_html else no_matches_html])"
proof (cases "filter_containers (search v) cs = []")
  case True
  then show ?thesis by (simp add: list_main_def list_empty_def)
next
  case False
  let ?shown = "sort_containers (filter_containers (search v) cs) (fst (csort v)) (snd (csort v))"
  show ?thesis
  proof (cases "res_map (container_tr now secs host (selected v)) ?shown")
    case (Inl err)
    with False show ?thesis by (simp add: list_main_def)
  next
    case (Inr trs)
    with False container_trs_parts [OF Inr] show ?thesis by (simp add: list_main_def Let_def)
  qed
qed

text \<open>
  C11: the list offers what its state machine says. When some container matches the search and no port binding is empty,
  the page holds the search field, the run button, the bulk bar exactly when the machine shows it, the heads that sort, and for each
  row in sorted order its menu, its checkbox and the buttons that fit the container's state.
\<close>

theorem container_list_offers:
  assumes "filter_containers (search v) cs \<noteq> []" and "fst (list_main now secs host cs v) = None"
  shows "actions_of (snd (list_main now secs host cs v)) = [TypeSearch, RunNew] @
     (if bar_shown (render_containers cs v) then map BulkPress [BulkStart, BulkStop, BulkRestart, BulkDelete] @ [ClearBulk] else []) @
     TickAllBox # map SortHeader [ByName, ByImage, ByState, ByCreated] @
     concat (map (\<lambda>c. RowMenu (cid c) # TickBox (cid c) # map (RowButton (cid c) \<circ> button_command) (row_buttons secs c))
       (sort_containers (filter_containers (search v) cs) (fst (csort v)) (snd (csort v))))"
proof -
  let ?shown = "sort_containers (filter_containers (search v) cs) (fst (csort v)) (snd (csort v))"
  from assms obtain trs where trs: "res_map (container_tr now secs host (selected v)) ?shown = Inr trs"
    by (cases "res_map (container_tr now secs host (selected v)) ?shown") (simp_all add: list_main_def)
  have "bar_shown (render_containers cs v) = (selected (render_bulk_bar (map cid ?shown) v) \<noteq> [])"
    using assms(1) by (simp add: render_containers_def render_bulk_bar_def Let_def)
  with assms(1) trs container_trs_parts [OF trs] show ?thesis by (simp add: list_main_def Let_def)
qed

theorem container_list_offers_witness:
  "TickBox ''a1'' \<in> set (actions_of (snd (list_main 0 5 ''localhost'' [\<lparr>cid = ''a1'', cname = ''web'', cimage = ''nginx'', state = ''running'',
     cstatus = ''Up'', health = ''none'', ports = [(''80/tcp'', Some [''8080''])], created = None\<rparr>] list_init)))"
proof -
  let ?c = "\<lparr>cid = ''a1'', cname = ''web'', cimage = ''nginx'', state = ''running'', cstatus = ''Up'', health = ''none'',
     ports = [(''80/tcp'', Some [''8080''])], created = None\<rparr>"
  have "ports_cell ''localhost'' (ports ?c) = (Inr [port_node ''localhost'' ''8080:80/tcp''] :: string + list_click node list)"
    by (simp add: ports_cell_def format_ports_def format_port_def)
  then have tr: "\<exists>n. container_tr 0 5 ''localhost'' [] ?c = Inr n"
    by (simp add: container_tr_def)
  have shown: "sort_containers (filter_containers (search list_init) [?c]) (fst (csort list_init)) (snd (csort list_init)) = [?c]"
    by (simp add: filter_containers_def list_init_def sort_containers_def js_sort_def)
  have some: "filter_containers (search list_init) [?c] \<noteq> []"
    by (simp add: filter_containers_def list_init_def)
  from tr shown some have ok: "fst (list_main 0 5 ''localhost'' [?c] list_init) = None"
    by (auto simp: list_main_def Let_def list_init_def res_bind_def)
  show ?thesis unfolding container_list_offers [OF some ok] shown by simp
qed

section \<open>Properties of the tabs\<close>

lemma file_parts [simp]: "raws (crumb_link i lbl) = []" "actions (crumb_link i lbl) = [Crumb i]"
  "raws (file_tr ie) = []" "raws_of (error_p msg) = []" "actions_of (error_p msg) = []"
  by (simp_all add: crumb_link_def file_tr_def error_p_def split_beta)

lemma file_tr_actions: "actions (file_tr (i, e)) = (if etype e = Dir \<or> etype e = Link then [OpenEntry i] else []) @
    (if etype e = File \<or> etype e = Link then [DownloadEntry i] else []) @ (if etype e \<noteq> Other then [DeleteEntry i] else [])"
  by (simp add: file_tr_def)

lemma crumbs_parts: "raws (crumb_nodes p) = [] \<and> actions (crumb_nodes p) = map Crumb [0..<length (breadcrumb p)]"
proof -
  have "raws_of (concat (map (\<lambda>(i, lbl, target). (if i = 0 then [] else if i = 1 then [Text []] else [Text '' / '']) @ [crumb_link i lbl]) (enumerate n xs))) = [] \<and>
      actions_of (concat (map (\<lambda>(i, lbl, target). (if i = 0 then [] else if i = 1 then [Text []] else [Text '' / '']) @ [crumb_link i lbl]) (enumerate n xs))) =
        map Crumb [n..<n + length xs]" for n and xs :: "(string \<times> string) list"
  proof (induction xs arbitrary: n)
    case (Cons x xs)
    have "map Crumb [n..<n + length (x # xs)] = Crumb n # map Crumb [Suc n..<Suc n + length xs]"
      by (simp only: list.size upt_rec [of n] add_Suc_right add_Suc) simp
    with Cons.IH [of "Suc n"] show ?case by (cases x) simp
  qed simp
  from this [of 0 "breadcrumb p"] show ?thesis by (simp add: crumb_nodes_def)
qed

lemma file_header_parts [simp]: "raws (file_header p) = []"
  "actions (file_header p) = map Crumb [0..<length (breadcrumb p)] @ [RefreshList, PickUpload]"
  using crumbs_parts [of p] by (simp_all add: file_header_def)

lemma up_tr_parts [simp]: "raws_of (up_tr p) = (if p \<noteq> ''/'' then [up_html (parent_path p)] else [])"
  "actions_of (up_tr p) = (if p \<noteq> ''/'' then [GoUp] else [])"
  by (simp_all add: up_tr_def up_row_def)

lemma file_rows_raws [simp]: "raws_of (map file_tr xs) = []"
  by (simp add: raws_of_map)

text \<open>
  No name of a file, process or change is parsed as markup in a container's tabs. The strings parsed are constants of
  the source, and the one that mentions a path, the row that goes up, has the same angle brackets whatever the path is.
\<close>

theorem detail_tabs_parse_no_names:
  shows "raws_of (top_nodes pnl) = (if pnl = NoProcesses then [no_processes_html] else [])"
    and "raws_of (diff_nodes d) = (case d of Changes ds note \<Rightarrow> [diff_head] | _ \<Rightarrow> [])"
    and "raws_of (file_nodes v) = (case v of FilesLoading \<Rightarrow> raws (loading_div (''Loading'' @ ellipsis) :: detail_click node) | ListError p msg \<Rightarrow> []
      | Listing p es trunc \<Rightarrow> file_head # (if p \<noteq> ''/'' then [up_html (parent_path p)] else []) @ (if es = [] then [empty_dir_html] else []))"
    and "angles (up_html p) = angles (up_html q)"
proof -
  show "raws_of (top_nodes pnl) = (if pnl = NoProcesses then [no_processes_html] else [])"
    by (cases pnl) (simp_all add: top_nodes_def raws_of_map)
  show "raws_of (diff_nodes d) = (case d of Changes ds note \<Rightarrow> [diff_head] | _ \<Rightarrow> [])"
    by (cases d) (simp_all add: diff_nodes_def raws_of_map split_beta)
  show "raws_of (file_nodes v) = (case v of FilesLoading \<Rightarrow> raws (loading_div (''Loading'' @ ellipsis) :: detail_click node) | ListError p msg \<Rightarrow> []
      | Listing p es trunc \<Rightarrow> file_head # (if p \<noteq> ''/'' then [up_html (parent_path p)] else []) @ (if es = [] then [empty_dir_html] else []))"
    by (cases v) (simp_all add: file_nodes_def)
  show "angles (up_html p) = angles (up_html q)"
    by (simp add: up_html_def)
qed

lemma entry_actions_in: "OpenEntry i \<in> set (actions_of (map file_tr (enumerate n es))) \<longleftrightarrow>
    n \<le> i \<and> i < n + length es \<and> (etype (es ! (i - n)) = Dir \<or> etype (es ! (i - n)) = Link)"
proof (induction es arbitrary: n)
  case (Cons e es)
  show ?case
  proof (cases "i = n")
    case True
    then show ?thesis using Cons.IH [of "Suc n"] by (auto simp: file_tr_actions)
  next
    case False
    then have "n \<le> i \<Longrightarrow> (e # es) ! (i - n) = es ! (i - Suc n)" by (simp add: nth_Cons')
    with False show ?thesis using Cons.IH [of "Suc n"] by (auto simp: file_tr_actions)
  qed
qed simp

lemma entry_actions_only: "a \<in> set (actions_of (map file_tr xs)) \<Longrightarrow> (\<exists>i. a = OpenEntry i \<or> a = DownloadEntry i \<or> a = DeleteEntry i)"
proof (induction xs)
  case (Cons x xs)
  then show ?case by (cases x) (auto simp: file_tr_actions split: if_splits)
qed simp

text \<open>
  C38: the file browser offers exactly the moves of its machine: a crumb, the row that goes up and a name can be clicked
  if and only if the machine has a place for that click to go, in each of its panels.
\<close>

theorem file_browser_offers_its_moves:
  "(OpenEntry i \<in> set (actions_of (file_nodes v)) \<longleftrightarrow> entry_target v i \<noteq> None) \<and>
   (GoUp \<in> set (actions_of (file_nodes v)) \<longleftrightarrow> up_target v \<noteq> None) \<and>
   (Crumb i \<in> set (actions_of (file_nodes v)) \<longleftrightarrow> crumb_target v i \<noteq> None)"
proof (intro conjI)
  show "OpenEntry i \<in> set (actions_of (file_nodes v)) \<longleftrightarrow> entry_target v i \<noteq> None"
    using entry_actions_in [of i 0] by (cases v) (auto simp: file_nodes_def entry_target_def entry_opens_def loading_div_def)
  show "GoUp \<in> set (actions_of (file_nodes v)) \<longleftrightarrow> up_target v \<noteq> None"
    by (cases v) (auto simp: file_nodes_def up_target_def up_row_def loading_div_def dest: entry_actions_only)
  show "Crumb i \<in> set (actions_of (file_nodes v)) \<longleftrightarrow> crumb_target v i \<noteq> None"
    by (cases v) (auto simp: file_nodes_def crumb_target_def panel_path_def loading_div_def dest: entry_actions_only)
qed

text \<open>
  The inspect tab is always built, and parses nothing but what the form of the resources does.
\<close>

lemma res_map_quiet:
  assumes "\<And>x. x \<in> set xs \<Longrightarrow> \<exists>y. f x = Inr y \<and> (raws y = [] \<or> y = form)"
  shows "\<exists>ys. res_map f xs = Inr ys \<and> set (raws_of ys) \<subseteq> set (raws form)"
  using assms
proof (induction xs)
  case (Cons x xs)
  then obtain y ys where "f x = Inr y" "raws y = [] \<or> y = form" "res_map f xs = Inr ys" "set (raws_of ys) \<subseteq> set (raws form)"
    by (metis list.set_intros)
  then show ?case by auto
qed simp

theorem inspect_panel_total:
  "\<exists>n. inspect_panel valid form d = Inr n \<and> set (raws n) \<subseteq> set (raws form)"
proof -
  let ?f = "\<lambda>p. case p of Section title es \<Rightarrow> kv_section valid title (map (\<lambda>(l, v). (l, KvPrim v)) es) | ResourceForm \<Rightarrow> Inr form"
  have "\<exists>y. ?f p = Inr y \<and> (raws y = [] \<or> y = form)" for p
  proof (cases p)
    case (Section title es)
    have "list_all (value_raw_free \<circ> snd) (map (\<lambda>(l, v). (l, KvPrim v)) es :: (string \<times> detail_click kv_value) list)"
      by (simp add: list_all_iff value_raw_free_def split_beta)
    with kv_section_total [of valid title "map (\<lambda>(l, v). (l, KvPrim v)) es :: (string \<times> detail_click kv_value) list"]
    obtain rs where "?f p = Inr (Elem ((new_elem ''div'')\<lparr>class_name := ''inspect-section''\<rparr>) (Elem (new_elem ''h4'') (text_nodes title) # rs))"
      and "list_all raw_free rs"
      using Section by auto
    moreover from this(2) have "raws_of rs = []"
      by (induction rs) (simp_all add: raw_free_raws)
    ultimately show ?thesis by auto
  qed simp
  then obtain ys where "res_map ?f (inspect_parts d) = Inr ys" "set (raws_of ys) \<subseteq> set (raws form)"
    using res_map_quiet [of "inspect_parts d" ?f form] by blast
  then show ?thesis by (auto simp: inspect_panel_def)
qed

end
