(* ===== verification/LoginCard.thy ===== *)
theory LoginCard
  imports Session I18n PageViews Registry
begin

text \<open>
  The sign-in card of \<open>showLogin\<close> beside the code that goes on running around it: what is typed into the card, the pages whose
  load was refused with 401 and the polls that were armed before. Also the address and the first message of a WebSocket.
\<close>

section \<open>The card\<close>

text \<open>\<open>marked\<close>: the field has the red border of a refused blank token. Each call of \<open>showLogin\<close> makes a new card.\<close>

record card =
  typed :: string
  marked :: bool

definition new_card :: card where
  "new_card = \<lparr>typed = [], marked = False\<rparr>"

datatype page_body = CardUp card | PageLoading string | PageFailed string | PageShown string

text \<open>
  \<open>at_page\<close> is the page entered last and \<open>polls\<close> says that its interval runs; \<open>list_known\<close>: a container list was loaded since
  it was entered; \<open>config_due\<close> counts the requests for \<open>/api/config\<close> a sign-in has sent and that are not answered.
  \<open>sess\<close> is the session of Session.
\<close>

record client =
  sess :: session
  body_of :: page_body
  at_page :: string
  polls :: bool
  list_known :: bool
  config_due :: nat

definition signed_in :: "session \<Rightarrow> string \<Rightarrow> client" where
  "signed_in s p = \<lparr>sess = s, body_of = PageShown p, at_page = p, polls = False, list_known = False, config_due = 0\<rparr>"

text \<open>What the failure branch of a page's loader writes; \<open>None\<close>: it leaves the page as it is.\<close>

definition load_failure :: "bool \<Rightarrow> string \<Rightarrow> string \<Rightarrow> page_body option" where
  "load_failure listed p msg =
     (if p = ''containers'' then (if msg = ''Authentication required'' \<or> listed then None else Some (PageFailed ''Cannot reach Docker engine''))
      else Some (PageFailed
       (if p = ''dashboard'' then ''Failed to load overview: '' @ msg
        else if p = ''templates'' then ''Apps unavailable: '' @ msg
        else if p = ''volumes'' then t skiff_strings ''common.error'' None @ '': '' @ msg
        else if p = ''settings'' then ''Configuration unavailable: '' @ or_str msg ''fetch failed''
        else if p = ''compose'' then ''Could not load stacks: '' @ or_str msg ''failed to load stacks''
        else ''Failed: '' @ msg)))"

text \<open>
  \<open>apiFetch\<close> shows the card by itself when the session has expired, after its clean-up has ended the intervals, and when the
  server answers 401. A request that fails otherwise leaves the page alone.
\<close>

definition refused :: "net_result \<Rightarrow> bool" where
  "refused res = (case res of Responded r \<Rightarrow> status r = 401 | _ \<Rightarrow> False)"

definition fetch :: "int \<Rightarrow> net_result \<Rightarrow> client \<Rightarrow> (api_error + json) \<times> client" where
  "fetch now res c = (let expired = fst (check_session_expiry now (sess c));
       (ans, s) = api_fetch now now \<lparr>opt_headers = [], opt_timeout = 0\<rparr> (\<lambda>_. res) (sess c) in
     (ans, c\<lparr>sess := s, body_of := (if expired \<or> refused res then CardUp new_card else body_of c), polls := (polls c \<and> \<not> expired)\<rparr>))"

definition page_polls :: "string \<Rightarrow> bool" where
  "page_polls p = (p = ''containers'' \<or> p = ''dashboard'' \<or> p = ''system'')"

text \<open>The load of page \<open>p\<close>, while it is the current page, and the tick of its poll. Only the container list has the same code for both.\<close>

definition load_page :: "int \<Rightarrow> string \<Rightarrow> net_result \<Rightarrow> client \<Rightarrow> client" where
  "load_page now p res c = (case fetch now res c of
      (Inr b, c') \<Rightarrow> c'\<lparr>body_of := PageShown p, polls := page_polls p, list_known := (p = ''containers'')\<rparr>
    | (Inl e, c') \<Rightarrow> c'\<lparr>body_of := (case load_failure (list_known c') p (err_message e) of None \<Rightarrow> body_of c' | Some v \<Rightarrow> v),
        polls := (if p = ''containers'' then err_message e \<noteq> ''Authentication required'' else polls c')\<rparr>)"

definition poll_page :: "int \<Rightarrow> net_result \<Rightarrow> client \<Rightarrow> client" where
  "poll_page now res c = (if \<not> polls c then c else if at_page c = ''containers'' then load_page now ''containers'' res c
     else case fetch now res c of (Inl e, c') \<Rightarrow> c' | (Inr b, c') \<Rightarrow> (if at_page c = ''dashboard'' then c'\<lparr>body_of := PageShown (at_page c)\<rparr> else c'))"

text \<open>\<open>showPage\<close> with the answer to the page's load: the intervals are cleared and the list is forgotten first.\<close>

definition open_page :: "int \<Rightarrow> string \<Rightarrow> net_result \<Rightarrow> client \<Rightarrow> client" where
  "open_page now p res c = load_page now p res (c\<lparr>at_page := p, body_of := PageLoading p, polls := False, list_known := False\<rparr>)"

text \<open>
  The sign-in button: a blank token marks the field; any other is stored, which starts a session, and \<open>/api/config\<close> is asked for. The
  session has just begun, so the request is not held back by its expiry. The card is still there until the answer comes.
\<close>

definition press_sign_in :: "int \<Rightarrow> client \<Rightarrow> client" where
  "press_sign_in now c = (case body_of c of
      CardUp k \<Rightarrow> (case login_click now (typed k) (sess c) of
          None \<Rightarrow> c\<lparr>body_of := CardUp (k\<lparr>marked := True\<rparr>)\<rparr>
        | Some s \<Rightarrow> c\<lparr>sess := s, config_due := Suc (config_due c)\<rparr>)
    | _ \<Rightarrow> c)"

text \<open>
  The answer to \<open>/api/config\<close>, \<open>cfg\<close> the fields of its body when it has any. A failure is swallowed (a 401 has taken the token and put a
  card by then); in every case the container page is opened, with \<open>res\<close> the answer to its list.
\<close>

definition config_answer :: "int \<Rightarrow> net_result \<Rightarrow> app_cfg option \<Rightarrow> net_result \<Rightarrow> client \<Rightarrow> client" where
  "config_answer now ans cfg res c = (if config_due c = 0 then c else
     let (r, s) = api_handle now ans (sess c);
         s' = (case r of Inl e \<Rightarrow> s | Inr b \<Rightarrow> (case cfg of None \<Rightarrow> s | Some f \<Rightarrow> login_config (\<lambda>k. t skiff_strings k None) now f s)) in
     open_page now ''containers'' res (c\<lparr>sess := s', config_due := config_due c - 1,
       body_of := (if refused ans then CardUp new_card else body_of c)\<rparr>))"

text \<open>The idle timer of the session: without a token it does nothing.\<close>

definition idle_fires :: "int \<Rightarrow> client \<Rightarrow> client" where
  "idle_fires now c = (if api_token (sess c) = [] then c
     else c\<lparr>sess := idle_expired now (sess c), body_of := CardUp new_card, polls := False\<rparr>)"

text \<open>
  What happens on the page: typing and pressing on the card, the tick of the page's poll, the answer to a sign-in's request, a click
  in the sidebar and the idle timer. A load is taken together with its answer.
\<close>

datatype card_event = TypeToken string | PressEnter | ClickSignIn | PollTick net_result
  | ConfigAnswer net_result "app_cfg option" net_result | OpenPage string net_result | IdleFires

fun card_step :: "int \<Rightarrow> client \<Rightarrow> card_event \<Rightarrow> client" where
  "card_step now c (TypeToken v) = (case body_of c of CardUp k \<Rightarrow> c\<lparr>body_of := CardUp \<lparr>typed = v, marked = False\<rparr>\<rparr> | _ \<Rightarrow> c)"
| "card_step now c PressEnter = press_sign_in now c"
| "card_step now c ClickSignIn = press_sign_in now c"
| "card_step now c (PollTick res) = poll_page now res c"
| "card_step now c (ConfigAnswer ans cfg res) = config_answer now ans cfg res c"
| "card_step now c (OpenPage p res) = (if p \<in> set landing_pages then open_page now p res c else c)"
| "card_step now c IdleFires = idle_fires now c"

text \<open>A history is a list of events with the times at which they happen.\<close>

definition card_run :: "client \<Rightarrow> (int \<times> card_event) list \<Rightarrow> client" where
  "card_run = run_events (\<lambda>c te. card_step (fst te) c (snd te))"

section \<open>Its elements\<close>

datatype login_click = TypedToken | EnterKey | SignInButton

definition quoted :: "(string \<times> string) list \<Rightarrow> string" where
  "quoted kvs = concat (map (\<lambda>(k, v). '' '' @ k @ ''='' @ dquote @ v @ dquote) kvs)"

definition brand_svg :: string where
  "brand_svg = ''<svg'' @ quoted [(''width'', ''40''), (''height'', ''40''), (''viewBox'', ''0 0 28 28''), (''fill'', ''none'')] @ ''>'' @
     ''<rect'' @ quoted [(''width'', ''28''), (''height'', ''28''), (''rx'', ''6''), (''fill'', ''#0d9488'')] @ ''/>'' @
     ''<rect'' @ quoted [(''x'', ''6''), (''y'', ''6''), (''width'', ''16''), (''height'', ''16''), (''rx'', ''2''), (''stroke'', ''white''),
       (''stroke-width'', ''1.5''), (''fill'', ''none'')] @ ''/>'' @
     concat (map (\<lambda>y. ''<line'' @ quoted [(''x1'', ''6''), (''y1'', y), (''x2'', ''22''), (''y2'', y), (''stroke'', ''white''),
       (''stroke-width'', ''1.5'')] @ ''/>'') [''11'', ''16'']) @
     concat (map (\<lambda>y. ''<circle'' @ quoted [(''cx'', ''9''), (''cy'', y), (''r'', ''1''), (''fill'', ''white'')] @ ''/>'') [''8.5'', ''13.5'', ''18.5'']) @
     ''</svg>''"

definition card_note :: string where
  "card_note = ''Enter the API token you saved during setup.<br><span'' @ quoted [(''style'', ''font-size:11px'')] @
     ''>If you chose &ldquo;Save .env&rdquo;, the token is in that file as <code>API_TOKEN=</code>.</span>''"

definition login_main :: "card \<Rightarrow> login_click node list" where
  "login_main k = [mk ''div'' [] [mk ''div'' [] [Raw brand_svg, mk_text ''span'' [] ''SKIFF Container Manager''],
     mk ''div'' [] [mk_text ''h3'' [] ''Sign in'', mk ''p'' [] [Raw card_note],
       Elem ((new_elem ''label'')\<lparr>attributes := [(''for'', ''login-token'')]\<rparr>) (text_nodes ''API Token''),
       Elem ((new_elem ''input'')\<lparr>attributes := [(''type'', ''password''), (''placeholder'', ''Paste your API token''), (''id'', ''login-token''),
         (''aria-label'', ''API Token''), (''autocomplete'', ''current-password'')],
         css := (if marked k then Some ''border-color:var(--red)'' else None),
         listeners := [(''keydown'', EnterKey), (''input'', TypedToken)]\<rparr>) [],
       make_btn ''Sign in'' SignInButton ''btn primary'']]]"

section \<open>WebSockets\<close>

text \<open>The token is the first message of a socket and no part of its address.\<close>

definition ws_url :: "string \<Rightarrow> string \<Rightarrow> string \<Rightarrow> string" where
  "ws_url protocol host path = (if protocol = ''https:'' then ''wss:'' else ''ws:'') @ ''//'' @ host @ path"

definition ws_auth_on_open :: "session \<Rightarrow> string list" where
  "ws_auth_on_open s = (if api_token s \<noteq> [] then [''AUTH '' @ api_token s] else [])"

section \<open>Properties\<close>

lemma fetch_refused:
  assumes "status r = 401" and "\<not> fst (check_session_expiry now (sess c))"
  shows "\<exists>e s. fetch now (Responded r) c = (Inl e, c\<lparr>sess := s, body_of := CardUp new_card\<rparr>) \<and> err_message e = ''Authentication required'' \<and>
     api_token s = [] \<and> length (toasts_shown s) = Suc (length (toasts_shown (sess c))) \<and> session_start s = session_start (sess c)
     \<and> absolute_ms s = absolute_ms (sess c)"
proof -
  have open_session: "check_session_expiry now (sess c) = (False, sess c)"
    using assms(2) by (auto simp: check_session_expiry_def Let_def split: if_splits)
  define s where "s = show_login (say (''Authentication failed '' @ em_dash @ '' check your API token'') Error ((sess c)\<lparr>api_token := []\<rparr>))"
  have "fetch now (Responded r) c = (Inl (plain_error ''Authentication required''), c\<lparr>sess := s, body_of := CardUp new_card\<rparr>)"
    using assms(1) open_session unfolding s_def
    by (simp add: fetch_def api_fetch_def api_prepare_def api_handle_def refused_def plain_error_def Let_def)
  moreover have "api_token s = []" "length (toasts_shown s) = Suc (length (toasts_shown (sess c)))" "session_start s = session_start (sess c)"
    "absolute_ms s = absolute_ms (sess c)"
    by (simp_all add: s_def show_login_def say_def)
  ultimately show ?thesis by (auto simp: plain_error_def)
qed

text \<open>What was typed last, if anything was typed since, and whether the user has pressed on with a token or opened a page.\<close>

fun last_typed :: "string \<Rightarrow> (int \<times> card_event) list \<Rightarrow> string" where
  "last_typed v [] = v"
| "last_typed v (te # es) = last_typed (case snd te of TypeToken w \<Rightarrow> w | _ \<Rightarrow> v) es"

fun leaves_card :: "string \<Rightarrow> (int \<times> card_event) list \<Rightarrow> bool" where
  "leaves_card v [] = False"
| "leaves_card v (te # es) = (case snd te of
      TypeToken w \<Rightarrow> leaves_card w es
    | PressEnter \<Rightarrow> trim v \<noteq> [] \<or> leaves_card v es
    | ClickSignIn \<Rightarrow> trim v \<noteq> [] \<or> leaves_card v es
    | OpenPage p res \<Rightarrow> p \<in> set landing_pages \<or> leaves_card v es
    | _ \<Rightarrow> leaves_card v es)"

definition waiting_card :: "string \<Rightarrow> client \<Rightarrow> bool" where
  "waiting_card v c \<longleftrightarrow> \<not> polls c \<and> config_due c = 0 \<and> api_token (sess c) = [] \<and> (\<exists>m. body_of c = CardUp \<lparr>typed = v, marked = m\<rparr>)"

lemma waiting_card_step:
  assumes "waiting_card v c" and "\<not> leaves_card v ((now, e) # es)"
  shows "waiting_card (case e of TypeToken w \<Rightarrow> w | _ \<Rightarrow> v) (card_step now c e) \<and> \<not> leaves_card (case e of TypeToken w \<Rightarrow> w | _ \<Rightarrow> v) es"
  using assms
  by (cases e) (auto simp: waiting_card_def press_sign_in_def poll_page_def config_answer_def idle_fires_def login_click_def)

lemma quiet_card:
  assumes "waiting_card v c" and "\<not> leaves_card v es"
  shows "waiting_card (last_typed v es) (card_run c es)"
  using assms
proof (induction es arbitrary: c v)
  case (Cons te es)
  obtain now e where te: "te = (now, e)" by (cases te)
  from Cons.IH [OF conjunct1 [OF waiting_card_step] conjunct2 [OF waiting_card_step]] Cons.prems
  show ?case unfolding te by (simp add: card_run_def)
qed (simp add: card_run_def)

lemma expired_message: "fst (check_session_expiry now s) \<Longrightarrow> fst (api_fetch now later opts net s) = Inl (plain_error ''Session expired'')"
  by (cases "check_session_expiry now s") (simp add: api_fetch_def api_prepare_def)

lemma list_card_refused:
  assumes "body_of (open_page now ''containers'' res c) = CardUp k"
  shows "refused res \<and> k = new_card"
  using assms expired_message [of now "sess c" now "\<lparr>opt_headers = [], opt_timeout = 0\<rparr>" "\<lambda>_. res"]
  by (auto simp: open_page_def load_page_def load_failure_def fetch_def plain_error_def Let_def
      split: prod.splits sum.splits if_splits option.splits)

lemma open_page_keeps [simp]: "at_page (open_page now p res c) = p" "config_due (open_page now p res c) = config_due c"
  by (simp_all add: open_page_def load_page_def fetch_def Let_def split: prod.split sum.split)

lemma config_answer_opens: "config_due c \<noteq> 0 \<Longrightarrow>
    \<exists>c'. config_answer now ans cfg res c = open_page now ''containers'' res c' \<and> config_due c' = config_due c - 1"
  by (auto simp: config_answer_def Let_def split: prod.split)

lemma sign_in_from_card:
  assumes "waiting_card v c"
  shows "\<exists>k. body_of c = CardUp k \<and> typed k = v \<and> body_of (card_step at1 c ClickSignIn) = CardUp (k\<lparr>marked := marked k \<or> trim (typed k) = []\<rparr>) \<and>
     (trim (typed k) \<noteq> [] \<longrightarrow> api_token (sess (card_step at1 c ClickSignIn)) = trim (typed k) \<and>
        at_page (card_step at2 (card_step at1 c ClickSignIn) (ConfigAnswer ans cfg res)) = ''containers'' \<and>
        config_due (card_step at2 (card_step at1 c ClickSignIn) (ConfigAnswer ans cfg res)) = 0 \<and>
        (\<forall>k'. body_of (card_step at2 (card_step at1 c ClickSignIn) (ConfigAnswer ans cfg res)) = CardUp k' \<longrightarrow> refused res \<and> k' = new_card))"
proof -
  obtain m where k: "body_of c = CardUp \<lparr>typed = v, marked = m\<rparr>" "config_due c = 0" using assms by (auto simp: waiting_card_def)
  let ?c1 = "card_step at1 c ClickSignIn"
  have c1: "config_due ?c1 = 1" "api_token (sess ?c1) = trim v" if "trim v \<noteq> []"
    using that k by (simp_all add: press_sign_in_def login_click_def set_token_def reset_idle_timer_def hide_banner_def)
  show ?thesis
  proof (intro exI [of _ "\<lparr>typed = v, marked = m\<rparr>"] conjI impI allI)
    show "body_of ?c1 = CardUp (\<lparr>typed = v, marked = m\<rparr>\<lparr>marked := marked \<lparr>typed = v, marked = m\<rparr> \<or> trim (typed \<lparr>typed = v, marked = m\<rparr>) = []\<rparr>)"
      using k by (simp add: press_sign_in_def login_click_def)
  next
    fix k' assume t: "trim (typed \<lparr>typed = v, marked = m\<rparr>) \<noteq> []"
      and b: "body_of (card_step at2 ?c1 (ConfigAnswer ans cfg res)) = CardUp k'"
    have "config_due ?c1 \<noteq> 0" using c1(1) t by simp
    from config_answer_opens [OF this] obtain c' where "card_step at2 ?c1 (ConfigAnswer ans cfg res) = open_page at2 ''containers'' res c'"
      by (metis card_step.simps(5))
    with b list_card_refused show "refused res" "k' = new_card" by metis+
  next
    assume t: "trim (typed \<lparr>typed = v, marked = m\<rparr>) \<noteq> []"
    have "config_due ?c1 \<noteq> 0" using c1(1) t by simp
    from config_answer_opens [OF this, of at2 ans cfg res] c1(1) t
    show "at_page (card_step at2 ?c1 (ConfigAnswer ans cfg res)) = ''containers''"
      "config_due (card_step at2 ?c1 (ConfigAnswer ans cfg res)) = 0" by auto
  qed (use k c1 in simp_all)
qed



text \<open>
  Every other page replaces the card it has just been given: the failure branch of its loader writes its own text over it, and the
  token is gone, so there is nothing to sign in with until another page is opened.
\<close>

theorem refused_page_loses_card:
  assumes "status r = 401" and "\<not> fst (check_session_expiry now (sess c))" and "p \<noteq> ''containers''"
  shows "\<exists>msg. body_of (load_page now p (Responded r) c) = PageFailed msg \<and> has_sub msg ''Authentication required'' \<and>
     api_token (sess (load_page now p (Responded r) c)) = []"
proof -
  obtain e s where f: "fetch now (Responded r) c = (Inl e, c\<lparr>sess := s, body_of := CardUp new_card\<rparr>)" "err_message e = ''Authentication required''" "api_token s = []"
    using fetch_refused [OF assms(1,2)] by blast
  have sub: "has_sub (pre @ '': Authentication required'') ''Authentication required''" for pre
    unfolding includes_iff by (rule exI [of _ "pre @ '': ''"]) simp
  from f assms(3) show ?thesis by (simp add: load_page_def load_failure_def sub or_str_def)
qed

text \<open>
  A poll that was armed before the refusal goes on: on the dashboard and the system page each tick is refused again and puts a new, empty card
  in the place of the one the user is typing into, with one more error toast, and the poll stays armed.
\<close>

theorem refused_poll_empties_card:
  assumes "status r = 401" and "\<not> fst (check_session_expiry now (sess c))" and "at_page c \<noteq> ''containers''" and "polls c"
  shows "body_of (card_step now c (PollTick (Responded r))) = CardUp new_card \<and> polls (card_step now c (PollTick (Responded r))) \<and>
     length (toasts_shown (sess (card_step now c (PollTick (Responded r))))) = Suc (length (toasts_shown (sess c)))"
proof -
  obtain e s where "fetch now (Responded r) c = (Inl e, c\<lparr>sess := s, body_of := CardUp new_card\<rparr>)"
    "length (toasts_shown s) = Suc (length (toasts_shown (sess c)))"
    using fetch_refused [OF assms(1,2)] by blast
  with assms(3,4) show ?thesis by (simp add: poll_page_def)
qed

text \<open>Enter and the button are the same; a blank token is refused with a mark, which typing takes away, and nothing else changes.\<close>

theorem blank_token_refused:
  assumes "body_of c = CardUp k" and "trim (typed k) = []"
  shows "card_step now c PressEnter = c\<lparr>body_of := CardUp (k\<lparr>marked := True\<rparr>)\<rparr>"
    and "card_step now c ClickSignIn = card_step now c PressEnter"
    and "card_step now (card_step now c PressEnter) (TypeToken v) = c\<lparr>body_of := CardUp \<lparr>typed = v, marked = False\<rparr>\<rparr>"
  using assms by (simp_all add: press_sign_in_def login_click_def)

text \<open>The card's markup is two constants of the source.\<close>

theorem login_markup: "raws_of (login_main k) = [brand_svg, card_note]"
  by (simp add: login_main_def)

end
