(* ===== verification/SessionEnd.thy ===== *)
theory SessionEnd
  imports LoginCard Palette Undo
begin

text \<open>
  The end of a session and what outlives it: \<open>sessionCleanup\<close> takes the modals off the page without telling the code that made them,
  and leaves the undo bars with their timers. The session, the sign-in card, the palette and one undo bar are put together.
\<close>

section \<open>The page at the end of a session\<close>

record closing =
  client_part :: client
  palette_part :: cmdp
  bar_part :: undo_bar

text \<open>The removal of every \<open>.modal-bg\<close>, the palette's overlays among them; \<open>modalEl\<close> keeps pointing to one that is gone.\<close>

definition remove_overlays :: "cmdp \<Rightarrow> cmdp" where
  "remove_overlays s = s\<lparr>overlays := []\<rparr>"

text \<open>The logout button: the storage, the clean-up, a new card. The intervals are gone, the bar is not touched.\<close>

definition sign_out :: "closing \<Rightarrow> closing" where
  "sign_out w = w\<lparr>client_part := (client_part w)\<lparr>sess := logout_click (sess (client_part w)), body_of := CardUp new_card, polls := False\<rparr>,
     palette_part := remove_overlays (palette_part w)\<rparr>"

text \<open>The palette's shortcut.\<close>

definition toggle_palette :: "cmdp \<Rightarrow> cmdp" where
  "toggle_palette s = (if modal_el s \<noteq> None then close_palette s else open_call s)"

text \<open>
  Events after the end: those of the card, the shortcut, and the end timer of the bar, whose refresh loads page \<open>p\<close>; the loader writes
  to the page although another view may be open, and \<open>res\<close> is what the server answers.
\<close>

datatype closing_event = OnCard card_event | PaletteKey | BarEnds int net_result

fun closing_step :: "int \<Rightarrow> string \<Rightarrow> translator \<Rightarrow> closing \<Rightarrow> closing_event \<Rightarrow> closing" where
  "closing_step now p tr w (OnCard e) = w\<lparr>client_part := card_step now (client_part w) e\<rparr>"
| "closing_step now p tr w PaletteKey = w\<lparr>palette_part := toggle_palette (palette_part w)\<rparr>"
| "closing_step now p tr w (BarEnds later res) = (let b = delete_step tr [] [] True (bar_part w) (EndAt later) in
     w\<lparr>bar_part := b, client_part := (if refreshes b = refreshes (bar_part w) then client_part w else load_page now p res (client_part w))\<rparr>)"

section \<open>Properties\<close>

lemma sign_out_session [simp]: "api_token (sess (client_part (sign_out w))) = []" "session_start (sess (client_part (sign_out w))) = None"
  "bar_part (sign_out w) = bar_part w" "polls (client_part (sign_out w)) = False"
  by (simp_all add: sign_out_def logout_click_def show_login_def session_cleanup_def close_all_ws_def storage_clear_def)

lemma signed_out_not_expired: "session_start s = None \<Longrightarrow> \<not> fst (check_session_expiry now s)"
  by (simp add: check_session_expiry_def start_time_def)

text \<open>
  Signing out is quiet as far as the card and its timers go. Whatever is typed, ticked and pressed afterwards, short of signing in again
  and of a pending undo bar, the card stays and holds what was typed last, no interval runs and the token is not restored.
\<close>

definition harmless :: "closing_event \<Rightarrow> bool" where
  "harmless e = (case e of OnCard (TypeToken v) \<Rightarrow> True | OnCard (PollTick res) \<Rightarrow> True | PaletteKey \<Rightarrow> True | _ \<Rightarrow> False)"

fun typed_since :: "string \<Rightarrow> closing_event list \<Rightarrow> string" where
  "typed_since v [] = v"
| "typed_since v (OnCard (TypeToken w) # es) = typed_since w es"
| "typed_since v (e # es) = typed_since v es"

lemma harmless_run:
  assumes "list_all harmless es" and "\<not> polls (client_part w)" and "body_of (client_part w) = CardUp k"
  shows "\<exists>k'. body_of (client_part (run_events (closing_step now p tr) w es)) = CardUp k' \<and> typed k' = typed_since (typed k) es \<and>
     \<not> polls (client_part (run_events (closing_step now p tr) w es)) \<and> sess (client_part (run_events (closing_step now p tr) w es)) = sess (client_part w)"
  using assms
proof (induction es arbitrary: w k)
  case (Cons e es)
  let ?w = "closing_step now p tr w e"
  have "\<exists>k'. body_of (client_part ?w) = CardUp k' \<and> typed_since (typed k') es = typed_since (typed k) (e # es) \<and> \<not> polls (client_part ?w) \<and>
      sess (client_part ?w) = sess (client_part w)"
  proof (cases e)
    case (OnCard c)
    with Cons.prems show ?thesis by (cases c) (simp_all add: harmless_def poll_page_def)
  next
    case PaletteKey
    with Cons.prems show ?thesis by simp
  next
    case (BarEnds later res)
    with Cons.prems show ?thesis by (simp add: harmless_def)
  qed
  with Cons show ?case by fastforce
qed simp

theorem signed_out_stays_out:
  assumes "list_all harmless es"
  shows "\<exists>k. body_of (client_part (run_events (closing_step now p tr) (sign_out w) es)) = CardUp k \<and> typed k = typed_since [] es \<and>
     \<not> polls (client_part (run_events (closing_step now p tr) (sign_out w) es)) \<and>
     api_token (sess (client_part (run_events (closing_step now p tr) (sign_out w) es))) = []"
proof -
  have "body_of (client_part (sign_out w)) = CardUp new_card" by (simp add: sign_out_def)
  from harmless_run [OF assms _ this, where now = now and p = p and tr = tr] show ?thesis by (auto simp: new_card_def)
qed

theorem signed_out_stays_out_witness:
  "\<exists>k. body_of (client_part (run_events (closing_step 0 ''images'' (\<lambda>k v. k))
      (sign_out \<lparr>client_part = signed_in (session_init ''old'' None) ''images'', palette_part = cmdp_init, bar_part = new_bar 0 5 []\<rparr>)
      [OnCard (TypeToken ''new''), PaletteKey, OnCard (PollTick NetworkFailed)])) = CardUp k \<and> typed k = ''new''"
  using signed_out_stays_out [of "[OnCard (TypeToken ''new''), PaletteKey, OnCard (PollTick NetworkFailed)]"
      0 "''images''" "\<lambda>k v. k" "\<lparr>client_part = signed_in (session_init ''old'' None) ''images'', palette_part = cmdp_init, bar_part = new_bar 0 5 []\<rparr>"]
  by (auto simp: harmless_def)

text \<open>
  An undo bar that is still counting when the session ends loads its page when its window closes. Except for the container list, the
  refusal of that load takes the sign-in card away, with what was typed into it, and leaves an error in its place.
\<close>

theorem undo_bar_takes_card_away:
  assumes "status r = 401" and "p \<noteq> ''containers''" and "end_pending (bar_part w)" and "\<not> was_undone (bar_part w)"
    and "end_time (bar_part w) \<le> later"
  shows "\<exists>msg. body_of (client_part (closing_step now p tr (sign_out w) (BarEnds later (Responded r)))) = PageFailed msg \<and>
     has_sub msg ''Authentication required''"
proof -
  have "refreshes (delete_step tr [] [] True (bar_part w) (EndAt later)) = Suc (refreshes (bar_part w))"
    using assms(3-5) by (simp add: end_bar_def bar_refresh_def)
  moreover have "\<not> fst (check_session_expiry now (sess (client_part (sign_out w))))"
    by (rule signed_out_not_expired) simp
  ultimately show ?thesis
    using refused_page_loses_card [OF assms(1) _ assms(2), of now "client_part (sign_out w)"] by (auto simp: Let_def)
qed

text \<open>
  A session that ends while the palette is open costs a press of its shortcut: the first only forgets the overlay that is gone, the second
  asks for the items again. In between nothing is on the page, and one press would have opened the palette had it been closed.
\<close>

theorem session_end_costs_a_press:
  assumes "focused m items s"
  shows "overlays (toggle_palette (remove_overlays s)) = [] \<and> pending (toggle_palette (remove_overlays s)) = pending s \<and>
     pending (toggle_palette (toggle_palette (remove_overlays s))) = Suc (pending s) \<and>
     pending (toggle_palette (remove_overlays (close_palette s))) = Suc (pending s)"
  using assms by (auto simp: focused_def toggle_palette_def remove_overlays_def close_palette_def open_call_def)

end
