(* ===== verification/PageForms.thy ===== *)
theory PageForms
  imports Networks Volumes Compose Templates Images Actions ContainerViews
begin

text \<open>
  The dialogs of the resource pages: the form specs of \<open>formModal\<close> that create networks and volumes, connect containers, scale,
  commit and deploy; the creation of a network or volume behind its guard, with several dialogs; and the elements of the modals
  that are built by hand.
\<close>

section \<open>The forms\<close>

definition choice :: "string \<Rightarrow> option_spec" where
  "choice v = \<lparr>opt_value = v, opt_label = [], opt_selected = False\<rparr>"

definition needed :: "field \<Rightarrow> field" where "needed f = f\<lparr>field_required := True\<rparr>"
definition with_hint :: "string \<Rightarrow> field \<Rightarrow> field" where "with_hint s f = f\<lparr>placeholder := s\<rparr>"
definition with_help :: "string \<Rightarrow> field \<Rightarrow> field" where "with_help s f = f\<lparr>field_help := s\<rparr>"
definition preset :: "string \<Rightarrow> field \<Rightarrow> field" where "preset v f = f\<lparr>field_value := Some v\<rparr>"
definition select_of :: "option_spec list \<Rightarrow> field \<Rightarrow> field" where "select_of os f = f\<lparr>field_type := Select, field_options := os\<rparr>"
definition area :: "field \<Rightarrow> field" where "area f = f\<lparr>field_type := Textarea\<rparr>"
definition tick_box :: "field \<Rightarrow> field" where "tick_box f = f\<lparr>field_type := Checkbox\<rparr>"

definition network_fields :: "field list" where
  "network_fields =
    [with_hint ''my-network'' (needed (plain_field ''name'' ''Network name'')),
     with_help ''bridge is the default single-host driver. overlay needs swarm mode. macvlan assigns MAC-layer access.''
       (select_of (map choice [''bridge'', ''overlay'', ''macvlan'']) (plain_field ''driver'' ''Driver'')),
     with_help ''CIDR for the network's IPAM pool. Leave blank to let Docker pick.'' (with_hint ''10.20.0.0/24'' (plain_field ''subnet'' ''Subnet (optional)'')),
     with_help ''Requires Subnet. Defaults to .1 of the subnet when blank.'' (with_hint ''10.20.0.1'' (plain_field ''gateway'' ''Gateway (optional)'')),
     with_help ''key=value pairs, one per line. Cannot be changed after creation.''
       (with_hint (''env=prod'' @ newline @ ''team=platform'') (area (plain_field ''labels'' ''Labels (optional)''))),
     tick_box (plain_field ''internal'' ''Internal (no external connectivity)''),
     tick_box (plain_field ''attachable'' ''Attachable (standalone containers can join)''),
     tick_box (plain_field ''enable_ipv6'' ''Enable IPv6'')]"

definition volume_fields :: "field list" where
  "volume_fields =
    [with_hint (Volumes.label ''volumes.create_placeholder'') (needed (plain_field ''name'' (Volumes.label ''volumes.columns.name''))),
     with_help ''local is the default. nfs/tmpfs require the driver to be available on the host.''
       (select_of (map choice [''local'', ''nfs'', ''tmpfs'']) (plain_field ''driver'' ''Driver'')),
     with_help ''key=value pairs, one per line. Labels cannot be changed after creation.''
       (with_hint (''env=prod'' @ newline @ ''team=platform'') (area (plain_field ''labels'' ''Labels (optional)''))),
     with_help ''Driver-specific options. For local+nfs: type/device/o. Cannot be changed later.''
       (with_hint (''type=nfs'' @ newline @ ''device=:/path'' @ newline @ ''o=addr=10.0.0.1,rw'') (area (plain_field ''driver_opts'' ''Driver options (optional)'')))]"

definition connect_fields :: "(string \<times> string \<times> string) list \<Rightarrow> field list" where
  "connect_fields cs = [needed (select_of (connect_options cs) (plain_field ''container_id'' ''Select container''))]"

definition scale_fields :: "stack \<Rightarrow> field list option" where
  "scale_fields s = map_option (\<lambda>os. [select_of os (plain_field ''service_name'' ''Service''),
     (with_help ''Target number of instances. 0 stops the service without removing it. Max is server-configured (default 10).''
       (preset ''1'' (plain_field ''replicas'' ''Replicas'')))\<lparr>field_type := TextInput ''number''\<rparr>]) (scale_options s)"

definition commit_fields :: "container \<Rightarrow> field list" where
  "commit_fields c =
    [with_help (''Lowercase, with optional `user/` or `host/` prefix. The resulting image is LOCAL only '' @ em_dash @ '' push it separately via the Images page.'')
       (preset (''local/'' @ or_str (cname c) ''commit'') (needed (plain_field ''repository'' ''Image repository''))),
     with_help ''Docker tag grammar: letters, digits, `.`, `-`, `_`.'' (preset ''latest'' (plain_field ''tag'' ''Tag'')),
     with_help ''Appears in the image history.'' (with_hint ''installed vim'' (plain_field ''message'' ''Commit message (optional)'')),
     with_hint ''jane@example.com'' (plain_field ''author'' ''Author (optional)'')]"

definition spec_of :: "field list \<Rightarrow> string \<Rightarrow> modal_spec" where
  "spec_of fs lbl = \<lparr>spec_fields = fs, submit_label = lbl, pending_label = [], no_click_outside = False\<rparr>"

section \<open>Creating behind a guard\<close>

text \<open>
  Creating a network or a volume: the key of the guard, the request's address for the values of the form, and the toast. The promise given to
  \<open>formModal\<close> is the guard's, continued with the toast and a fresh list; a call the guard refuses returns a resolved promise.
\<close>

record creator =
  cr_spec :: modal_spec
  cr_key :: string
  cr_url :: "(string \<times> fvalue) list \<Rightarrow> string"
  cr_toast :: toast

definition network_creator :: creator where
  "network_creator = \<lparr>cr_spec = spec_of network_fields ''Create'', cr_key = ''create-network'', cr_url = create_network_url,
     cr_toast = (''Network created'', Success)\<rparr>"

definition volume_creator :: creator where
  "volume_creator = \<lparr>cr_spec = spec_of volume_fields (Volumes.label ''volumes.actions.create''), cr_key = ''create-volume'',
     cr_url = create_volume_url, cr_toast = (Volumes.label ''volumes.toast.created'', Success)\<rparr>"

text \<open>\<open>dialogs\<close>: every dialog opened so far; \<open>waiting_for\<close>: the dialog whose request is out; \<open>announced\<close>: how often the success toast was shown.\<close>

record creating =
  dialogs :: "form_modal list"
  in_guard :: guard
  waiting_for :: "nat option"
  create_urls :: "string list"
  answers_ok :: nat
  announced :: nat
  lists_asked :: nat

definition creating_init :: creating where
  "creating_init = \<lparr>dialogs = [], in_guard = guard_init, waiting_for = None, create_urls = [], answers_ok = 0, announced = 0, lists_asked = 0\<rparr>"

definition set_dialog :: "nat \<Rightarrow> form_modal \<Rightarrow> creating \<Rightarrow> creating" where
  "set_dialog i m s = s\<lparr>dialogs := (dialogs s)[i := m]\<rparr>"

definition announce :: "creating \<Rightarrow> creating" where
  "announce s = s\<lparr>announced := Suc (announced s), lists_asked := Suc (lists_asked s)\<rparr>"

datatype creating_event = OpenForm | InForm nat modal_event | SubmitForm nat | CreateAnswer "string option + unit"

definition submit_form :: "creator \<Rightarrow> nat \<Rightarrow> creating \<Rightarrow> creating" where
  "submit_form cr i s = (let m = dialogs s ! i; m' = modal_step (cr_spec cr) m (modal_event.Submit Promise); g = in_guard s in
     if calls m' = calls m then set_dialog i m' s
     else if guard_admits g (cr_key cr)
       then (set_dialog i m' s)\<lparr>in_guard := guard_step g (Begin (cr_key cr)), waiting_for := Some i,
         create_urls := create_urls s @ [cr_url cr (get_values (fm_form m'))]\<rparr>
     else announce ((set_dialog i (modal_step (cr_spec cr) m' modal_event.Resolved) s)\<lparr>in_guard := guard_step g (Begin (cr_key cr))\<rparr>))"

definition create_answer :: "creator \<Rightarrow> string option + unit \<Rightarrow> creating \<Rightarrow> creating" where
  "create_answer cr ans s = (case waiting_for s of None \<Rightarrow> s | Some i \<Rightarrow>
     let s1 = s\<lparr>waiting_for := None, in_guard := guard_step (in_guard s) (Settle (cr_key cr))\<rparr> in
     (case ans of Inl e \<Rightarrow> set_dialog i (modal_step (cr_spec cr) (dialogs s ! i) (modal_event.Rejected e)) s1
       | Inr u \<Rightarrow> announce ((set_dialog i (modal_step (cr_spec cr) (dialogs s ! i) modal_event.Resolved) s1)\<lparr>answers_ok := Suc (answers_ok s)\<rparr>)))"

text \<open>The user's events of a dialog reach it only; settling its promise is not one of them.\<close>

definition users_event :: "modal_event \<Rightarrow> bool" where
  "users_event e = (case e of modal_event.Submit oc \<Rightarrow> False | modal_event.Resolved \<Rightarrow> False | modal_event.Rejected m \<Rightarrow> False | _ \<Rightarrow> True)"

fun creating_step :: "creator \<Rightarrow> creating \<Rightarrow> creating_event \<Rightarrow> creating" where
  "creating_step cr s OpenForm = s\<lparr>dialogs := dialogs s @ [open_modal (cr_spec cr)]\<rparr>"
| "creating_step cr s (InForm i e) = (if i < length (dialogs s) \<and> users_event e
     then set_dialog i (modal_step (cr_spec cr) (dialogs s ! i) e) s else s)"
| "creating_step cr s (SubmitForm i) = (if i < length (dialogs s) then submit_form cr i s else s)"
| "creating_step cr s (CreateAnswer ans) = create_answer cr ans s"

section \<open>The modals built by hand\<close>

text \<open>The modal of the cascade; it closes by Cancel, by a click beside the box and by the button that goes on.\<close>

datatype cascade_click = CloseCascade | GoOn

definition cascade_nodes :: "int \<Rightarrow> volume \<Rightarrow> cascade_click node" where
  "cascade_nodes secs v = Elem ((new_elem ''div'')\<lparr>class_name := ''modal-bg'', listeners := [(''click'', CloseCascade)]\<rparr>)
     [mk ''div'' ''modal''
       [mk_text ''h3'' [] (''Volume '' @ dquote @ vname v @ dquote @ '' is in use''),
        mk_text ''p'' [] ''Deleting this volume requires first stopping + removing every container that mounts it:'',
        mk ''ul'' [] (map (mk_text ''li'' []) (vcontainers v)),
        mk_text ''p'' [] (''Each container will be stopped + force-removed; then the volume is deleted with an undo window (~'' @
          show_int (if secs = 0 then 5 else secs) @ ''s).''),
        mk ''div'' [] [make_btn ''Cancel'' CloseCascade ''btn'',
          make_btn (''Remove '' @ show_nat (length (vcontainers v)) @ '' container(s) + delete volume'') GoOn ''btn danger'']]]"

text \<open>Inspecting an image: the panel, the form of a new tag, a push button for each tag. Pulling: the input, the hint, the search.\<close>

datatype image_click2 = TagIt | PushTag string | CloseImage | PullIt | TypeTag

definition tag_input :: "string \<Rightarrow> string \<Rightarrow> image_click2 node" where
  "tag_input ph v = Elem ((new_elem ''input'')\<lparr>attributes := (''placeholder'', ph) # (if v = [] then [] else [(''value'', v)])\<rparr>) []"

definition tag_section :: "string list \<Rightarrow> image_click2 node" where
  "tag_section tgs = mk ''div'' []
     [mk_text ''label'' [] ''Tag image (new repository:tag)'',
      mk ''div'' [] [tag_input ''us-docker.pkg.dev/project/repo/image'' [], tag_input ''latest'' ''latest'', make_btn ''Tag'' TagIt ''btn small primary''],
      mk ''div'' [] (mk_text ''span'' [] ''Push to registry:'' #
        map (\<lambda>(tg, b). make_btn (fst b) (PushTag tg) ''btn small primary'') (zip tgs (push_buttons tgs)))]"

definition pull_body :: "string \<Rightarrow> string \<Rightarrow> image_click2 node \<Rightarrow> image_click2 node" where
  "pull_body typed note hub_section = mk ''div'' []
     [mk ''label'' [] [mk_text ''span'' ''field-label'' ''Image'',
        Elem ((new_elem ''input'')\<lparr>attributes := [(''id'', ''pull-image''), (''placeholder'', ''image:tag or registry/image:tag''), (''value'', typed)]\<rparr>) []],
      mk_text ''p'' [] note, hub_section]"

text \<open>\<open>Pull\<close>: the toasts of a press, when the request has ended; \<open>Inl\<close> its error. A blank name is reported twice, by the action and by its button.\<close>

definition pull_toasts :: "string \<Rightarrow> string + unit \<Rightarrow> toast list" where
  "pull_toasts typed ans = (case pull_image typed of
      Inl e \<Rightarrow> [(''Image name is required'', Error), (e, Error)]
    | Inr r \<Rightarrow> (case ans of Inl e \<Rightarrow> [(e, Error)] | Inr u \<Rightarrow> [(''Image pulled: '' @ trim typed, Success)]))"

section \<open>Properties\<close>

lemma modal_user_frame:
  assumes "users_event e"
  shows "submit_pending (modal_step sp m e) = submit_pending m" "calls (modal_step sp m e) = calls m"
    "outstanding (modal_step sp m e) = outstanding m"
  using assms by (cases e; simp add: users_event_def with_form_def close_modal_def split: option.split)+

lemma submit_cases:
  shows "submit_pending m \<Longrightarrow> submit_pending (modal_step sp m (modal_event.Submit Promise)) \<and> calls (modal_step sp m (modal_event.Submit Promise)) = calls m"
    and "calls (modal_step sp m (modal_event.Submit Promise)) \<noteq> calls m \<Longrightarrow>
      submit_pending (modal_step sp m (modal_event.Submit Promise)) \<and> outstanding (modal_step sp m (modal_event.Submit Promise)) = Suc (outstanding m)"
    and "calls (modal_step sp m (modal_event.Submit Promise)) = calls m \<Longrightarrow>
      submit_pending (modal_step sp m (modal_event.Submit Promise)) = submit_pending m \<and> outstanding (modal_step sp m (modal_event.Submit Promise)) = outstanding m"
  by (cases "attached m"; cases "validate (spec_fields sp) (by_name (fm_form m))";
      auto simp: form_submit_def submit_handler_def with_form_def set_pending_def Let_def split: if_splits)+

text \<open>With one dialog: the guard is taken exactly while its request is out, and its button is blocked then.\<close>

definition single_inv :: "creator \<Rightarrow> creating \<Rightarrow> bool" where
  "single_inv cr s = (length (dialogs s) \<le> 1 \<and> (waiting_for s = None \<or> waiting_for s = Some 0 \<and> length (dialogs s) = 1 \<and> submit_pending (dialogs s ! 0)) \<and>
     in_flight (in_guard s) = (if waiting_for s = None then [] else [cr_key cr]) \<and> running (in_guard s) = in_flight (in_guard s) \<and>
     announced s = answers_ok s \<and> lists_asked s = answers_ok s \<and> answers_ok s + length (in_flight (in_guard s)) \<le> length (create_urls s))"

lemma single_init: "single_inv cr creating_init"
  by (simp add: single_inv_def creating_init_def guard_init_def)

lemma single_step:
  assumes inv: "single_inv cr s" and "e = OpenForm \<Longrightarrow> dialogs s = []"
  shows "single_inv cr (creating_step cr s e)"
proof (cases e)
  case OpenForm
  with assms show ?thesis by (auto simp: single_inv_def)
next
  case (InForm i me)
  with inv modal_user_frame [of me] show ?thesis
    by (auto simp: single_inv_def set_dialog_def nth_list_update)
next
  case (SubmitForm i)
  show ?thesis
  proof (cases "i < length (dialogs s)")
    case True
    with inv have i: "i = 0" "length (dialogs s) = 1" by (auto simp: single_inv_def)
    let ?m = "dialogs s ! 0"
    show ?thesis
    proof (cases "calls (modal_step (cr_spec cr) ?m (modal_event.Submit Promise)) = calls ?m")
      case True
      with inv i SubmitForm submit_cases(3) [OF True] show ?thesis
        by (auto simp: single_inv_def submit_form_def Let_def set_dialog_def)
    next
      case False
      then have "\<not> submit_pending ?m" using submit_cases(1) by blast
      with inv i have "waiting_for s = None" "guard_admits (in_guard s) (cr_key cr)" by (auto simp: single_inv_def guard_admits_def)
      with inv i SubmitForm submit_cases(2) [OF False] False show ?thesis
        by (auto simp: single_inv_def submit_form_def Let_def set_dialog_def)
    qed
  next
    case False
    with inv SubmitForm show ?thesis by simp
  qed
next
  case (CreateAnswer ans)
  with inv show ?thesis
    by (cases ans; cases "waiting_for s") (auto simp: single_inv_def create_answer_def set_dialog_def announce_def Let_def)
qed

definition opens :: "creating_event list \<Rightarrow> nat" where
  "opens es = length (filter (\<lambda>e. e = OpenForm) es)"

lemma dialogs_grow: "length (dialogs (creating_step cr s e)) = length (dialogs s) + (if e = OpenForm then 1 else 0)"
  by (cases e) (auto simp: set_dialog_def submit_form_def create_answer_def announce_def Let_def split: option.split sum.split)

text \<open>
  C36: with one dialog the message is true. Whatever is typed, submitted, cancelled and answered, the success toast is shown and the fresh list
  asked for exactly once for each creation the server has confirmed, no more creations are confirmed than requests were sent, and at most one
  request is out.
\<close>

theorem one_dialog_tells_truth:
  assumes "opens es \<le> 1"
  shows "let s = run_events (creating_step cr) creating_init es in
    announced s = answers_ok s \<and> lists_asked s = answers_ok s \<and>
    answers_ok s + length (in_flight (in_guard s)) \<le> length (create_urls s) \<and> length (in_flight (in_guard s)) \<le> 1"
proof -
  have "single_inv cr (run_events (creating_step cr) s es)" if "single_inv cr s" "length (dialogs s) + opens es \<le> 1" for s
    using that
  proof (induction es arbitrary: s)
    case (Cons e es)
    have "e = OpenForm \<Longrightarrow> dialogs s = []" using Cons.prems(2) by (auto simp: opens_def)
    from single_step [OF Cons.prems(1) this]
    have "single_inv cr (creating_step cr s e)" .
    moreover have "length (dialogs (creating_step cr s e)) + opens es \<le> 1"
      using Cons.prems(2) by (auto simp: dialogs_grow opens_def split: if_splits)
    ultimately show ?case using Cons.IH by simp
  qed simp
  from this [OF single_init] assms have "single_inv cr (run_events (creating_step cr) creating_init es)"
    by (simp add: creating_init_def)
  then show ?thesis by (auto simp: single_inv_def Let_def)
qed

theorem one_dialog_tells_truth_witness:
  "let s = run_events (creating_step network_creator) creating_init [OpenForm, SubmitForm 0, CreateAnswer (Inr ())] in
   announced s = answers_ok s \<and> lists_asked s = answers_ok s"
  using one_dialog_tells_truth [of "[OpenForm, SubmitForm 0, CreateAnswer (Inr ())]" network_creator] by (simp add: opens_def Let_def)

text \<open>
  A second dialog is told a lie. While a creation is out, the submission of another dialog with valid values sends nothing, and its dialog
  closes with the success toast and a fresh list: the refused call of the guard counts as a success.
\<close>

theorem second_creation_swallowed:
  assumes "i < length (dialogs s)" and "calls (modal_step (cr_spec cr) (dialogs s ! i) (modal_event.Submit Promise)) \<noteq> calls (dialogs s ! i)"
    and "cr_key cr \<in> set (in_flight (in_guard s))"
  shows "create_urls (creating_step cr s (SubmitForm i)) = create_urls s \<and> announced (creating_step cr s (SubmitForm i)) = Suc (announced s) \<and>
    \<not> attached (dialogs (creating_step cr s (SubmitForm i)) ! i)"
  using assms submit_cases(2) [OF assms(2)]
  by (simp add: submit_form_def guard_admits_def announce_def set_dialog_def Let_def close_modal_def set_pending_def)

text \<open>The cascade's modal names the containers that will be removed, all of them and no other, and parses nothing.\<close>

theorem cascade_names_its_victims:
  shows "map text_content (kids_of (kids_of (kids_of (cascade_nodes secs v) ! 0) ! 2)) = vcontainers v"
    and "length (kids_of (kids_of (kids_of (cascade_nodes secs v) ! 0) ! 2)) = length (removal_urls (vcontainers v))"
    and "raws (cascade_nodes secs v) = []"
proof -
  show "map text_content (kids_of (kids_of (kids_of (cascade_nodes secs v) ! 0) ! 2)) = vcontainers v"
    by (simp add: cascade_nodes_def mk_def [of "''div''"] mk_def [of "''ul''"] comp_def)
  show "length (kids_of (kids_of (kids_of (cascade_nodes secs v) ! 0) ! 2)) = length (removal_urls (vcontainers v))"
    by (simp add: cascade_nodes_def mk_def [of "''div''"] mk_def [of "''ul''"] removal_urls_def)
  show "raws (cascade_nodes secs v) = []" by (simp add: cascade_nodes_def raws_of_map)
qed

end
