(* ===== verification/SystemViews.thy ===== *)
theory SystemViews
  imports SystemPage PageViews
begin

text \<open>
  The elements of the system page: its header and cards, the account section with the modal that rotates the token, the picker of
  snippets, security options, events and the audit table. Listeners are the actions of the page; fixed styles are left out.
\<close>

section \<open>Cards\<close>

datatype system_click = PruneSystem | PruneCache | RotateToken | ResetConfig | PickTool | RefreshLog | DownloadLog | PickTailSize
  | TypeLogFilter | GenerateToken | CopyNewToken | SaveToken | CancelToken

definition system_header :: "system_click node" where
  "system_header = page_header ''System'' [make_btn ''Prune system'' PruneSystem ''btn danger'']"

definition system_card :: "string \<Rightarrow> string \<Rightarrow> system_click node list \<Rightarrow> system_click node" where
  "system_card lbl val more_nodes = mk ''div'' ''info-card'' ([mk_text ''div'' ''label'' lbl, mk_text ''div'' ''value'' val] @ more_nodes)"

definition info_grid :: "fields \<Rightarrow> system_click node" where
  "info_grid f = mk ''div'' ''info-grid'' (map (\<lambda>(lbl, val). system_card lbl val []) (info_cards f))"

definition disk_grid :: "fields \<Rightarrow> int \<Rightarrow> system_click node list" where
  "disk_grid f cache_reclaimable = [mk_text ''h3'' [] ''Disk Usage'', mk ''div'' ''info-grid''
     (map (\<lambda>(lbl, val, sub, prune). system_card lbl val ((if sub \<noteq> [] then [mk_text ''div'' ''sub'' sub] else []) @
        (if prune then [make_btn ''Prune'' PruneCache ''btn danger small''] else []))) (disk_cards f cache_reclaimable))]"

section \<open>Account and snippets\<close>

text \<open>\<open>state\<close>: \<open>None\<close> when it could not be read, else whether the server is configured by its environment.\<close>

definition account_nodes :: "bool option \<Rightarrow> system_click node list" where
  "account_nodes env = (if env \<noteq> Some False then [] else
     [mk_text ''h3'' [] ''Account'', mk_text ''p'' [] ''Rotate the API token without restarting, or reset config to re-run the setup wizard.'',
      mk ''div'' [] [make_btn ''Rotate API token'' RotateToken ''btn'', make_btn ''Reset configuration'' ResetConfig ''btn danger'']])"

text \<open>The modal of the rotation for a state of its machine: the field, whether the warning shows, and the button that is locked until a copy.\<close>

definition rotate_nodes :: "bool \<Rightarrow> string \<Rightarrow> rotate \<Rightarrow> system_click node" where
  "rotate_nodes warned copy_txt r = mk ''div'' []
     [mk_text ''p'' [] ''After rotation, the old token immediately stops working. Copy the new token before saving.'',
      mk_text ''label'' [] (''New API token ('' @ [CHR 0xE2, CHR 0x89, CHR 0xA5] @ '' 16 chars)''),
      Elem ((new_elem ''input'')\<lparr>attributes := [(''type'', ''password''), (''readonly'', ''true''), (''id'', ''rotate-token''), (''value'', rot_token r)]\<rparr>) [],
      mk ''div'' [] [make_btn ''Generate'' GenerateToken ''btn small'', make_btn copy_txt CopyNewToken ''btn small''],
      Elem ((new_elem ''p'')\<lparr>css := Some (if warned then ''display:block'' else ''display:none'')\<rparr>)
        (text_nodes ([CHR 0xE2, CHR 0x9A, CHR 0xA0] @ '' Copy the new token before saving '' @ em_dash @ '' it will not be shown again.'')),
      mk ''div'' ''actions'' [make_btn ''Cancel'' CancelToken ''btn'',
        Elem ((new_elem ''button'')\<lparr>class_name := ''btn primary'', attributes := (''title'', ''Copy the new token first to unlock'') #
          (if save_off r then [(''disabled'', [])] else []), listeners := [(''click'', SaveToken)]\<rparr>) (text_nodes ''Save rotation'')]]"

text \<open>\<open>widget\<close> builds the copy widgets, which Widgets models.\<close>

definition snippet_node :: "(bool \<Rightarrow> string \<Rightarrow> string \<Rightarrow> system_click node) \<Rightarrow> snippet_part \<Rightarrow> system_click node" where
  "snippet_node widget sp = (case sp of HintLine s \<Rightarrow> mk_text ''p'' [] s | NoteLine s \<Rightarrow> mk_text ''p'' [] s
     | CommandPart txt fname \<Rightarrow> widget True txt fname | BlockPart txt fname \<Rightarrow> widget False txt fname)"

definition connect_panel :: "(bool \<Rightarrow> string \<Rightarrow> string \<Rightarrow> system_click node) \<Rightarrow> snippet_tool list \<Rightarrow> string \<Rightarrow> system_click node list" where
  "connect_panel widget tools i = (if tools = [] then [] else
     [mk_text ''h3'' [] ''Connect external tool'',
      mk_text ''p'' [] (''Copy-paste snippets tailored to this server '' @ em_dash @ '' no templating required.''),
      mk ''div'' [] [mk ''div'' [] [mk_text ''label'' [] ''Tool:'',
          Elem ((new_elem ''select'')\<lparr>attributes := [(''aria-label'', ''Connect external tool'')], listeners := [(''change'', PickTool)]\<rparr>)
            (map (\<lambda>tool. Elem ((new_elem ''option'')\<lparr>attributes := [(''value'', tool_id tool)]\<rparr>) (text_nodes (tool_label tool))) tools)],
        mk ''div'' [] (map (snippet_node widget) (render_tool tools i))]])"

section \<open>Security, events and the audit log\<close>

definition security_nodes :: "string list \<Rightarrow> system_click node list" where
  "security_nodes opts = (if opts = [] then [] else [mk_text ''h3'' [] ''Security'', mk ''div'' [] (map (mk_text ''div'' ''mono'') opts)])"

definition events_nodes :: "string \<Rightarrow> system_click node list" where
  "events_nodes shown = [mk_text ''h3'' [] ''Docker Events'',
     mk_text ''p'' [] ''Live daemon events for the last minute. Refreshes every 5 seconds while this page is open.'',
     Elem ((new_elem ''pre'')\<lparr>attributes := [(''data-testid'', ''events-viewer'')]\<rparr>) (text_nodes shown)]"

definition audit_toolbar :: "system_click node" where
  "audit_toolbar = mk ''div'' []
     [Elem ((new_elem ''select'')\<lparr>attributes := [(''data-testid'', ''audit-tail-select''), (''aria-label'', ''Audit log tail size'')], listeners := [(''change'', PickTailSize)]\<rparr>)
        (map (\<lambda>n. Elem ((new_elem ''option'')\<lparr>attributes := [(''value'', show_nat n)]\<rparr>) (text_nodes (''Last '' @ show_nat n))) tail_sizes),
      Elem ((new_elem ''input'')\<lparr>class_name := ''search-bar'', attributes := [(''type'', ''search''),
        (''placeholder'', ''Filter by event, path, method, or status...''), (''data-testid'', ''audit-filter'')], listeners := [(''input'', TypeLogFilter)]\<rparr>) [],
      make_btn ''Refresh'' RefreshLog ''btn small'', make_btn ''Download .jsonl'' DownloadLog ''btn small'']"

definition audit_head :: string where
  "audit_head = ''<thead><tr><th>Time</th><th>Event</th><th>Resource</th><th>Method</th><th>Path</th><th>Status</th><th>Remote</th></tr></thead>''"

definition audit_loading :: string where
  "audit_loading = ''<tr><td colspan='' @ dquote @ ''7'' @ dquote @ '' style='' @ dquote @ ''text-align:center;color:var(--muted);padding:20px'' @ dquote @
     ''>Loading'' @ ellipsis @ ''</td></tr>''"

text \<open>A row: its time as printed, then the cells; the path's own cell repeats it as a title, the status has its color.\<close>

definition audit_tr :: "(audit_row \<Rightarrow> string) \<Rightarrow> audit_row \<Rightarrow> system_click node" where
  "audit_tr time r = mk ''tr'' [] (mk_text ''td'' [] (time r) #
     map (\<lambda>(i, c). Elem ((new_elem ''td'')\<lparr>attributes := (if i = 3 then [(''title'', a_path r)] else []),
        css := (if i = 4 \<and> status_color r \<noteq> [] then Some (''color:'' @ status_color r) else None)\<rparr>) (text_nodes c)) (enumerate 0 (audit_cells r)))"

definition wide_note :: "string \<Rightarrow> system_click node" where
  "wide_note msg = mk ''tr'' [] [Elem ((new_elem ''td'')\<lparr>attributes := [(''colspan'', ''7'')]\<rparr>) (text_nodes msg)]"

definition audit_tbody :: "(audit_row \<Rightarrow> string) \<Rightarrow> audit \<Rightarrow> system_click node list" where
  "audit_tbody time a = (case body a of AuditLoading \<Rightarrow> [Raw audit_loading] | AuditNote msg \<Rightarrow> [wide_note msg] | AuditRows rs \<Rightarrow> map (audit_tr time) rs) @
     map wide_note (failures a)"

definition audit_nodes :: "(audit_row \<Rightarrow> string) \<Rightarrow> audit \<Rightarrow> system_click node list" where
  "audit_nodes time a = [mk_text ''h3'' [] (audit_heading a), mk_text ''p'' [] ''Recent API requests made to this app.'', audit_toolbar,
     mk ''table'' [] [Raw audit_head, mk ''tbody'' [] (audit_tbody time a)]]"

section \<open>The page\<close>

text \<open>What the page's data are, and the elements of its sections in the order they were appended.\<close>

record system_data =
  sd_info :: fields
  sd_cache :: int
  sd_tools :: "snippet_tool list"
  sd_tool :: string
  sd_security :: "string list"
  sd_events :: string
  sd_audit :: audit

definition section_nodes :: "(bool \<Rightarrow> string \<Rightarrow> string \<Rightarrow> system_click node) \<Rightarrow> (audit_row \<Rightarrow> string) \<Rightarrow> system_data \<Rightarrow> section_name \<Rightarrow> system_click node list" where
  "section_nodes widget time d s = (case s of
      Cards \<Rightarrow> system_header # info_grid (sd_info d) # disk_grid (sd_info d) (sd_cache d)
    | Account \<Rightarrow> account_nodes (Some False) | ConnectTool \<Rightarrow> connect_panel widget (sd_tools d) (sd_tool d)
    | Security \<Rightarrow> security_nodes (sd_security d) | Events \<Rightarrow> events_nodes (sd_events d) | AuditLog \<Rightarrow> audit_nodes time (sd_audit d))"

definition system_main :: "(bool \<Rightarrow> string \<Rightarrow> string \<Rightarrow> system_click node) \<Rightarrow> (audit_row \<Rightarrow> string) \<Rightarrow> system_data \<Rightarrow> system_page \<Rightarrow> system_click node list" where
  "system_main widget time d p = concat (map (section_nodes widget time d \<circ> fst) (appended p))"

section \<open>Properties\<close>

lemma card_parts [simp]: "raws (system_card lbl val ns) = raws_of ns" "actions (system_card lbl val ns) = actions_of ns"
  by (simp_all add: system_card_def)

lemma note_parts [simp]: "raws (wide_note msg) = []" "actions (wide_note msg) = []" "raws (audit_tr time r) = []" "actions (audit_tr time r) = []"
  by (simp_all add: wide_note_def audit_tr_def raws_of_map actions_of_map split_beta new_elem_def)

lemma toolbar_raws [simp]: "raws audit_toolbar = []"
  by (simp add: audit_toolbar_def raws_of_map)

text \<open>
  nothing the server sends is parsed as markup on the system page: whatever the cards, the tools, the options, the events and the audit
  rows hold, and whichever sections have been appended, the strings parsed are the head of the audit table and its loading row,
  provided the copy widgets parse nothing themselves.
\<close>

theorem system_page_parses_nothing:
  assumes "\<And>c txt fname. raws (widget c txt fname) = []"
  shows "set (raws_of (system_main widget time d p)) \<subseteq> {audit_head, audit_loading}"
proof -
  have snippets: "raws (snippet_node widget sp) = []" for sp
    using assms by (simp add: snippet_node_def split: snippet_part.split)
  have section_quiet: "set (raws_of (section_nodes widget time d s)) \<subseteq> {audit_head, audit_loading}" for s
  proof (cases s)
    case Cards
    then show ?thesis by (auto simp: section_nodes_def system_header_def info_grid_def disk_grid_def raws_of_map split_beta)
  next
    case AuditLog
    then show ?thesis
      by (auto simp: section_nodes_def audit_nodes_def audit_tbody_def raws_of_map split: audit_body.splits)
  qed (auto simp: section_nodes_def account_nodes_def connect_panel_def security_nodes_def events_nodes_def raws_of_map snippets)
  have "set (raws_of (concat (map (section_nodes widget time d) ss))) \<subseteq> {audit_head, audit_loading}" for ss
    by (induction ss) (use section_quiet in auto)
  from this [of "map fst (appended p)"] show ?thesis by (simp add: system_main_def comp_def)
qed

theorem system_page_parses_nothing_witness:
  "set (raws_of (system_main (\<lambda>c txt fname. mk_text ''pre'' [] txt) (\<lambda>r. [])
     \<lparr>sd_info = (\<lambda>k. k), sd_cache = 1, sd_tools = [], sd_tool = [], sd_security = [''<b>''], sd_events = ''<i>'', sd_audit = audit_init\<rparr>
     \<lparr>sys_page = ''system'', builds = [Finished], appended = [(Cards, ''system''), (AuditLog, ''system'')], page_clock = timers_init\<rparr>)) \<subseteq>
   {audit_head, audit_loading}"
  by (rule system_page_parses_nothing) simp

text \<open>
  The audit table shows what its filter lets through: after any answer or keystroke that paints it, its rows are the matching entries, the
  newest first, cell for cell, and when nothing matches there is one note instead.
\<close>

lemma audit_tr_cells: "map text_content (kids_of (audit_tr time r)) = time r # audit_cells r"
  by (simp add: audit_tr_def mk_def [of "''tr''"] audit_cells_def)

theorem audit_rows_show_matches:
  shows "map (\<lambda>n. map text_content (kids_of n)) (audit_tbody time (paint_audit needle rs a)) =
    (if filter (row_matches needle) rs = []
     then [[if needle \<noteq> [] then ''No audit entries match '' @ dquote @ needle @ dquote @ ''.'' else ''No audit entries yet.'']]
     else map (\<lambda>r. time r # audit_cells r) (rev (filter (row_matches needle) rs)))"
  by (simp add: audit_tbody_def paint_audit_def audit_body_for_def Let_def audit_tr_cells comp_def wide_note_def mk_def [of "''tr''"])

text \<open>The rotation's modal parses nothing, and its Save is locked exactly while its machine says so.\<close>

theorem rotate_modal_follows_machine:
  "raws (rotate_nodes w l r) = [] \<and> actions (rotate_nodes w l r) = [GenerateToken, CopyNewToken, CancelToken, SaveToken]"
  by (simp add: rotate_nodes_def new_elem_def)

end
