(* ===== verification/CatalogueViews.thy ===== *)
theory CatalogueViews
  imports Templates Dashboard PageViews
begin

text \<open>
  The elements of the template catalogues and of the dashboard. Listeners are the actions of the pages; fixed styles are left out.
\<close>

section \<open>Templates\<close>

datatype template_click = TypeFilter | DeployApp stack_template | DeployStack stack_template

text \<open>The frame of a card: its identifier for tests, its title and cursor, and the click, which only an allowed template has.\<close>

definition card_frame :: "string \<Rightarrow> string \<Rightarrow> template_click \<Rightarrow> stack_template \<Rightarrow> template_click node list \<Rightarrow> template_click node" where
  "card_frame cls prefix act tm kids = Elem ((new_elem ''div'')\<lparr>class_name := cls,
     attributes := (''data-testid'', prefix @ tm_id tm) # (if is_allowed tm then [] else [(''title'', reject_title tm)]),
     css := Some (''background:var(--card);border:1px solid var(--border);border-radius:8px;padding:14px;display:flex;flex-direction:column;gap:8px;'' @
       (if is_allowed tm then ''cursor:pointer'' else ''opacity:0.55;cursor:not-allowed'')),
     listeners := (if is_allowed tm then [(''click'', act)] else [])\<rparr>) kids"

definition app_node :: "stack_template \<Rightarrow> template_click node" where
  "app_node tm = card_frame ''template-card'' ''template-'' (DeployApp tm) tm
     [mk ''div'' [] [mk_text ''span'' [] (tm_name tm), mk_text ''span'' [] (tm_category tm)],
      mk_text ''div'' [] (tm_image tm), mk_text ''p'' [] (tm_description tm)]"

definition stack_node :: "stack_template \<Rightarrow> template_click node" where
  "stack_node tm = card_frame ''template-card stack-card'' ''stack-'' (DeployStack tm) tm
     [mk ''div'' [] [mk_text ''span'' [] (tm_name tm), mk_text ''span'' [] ''STACK''],
      mk_text ''div'' [] (join ('' '' @ [CHR 0xC2, CHR 0xB7] @ '' '') (tm_images tm)), mk_text ''p'' [] (tm_description tm),
      mk ''div'' [] (map (mk_text ''span'' []) (stack_meta tm))]"

definition grid_nodes :: "string \<Rightarrow> string \<Rightarrow> (stack_template \<Rightarrow> template_click node) \<Rightarrow> string + stack_template list \<Rightarrow> string \<Rightarrow> template_click node" where
  "grid_nodes what kind f res q = mk ''div'' [] (case res of
      Inl msg \<Rightarrow> [mk_text ''p'' [] (what @ '' unavailable: '' @ msg)]
    | Inr tms \<Rightarrow> (let shown = filter (template_matches (to_lower q)) tms in
        if shown = [] then [mk_text ''p'' [] (if to_lower q \<noteq> [] then ''No '' @ kind @ '' templates match.'' else ''No '' @ kind @ '' templates available.'')]
        else map f shown))"

definition templates_main :: "string \<Rightarrow> string + stack_template list \<Rightarrow> string + stack_template list \<Rightarrow> template_click node list" where
  "templates_main q apps stacks =
    [page_header ''Templates'' [],
     mk_text ''p'' [] ''Quick-start catalogues. Apps deploy a single container via the Run modal. Stacks deploy a multi-service docker-compose project.'',
     Elem ((new_elem ''input'')\<lparr>class_name := ''search-bar'', attributes := [(''type'', ''search''),
       (''placeholder'', ''Filter by name, description, image'' @ ellipsis)], listeners := [(''input'', TypeFilter)]\<rparr>) [],
     mk_text ''h3'' [] ''Apps (single container)'', grid_nodes ''Apps'' ''app'' app_node apps q,
     mk_text ''h3'' [] ''Stacks (docker-compose)'',
     mk_text ''p'' [] ''Multi-service blueprints. Click a card to review env vars and deploy via compose up.'',
     grid_nodes ''Stacks'' ''stack'' stack_node stacks q]"

section \<open>Dashboard\<close>

datatype dash_click = QuickGo string bool

definition stat_node :: "string \<times> string \<times> string \<Rightarrow> dash_click node" where
  "stat_node c = (let (lbl, val, sub) = c in mk ''div'' ''stat-card'' ([mk_text ''div'' ''stat-value'' val, mk_text ''div'' ''stat-label'' lbl] @
     (if sub \<noteq> [] then [mk_text ''div'' ''stat-subtitle'' sub] else [])))"

definition quick_buttons :: "dash_click node list" where
  "quick_buttons = map (\<lambda>(lbl, p, r). make_btn lbl (QuickGo p r) (if r then ''btn primary'' else ''btn'')) quick_actions"

definition dashboard_main :: "overview \<Rightarrow> dash_click node list" where
  "dashboard_main d =
    [page_header ''Overview'' [], mk ''div'' [] (map stat_node (stat_cards d)), mk_text ''h3'' [] ''Quick actions'',
     mk ''div'' [] quick_buttons, mk_text ''h3'' [] ''Recent activity (last 5 min)'',
     mk_text ''p'' [] ''Live stream of Docker daemon events. Full log on the System page.'', mk_text ''pre'' [] (recent_text (ov_events d))]"

section \<open>Properties\<close>

lemma card_frame_parts [simp]: "raws (card_frame cls pre act tm kids) = raws_of kids"
  "actions (card_frame cls pre act tm kids) = (if is_allowed tm then [act] else []) @ actions_of kids"
  by (simp_all add: card_frame_def)

lemma template_cards [simp]: "raws (app_node tm) = []" "raws (stack_node tm) = []"
  "actions (app_node tm) = (if is_allowed tm then [DeployApp tm] else [])"
  "actions (stack_node tm) = (if is_allowed tm then [DeployStack tm] else [])"
  by (simp_all add: app_node_def stack_node_def raws_of_map actions_of_map)

lemma grid_actions: "actions (grid_nodes what kind f res q) = (case res of Inl msg \<Rightarrow> []
     | Inr tms \<Rightarrow> concat (map (\<lambda>tm. actions (f tm)) (filter (template_matches (to_lower q)) tms)))"
  by (simp add: grid_nodes_def Let_def actions_of_map split: sum.split)

lemma grid_raws: "(\<And>tm. raws (f tm) = []) \<Longrightarrow> raws (grid_nodes what kind f res q) = []"
  by (simp add: grid_nodes_def Let_def raws_of_map split: sum.split)

lemma allowed_only: "concat (map (\<lambda>tm. if P tm then [f tm] else []) xs) = map f (filter P xs)"
  by (induction xs) simp_all

text \<open>
  the template page deploys exactly what the server allows. Whatever is searched for and whichever of the two requests has failed, the clicks
  on offer are the filter and one for each template shown that is allowed; no text of a template is parsed as markup.
\<close>

theorem templates_offer_allowed:
  "actions_of (templates_main q apps stacks) = TypeFilter #
     (case apps of Inl m \<Rightarrow> [] | Inr tms \<Rightarrow> map DeployApp (filter is_allowed (filter (template_matches (to_lower q)) tms))) @
     (case stacks of Inl m \<Rightarrow> [] | Inr tms \<Rightarrow> map DeployStack (filter is_allowed (filter (template_matches (to_lower q)) tms))) \<and>
   raws_of (templates_main q apps stacks) = []"
proof
  show "actions_of (templates_main q apps stacks) = TypeFilter #
     (case apps of Inl m \<Rightarrow> [] | Inr tms \<Rightarrow> map DeployApp (filter is_allowed (filter (template_matches (to_lower q)) tms))) @
     (case stacks of Inl m \<Rightarrow> [] | Inr tms \<Rightarrow> map DeployStack (filter is_allowed (filter (template_matches (to_lower q)) tms)))"
    by (simp add: templates_main_def grid_actions allowed_only split: sum.split)
  show "raws_of (templates_main q apps stacks) = []"
    by (simp add: templates_main_def grid_raws)
qed

text \<open>The cards on the page are those of the catalogue's model, in its order.\<close>

theorem card_nodes_match_cards:
  shows "text_content (app_node tm) = concat (card_texts (app_card tm))"
    and "text_content (stack_node tm) = concat (card_texts (Templates.stack_card tm))"
    and "actions (app_node tm) \<noteq> [] \<longleftrightarrow> card_deploys (app_card tm) \<noteq> None"
    and "actions (stack_node tm) \<noteq> [] \<longleftrightarrow> card_deploys (Templates.stack_card tm) \<noteq> None"
  by (simp_all add: app_node_def stack_node_def card_frame_def app_card_def Templates.stack_card_def comp_def actions_of_map)

theorem dashboard_quiet: "raws_of (dashboard_main d) = [] \<and> actions_of (dashboard_main d) = map (\<lambda>(lbl, p, r). QuickGo p r) quick_actions"
  by (simp add: dashboard_main_def quick_buttons_def raws_of_map actions_of_map stat_node_def split_beta quick_actions_def)

end
