(* ===== verification/DialogViews.thy ===== *)
theory DialogViews
  imports RunDialog ShortcutsHelp HubSearch PageViews
begin

text \<open>
  The elements of the dialogs that are not forms of \<open>formModal\<close>: the overlay of \<open>UI.modal\<close>, the run and clone dialog with its hints and
  quick picks, the Docker Hub section in it, and the help on shortcuts. Fixed styles are left out.
\<close>

section \<open>\<open>UI.modal\<close> and its toast\<close>

text \<open>\<open>closes\<close> is the action of a click on the overlay itself, \<open>None\<close> when \<open>noClickOutside\<close> is set.\<close>

definition modal_nodes :: "string \<Rightarrow> 'h node option \<Rightarrow> 'h node list option \<Rightarrow> 'h option \<Rightarrow> 'h node" where
  "modal_nodes title content acts closes = Elem ((new_elem ''div'')\<lparr>class_name := ''modal-bg'',
     listeners := (case closes of None \<Rightarrow> [] | Some h \<Rightarrow> [(''click'', h)])\<rparr>)
     [mk ''div'' ''modal'' ((if title = [] then [] else [Elem (new_elem ''h3'') (text_nodes title)]) @
        (case content of None \<Rightarrow> [] | Some b \<Rightarrow> [b]) @ (case acts of None \<Rightarrow> [] | Some ns \<Rightarrow> [mk ''div'' ''actions'' ns]))]"

text \<open>
  \<open>UI.toast\<close>: the call goes to \<open>window.toast\<close> when that is another function; else a floating toast is put into the container, made
  when there is none, and taken away after three seconds.
\<close>

record floating =
  toast_box :: bool
  floats :: "(nat \<times> string \<times> string) list"
  floats_made :: nat
  forwarded :: "(string \<times> string) list"

definition ui_toast :: "bool \<Rightarrow> string \<Rightarrow> string \<Rightarrow> floating \<Rightarrow> floating" where
  "ui_toast app_loaded msg kind f = (if app_loaded then f\<lparr>forwarded := forwarded f @ [(msg, kind)]\<rparr>
     else f\<lparr>toast_box := True, floats := floats f @ [(floats_made f, ''toast '' @ or_str kind ''info'', msg)], floats_made := Suc (floats_made f)\<rparr>)"

definition toast_timeout :: "nat \<Rightarrow> floating \<Rightarrow> floating" where
  "toast_timeout i f = f\<lparr>floats := filter (\<lambda>x. fst x \<noteq> i) (floats f)\<rparr>"

section \<open>The run dialog\<close>

datatype run_click = CloseRun | EditField string | PickTagChip string | PressRun | InHub hub_event

text \<open>\<open>addField\<close>: a label and an input with its identifier, hint and value; a text area has three lines.\<close>

definition run_field :: "string \<Rightarrow> string \<Rightarrow> string \<Rightarrow> bool \<Rightarrow> string \<Rightarrow> run_click node list" where
  "run_field lbl i ph multi val = [mk_text ''label'' [] lbl,
     Elem ((new_elem (if multi then ''textarea'' else ''input''))\<lparr>attributes := [(''id'', i), (''placeholder'', ph)] @
       (if multi then [(''rows'', ''3'')] else []) @ [(''value'', val)], listeners := [(''input'', EditField i)]\<rparr>) []]"

definition select_field :: "string \<Rightarrow> string \<Rightarrow> (string \<times> string) list \<Rightarrow> string \<Rightarrow> run_click node list" where
  "select_field lbl i opts val = [mk_text ''label'' [] lbl,
     Elem ((new_elem ''select'')\<lparr>attributes := [(''id'', i), (''value'', val)], listeners := [(''change'', EditField i)]\<rparr>)
       (map (\<lambda>(v, l). Elem ((new_elem ''option'')\<lparr>attributes := [(''value'', v)]\<rparr>) (text_nodes l)) opts)]"

definition tick_field :: "string \<Rightarrow> string \<Rightarrow> bool \<Rightarrow> run_click node list \<Rightarrow> run_click node" where
  "tick_field lbl i on icon = mk ''div'' [] ([Elem ((new_elem ''input'')\<lparr>attributes := [(''type'', ''checkbox''), (''id'', i)] @
       (if on then [(''checked'', [])] else []), listeners := [(''change'', EditField i)]\<rparr>) [],
     Elem ((new_elem ''label'')\<lparr>attributes := [(''for'', i)]\<rparr>) (text_nodes lbl)] @ icon)"

datatype picks = PicksLoading | PicksFailed | NoImages | PickTags "string list"

definition muted_html :: "string \<Rightarrow> string" where
  "muted_html s = ''<span style='' @ dquote @ ''font-size:12px;color:var(--muted)'' @ dquote @ ''>'' @ s @ ''</span>''"

definition pick_nodes :: "picks \<Rightarrow> run_click node list" where
  "pick_nodes p = (case p of
      PicksLoading \<Rightarrow> [Raw (muted_html (''Loading'' @ ellipsis))] | PicksFailed \<Rightarrow> [Raw (muted_html ''Could not load images.'')]
    | NoImages \<Rightarrow> [Raw (muted_html (''No images on this engine yet '' @ em_dash @ '' pull one from the Images page first.''))]
    | PickTags [] \<Rightarrow> [Raw (muted_html ''No tagged images available.'')]
    | PickTags tgs \<Rightarrow> map (\<lambda>tg. Elem ((new_elem ''button'')\<lparr>attributes := [(''type'', ''button''), (''title'', tg)],
        listeners := [(''click'', PickTagChip tg)]\<rparr>) (text_nodes tg)) tgs)"

text \<open>The Docker Hub section around its results area, whose rows HubSearch models.\<close>

definition hub_section :: "bool \<Rightarrow> run_click node list \<Rightarrow> run_click node" where
  "hub_section allowed area_nodes = Elem ((new_elem ''div'')\<lparr>css := (if allowed then None else Some ''display:none'')\<rparr>)
     [mk_text ''p'' [] ''Search Docker Hub'',
      mk ''div'' [] (map (\<lambda>img. Elem ((new_elem ''button'')\<lparr>attributes := [(''type'', ''button'')],
        listeners := [(''click'', InHub (hub_event.PickImage (fst img)))]\<rparr>) [Raw (chip_html img)]) popular_images),
      mk ''div'' [] [Elem ((new_elem ''input'')\<lparr>attributes := [(''placeholder'', ''Search by image name, e.g. postgres'')],
        listeners := [(''keydown'', InHub hub_event.EnterSearch)]\<rparr>) [], make_btn ''Search'' (InHub hub_event.EnterSearch) ''btn''],
      Elem ((new_elem ''div'')\<lparr>attributes := [(''data-testid'', ''hub-results'')]\<rparr>) area_nodes]"

definition run_heading :: "source option \<Rightarrow> run_click node list" where
  "run_heading src = (case src of None \<Rightarrow> [mk_text ''h3'' [] ''Run new container'']
     | Some s \<Rightarrow> [mk_text ''h3'' [] (''Clone container: '' @ src_name s), mk_text ''p'' [] (''Fields pre-filled from '' @ src_name s @
         ''. Edit any field, then launch. Env values are preserved server-side and never displayed.'')])"

definition run_banner :: "string \<Rightarrow> run_click node" where
  "run_banner msg = Elem ((new_elem ''div'')\<lparr>class_name := ''field-error'', attributes := [(''role'', ''alert''), (''aria-live'', ''polite'')],
     css := Some (if msg = [] then ''display:none'' else ''display:block'')\<rparr>) (text_nodes msg)"

definition run_inputs :: "source option \<Rightarrow> string \<Rightarrow> (string \<times> string) list \<Rightarrow> run_fields \<Rightarrow> run_click node list" where
  "run_inputs src note nets f =
    run_field ''Image'' ''run-image'' ''registry/image:tag'' False (f_image f) @
    [Elem ((new_elem ''p'')\<lparr>attributes := [(''id'', ''run-registry-hint'')]\<rparr>) (text_nodes note)] @
    run_field ''Name (optional)'' ''run-name'' ''my-container'' False (f_name f) @
    run_field ''Command (optional)'' ''run-cmd'' ''e.g. /bin/sh or sleep 3600'' False (f_command f) @
    run_field ''Ports (e.g. 8080:80)'' ''run-ports'' ''host-port:container-port'' False (f_ports f) @
    run_field ''Environment variables (one per line)'' ''run-env'' (case src of None \<Rightarrow> ''KEY=VALUE'' | Some s \<Rightarrow> env_placeholder s) True (f_env f) @
    run_field ''Volume mounts (one per line)'' ''run-volumes'' ''volume_name:/container/path'' True (f_volumes f) @
    [mk_text ''p'' [] (''Format: NAME:/absolute/path '' @ em_dash @ '' one per line. Example: test_volume:/data. The volume must already exist or will be created on first run.'')] @
    run_field ''Labels (one per line, key=value)'' ''run-labels'' ''app=myapp'' True (f_labels f) @
    select_field ''Restart policy'' ''run-restart'' (map (\<lambda>p. (p, p)) valid_restart_policies) (f_restart f) @
    select_field ''Network (optional)'' ''run-network'' (([], ''(default bridge)'') # map (\<lambda>(n, d). (n, n @ '' ('' @ d @ '')'')) nets) (f_network f)"

definition read_only_nodes :: "run_click node \<Rightarrow> bool \<Rightarrow> run_click node list" where
  "read_only_nodes icon on = [tick_field ''Read-only root filesystem (recommended)'' ''run-readonly'' on [icon],
     mk_text ''p'' [] ''Auto-mounts tmpfs on /tmp, /run, /var/run, /var/cache so most images work. Uncheck for images that write elsewhere on rootfs.'']"

definition replace_nodes :: "source option \<Rightarrow> bool \<Rightarrow> run_click node list" where
  "replace_nodes src on = (case src of None \<Rightarrow> [] | Some s \<Rightarrow>
     [tick_field (''Replace original (stop & remove '' @ src_name s @ '' after this one starts)'') ''run-replace'' on [],
      mk_text ''p'' [] ''If this container fails to start, the original is preserved.''])"

text \<open>The whole dialog. \<open>icon\<close> is the help icon of Widgets, \<open>nets\<close> the networks with their drivers once they have arrived.\<close>

definition run_nodes :: "run_click node \<Rightarrow> run_click node \<Rightarrow> picks \<Rightarrow> string \<Rightarrow> (string \<times> string) list \<Rightarrow> source option \<Rightarrow> run_dialog \<Rightarrow> run_click node list" where
  "run_nodes icon hub_part p note nets src d = (if \<not> dlg_open d then [] else
     [Elem ((new_elem ''div'')\<lparr>class_name := ''modal-bg'', listeners := [(''click'', CloseRun)]\<rparr>)
       [mk ''div'' ''modal'' (run_heading src @ [run_banner (dlg_banner d),
          mk ''div'' [] [mk_text ''p'' [] ''Available images on this engine'', mk ''div'' [] (pick_nodes p)], hub_part] @
          run_inputs src note nets (dlg_fields d) @ read_only_nodes icon (f_read_only (dlg_fields d)) @ replace_nodes src (f_replace (dlg_fields d)) @
          [mk ''div'' ''actions'' [make_btn ''Cancel'' CloseRun ''btn'', make_btn (btn_text (run_btn d)) PressRun ''btn primary'']])]])"

section \<open>The help on shortcuts\<close>

datatype help_click = BesideHelp | ReplayTour

definition help_nodes :: "bool \<Rightarrow> help_click node" where
  "help_nodes mac = Elem ((new_elem ''div'')\<lparr>class_name := ''modal-bg shortcuts-help'', listeners := [(''click'', BesideHelp)]\<rparr>)
     [mk ''div'' ''modal'' [mk_text ''h3'' [] ''Keyboard shortcuts'',
        mk ''dl'' [] (concat (map (\<lambda>(k, what). [mk_text ''dt'' [] k, mk_text ''dd'' [] what]) (help_rows mac))),
        mk_text ''p'' [] (''The Terminal tab also honours xterm.js shortcuts (Ctrl-C, arrow-key history, Tab completion) '' @ em_dash @
          '' those run inside the PTY, not the browser.''),
        mk ''div'' [] [mk_text ''span'' [] ''Want to see the 4-step guided tour again?'', make_btn ''Replay first-run tour'' ReplayTour ''btn small'']]]"

section \<open>Reading the form back\<close>

text \<open>\<open>getElementById\<close> over a tree: the elements that have an identifier, in document order.\<close>

fun ids :: "'h node \<Rightarrow> (string \<times> 'h elem) list" where
  "ids (Text s) = []"
| "ids (Raw s) = []"
| "ids (Elem e ns) = (case map_of (attributes e) ''id'' of None \<Rightarrow> [] | Some i \<Rightarrow> [(i, e)]) @ concat (map ids ns)"

definition ids_of :: "'h node list \<Rightarrow> (string \<times> 'h elem) list" where
  "ids_of ns = concat (map ids ns)"

lemma ids_of_simps [simp]: "ids_of [] = []" "ids_of (n # ns) = ids n @ ids_of ns" "ids_of (ms @ ns) = ids_of ms @ ids_of ns" "ids_of (text_nodes s) = []"
  by (simp_all add: ids_of_def text_nodes_def)

lemma ids_blocks [simp]: "ids (Elem e ns) = (case map_of (attributes e) ''id'' of None \<Rightarrow> [] | Some i \<Rightarrow> [(i, e)]) @ ids_of ns"
  "ids (mk tg cls ns) = ids_of ns" "ids (mk_text tg cls s) = []" "ids (make_btn l act cls) = []"
  by (simp_all add: ids_of_def mk_def mk_text_def make_btn_def new_elem_def text_nodes_def)

declare ids.simps(3) [simp del]

lemma ids_of_map: "(\<And>x. ids (f x) = []) \<Longrightarrow> ids_of (map f xs) = []"
  by (induction xs) simp_all

definition value_at :: "'h node list \<Rightarrow> string \<Rightarrow> string" where
  "value_at ns i = (case map_of (ids_of ns) i of None \<Rightarrow> [] | Some e \<Rightarrow> (case map_of (attributes e) ''value'' of None \<Rightarrow> [] | Some v \<Rightarrow> v))"

definition ticked_at :: "'h node list \<Rightarrow> string \<Rightarrow> bool" where
  "ticked_at ns i = (case map_of (ids_of ns) i of None \<Rightarrow> False | Some e \<Rightarrow> map_of (attributes e) ''checked'' \<noteq> None)"

text \<open>What the handler of Run reads from the document when it is pressed.\<close>

definition read_form :: "'h node list \<Rightarrow> run_fields" where
  "read_form ns = \<lparr>f_image = value_at ns ''run-image'', f_name = value_at ns ''run-name'', f_command = value_at ns ''run-cmd'',
     f_ports = value_at ns ''run-ports'', f_env = value_at ns ''run-env'', f_volumes = value_at ns ''run-volumes'',
     f_labels = value_at ns ''run-labels'', f_restart = value_at ns ''run-restart'', f_network = value_at ns ''run-network'',
     f_read_only = ticked_at ns ''run-readonly'', f_replace = ticked_at ns ''run-replace''\<rparr>"

section \<open>Properties\<close>

lemma pick_ids [simp]: "ids_of (pick_nodes p) = []"
  by (cases p rule: picks.exhaust) (auto simp: pick_nodes_def ids_of_map new_elem_def split: list.split picks.split)

lemma field_ids [simp]: "ids_of (run_field lbl i ph multi val) = [(i, (new_elem (if multi then ''textarea'' else ''input''))\<lparr>attributes :=
     [(''id'', i), (''placeholder'', ph)] @ (if multi then [(''rows'', ''3'')] else []) @ [(''value'', val)], listeners := [(''input'', EditField i)]\<rparr>)]"
  by (simp add: run_field_def)

lemma select_ids [simp]: "ids_of (select_field lbl i opts val) = [(i, (new_elem ''select'')\<lparr>attributes := [(''id'', i), (''value'', val)],
     listeners := [(''change'', EditField i)]\<rparr>)]"
  by (simp add: select_field_def ids_of_map split_beta)

lemma tick_ids [simp]: "ids (tick_field lbl i on icon) = (i, (new_elem ''input'')\<lparr>attributes := [(''type'', ''checkbox''), (''id'', i)] @
     (if on then [(''checked'', [])] else []), listeners := [(''change'', EditField i)]\<rparr>) # ids_of icon"
  by (simp add: tick_field_def)

text \<open>
  C39: the form is the state. Whatever has been typed, picked, prefilled or left alone, reading the open dialog back by the identifiers of its inputs, the
  way the handler of Run does, gives the fields of the dialog's state; the tick that replaces the original exists in clone mode only.
\<close>

theorem run_form_reads_back:
  assumes "dlg_open d" and "ids icon = []" and "ids hub_part = []"
  shows "read_form (run_nodes icon hub_part p note nets src d) =
    (dlg_fields d)\<lparr>f_replace := (src \<noteq> None \<and> f_replace (dlg_fields d))\<rparr>"
proof -
  have heading: "ids_of (run_heading src) = []" by (simp add: run_heading_def split: option.split)
  show ?thesis
  proof (cases src)
    case None
    with assms heading show ?thesis
      by (simp add: read_form_def value_at_def ticked_at_def run_nodes_def run_inputs_def run_banner_def read_only_nodes_def replace_nodes_def new_elem_def)
  next
    case (Some s)
    with assms heading show ?thesis
      by (simp add: read_form_def value_at_def ticked_at_def run_nodes_def run_inputs_def run_banner_def read_only_nodes_def replace_nodes_def new_elem_def)
  qed
qed

theorem run_form_reads_back_witness:
  "read_form (run_nodes (mk_text ''span'' [] ''i'') (hub_section True []) PicksLoading [] [(''net1'', ''bridge'')] None (open_dialog None None ''nginx'')) =
   (dlg_fields (open_dialog None None ''nginx''))\<lparr>f_replace := False\<rparr>"
proof -
  have "dlg_open (open_dialog None None ''nginx'')" by (simp add: open_dialog_def)
  moreover have "ids (mk_text ''span'' [] ''i'' :: run_click node) = []" by simp
  moreover have "ids (hub_section True []) = []" by (simp add: hub_section_def ids_of_map new_elem_def)
  ultimately show ?thesis
    using run_form_reads_back [of "open_dialog None None ''nginx''" "mk_text ''span'' [] ''i''" "hub_section True []" PicksLoading
        "[]" "[(''net1'', ''bridge'')]" None] by simp
qed

text \<open>The pressed button posts what the form shows.\<close>

theorem posts_what_is_shown:
  assumes "dlg_open d" and "\<not> disabled (run_btn d)" and "ids icon = []" and "ids hub_part = []"
    and "submit_run src (read_form (run_nodes icon hub_part p note nets src d)) = Inr post" and "src = None \<Longrightarrow> \<not> f_replace (dlg_fields d)"
  shows "posts (dialog_step src d RunClick) = posts d @ [post]"
proof -
  have "read_form (run_nodes icon hub_part p note nets src d) = dlg_fields d"
    using assms(6) by (cases src) (simp_all add: run_form_reads_back [OF assms(1,3,4)])
  with assms(1,2,5) show ?thesis by (simp add: submit_click_def)
qed

text \<open>The dialog parses constants only, whatever is cloned, typed or offered; the help offers one button beside its own overlay.\<close>

lemma run_blocks_raws [simp]: "raws_of (run_field lbl i ph multi val) = []" "raws_of (select_field lbl i opts val) = []"
  "raws (tick_field lbl i on icon) = raws_of icon" "raws (run_banner msg) = []" "raws_of (run_heading src) = []"
  by (simp_all add: run_field_def select_field_def tick_field_def run_banner_def run_heading_def raws_of_map split_beta split: option.split)

theorem run_dialog_markup:
  assumes "raws icon = []"
  shows "set (raws_of (run_nodes icon hub_part p note nets src d)) \<subseteq> set (raws hub_part) \<union> set (map muted_html
     [''Loading'' @ ellipsis, ''Could not load images.'', ''No images on this engine yet '' @ em_dash @ '' pull one from the Images page first.'',
      ''No tagged images available.''])"
proof -
  have "set (raws_of (pick_nodes p)) \<subseteq> set (map muted_html
     [''Loading'' @ ellipsis, ''Could not load images.'', ''No images on this engine yet '' @ em_dash @ '' pull one from the Images page first.'',
      ''No tagged images available.''])"
    by (cases p) (auto simp: pick_nodes_def raws_of_map split: list.split)
  with assms show ?thesis
    by (auto simp: run_nodes_def run_inputs_def read_only_nodes_def replace_nodes_def split: option.split)
qed

theorem help_overlay: "raws (help_nodes mac) = [] \<and> actions (help_nodes mac) = [BesideHelp, ReplayTour]"
  by (simp add: help_nodes_def help_rows_def)

end
