(* ===== verification/DetailTabs.thy ===== *)
theory DetailTabs
  imports Detail
begin

text \<open>
  The tabs of the detail view together: \<open>showDetail\<close>, the requests and polls of the inspect, stats and processes
  tabs, and the container list whose timer they share. A tab that is left has its interval cleared, not its
  request: where the answer lands depends on how the tab looks its element up.
\<close>

section \<open>The view\<close>

text \<open>
  Each \<open>showDetail\<close> makes a new element \<open>#detail-content\<close>; \<open>elements\<close> holds what each of them shows and \<open>opened\<close> the call
  it belongs to, with the interval of its poll and whether a request is out. \<open>at_tab\<close> is the element in the
  document, \<open>None\<close> away from the detail view. \<open>Answered j t ans\<close> is the answer the \<open>j\<close>-th call, of tab \<open>t\<close>, painted.
\<close>

datatype detail_tab = LogsTab | TerminalTab | InspectTab | StatsTab | ProcessesTab | FilesTab

datatype 'a tab_body = Fresh detail_tab | Answered nat detail_tab "string + 'a"

record tab_run =
  of_box :: string
  of_tab :: detail_tab
  own_poll :: "nat option"
  waiting :: bool

record 'a detail_desk =
  opened :: "tab_run list"
  elements :: "'a tab_body list"
  at_tab :: "nat option"
  desk_timers :: timers

definition desk_of :: "timers \<Rightarrow> 'a detail_desk" where
  "desk_of tm = \<lparr>opened = [], elements = [], at_tab = None, desk_timers = tm\<rparr>"

definition tab_name :: "detail_tab \<Rightarrow> string" where
  "tab_name tab = (case tab of LogsTab \<Rightarrow> ''logs'' | TerminalTab \<Rightarrow> ''terminal'' | InspectTab \<Rightarrow> ''inspect''
     | StatsTab \<Rightarrow> ''stats'' | ProcessesTab \<Rightarrow> ''processes'' | FilesTab \<Rightarrow> ''files'')"

definition tab_request :: "string \<Rightarrow> detail_tab \<Rightarrow> string option" where
  "tab_request box tab = (case tab of InspectTab \<Rightarrow> Some (''/api/containers/'' @ box @ ''/inspect'')
     | StatsTab \<Rightarrow> Some (''/api/containers/'' @ box @ ''/stats'')
     | ProcessesTab \<Rightarrow> Some (''/api/containers/'' @ box @ ''/top'') | _ \<Rightarrow> None)"

definition polls_tab :: "detail_tab \<Rightarrow> bool" where
  "polls_tab tab \<longleftrightarrow> tab = StatsTab \<or> tab = ProcessesTab"

definition show_detail :: "string \<Rightarrow> detail_tab \<Rightarrow> 'a detail_desk \<Rightarrow> 'a detail_desk" where
  "show_detail box tab d =
     (let tm = clear_all_intervals (clear_interval (refresh_timer (desk_timers d)) (desk_timers d));
          (k, armed) = managed_interval tm
      in d\<lparr>opened := opened d @ [\<lparr>of_box = box, of_tab = tab, own_poll = (if polls_tab tab then Some k else None),
             waiting = (tab_request box tab \<noteq> None)\<rparr>],
           elements := elements d @ [Fresh tab], at_tab := Some (length (opened d)),
           desk_timers := (if polls_tab tab then armed else tm)\<rparr>)"

text \<open>Another page, by \<open>showPage\<close>.\<close>

definition leave_detail :: "'a detail_desk \<Rightarrow> 'a detail_desk" where
  "leave_detail d = d\<lparr>at_tab := None, desk_timers := clear_all_intervals (desk_timers d)\<rparr>"

text \<open>
  Where an answer lands. The stats look for \<open>#stats-grid\<close> in the document, the processes for \<open>#detail-content\<close>, and
  the inspect tab keeps the element it was opened with. The message of a failure may clear \<open>refreshTimer\<close>.
\<close>

definition has_grid :: "'a tab_body \<Rightarrow> bool" where
  "has_grid b = (case b of Fresh tab \<Rightarrow> tab = StatsTab | Answered j tab ans \<Rightarrow> tab = StatsTab)"

definition lands_in :: "'a detail_desk \<Rightarrow> nat \<Rightarrow> detail_tab \<Rightarrow> nat option" where
  "lands_in d i tab = (case tab of
      StatsTab \<Rightarrow> (case at_tab d of Some c \<Rightarrow> if has_grid (elements d ! c) then Some c else None | None \<Rightarrow> None)
    | ProcessesTab \<Rightarrow> at_tab d
    | _ \<Rightarrow> Some i)"

definition paint_answer :: "nat \<Rightarrow> detail_tab \<Rightarrow> string + 'a \<Rightarrow> 'a detail_desk \<Rightarrow> 'a detail_desk" where
  "paint_answer i tab ans d = (case lands_in d i tab of None \<Rightarrow> d
     | Some c \<Rightarrow> d\<lparr>elements := (elements d)[c := Answered i tab ans]\<rparr>)"

definition ends_poll :: "detail_tab \<Rightarrow> string + 'a \<Rightarrow> bool" where
  "ends_poll tab ans = (case ans of Inr x \<Rightarrow> False
     | Inl msg \<Rightarrow> (tab = StatsTab \<and> stops msg) \<or> (tab = ProcessesTab \<and> (stops msg \<or> has_sub msg ''conflict'')))"

definition set_waiting :: "nat \<Rightarrow> bool \<Rightarrow> 'a detail_desk \<Rightarrow> 'a detail_desk" where
  "set_waiting i w d = d\<lparr>opened := (opened d)[i := (opened d ! i)\<lparr>waiting := w\<rparr>]\<rparr>"

definition tab_answer :: "nat \<Rightarrow> string + 'a \<Rightarrow> 'a detail_desk \<Rightarrow> 'a detail_desk" where
  "tab_answer i ans d = (let d1 = paint_answer i (of_tab (opened d ! i)) ans d;
       d2 = (if ends_poll (of_tab (opened d ! i)) ans
             then d1\<lparr>desk_timers := clear_interval (refresh_timer (desk_timers d1)) (desk_timers d1)\<rparr> else d1)
     in set_waiting i False d2)"

text \<open>
  \<open>TabTick i\<close>: the interval of the \<open>i\<close>-th call fires. \<open>ListLoaded\<close> and \<open>ListRefused\<close>: a load of the container list ends,
  the list having been on screen before; a success is dropped while the detail view is open, a failure is not. A loader of
  another page that writes over the view (ListPage) is not an event: a tab's interval would then live until its next tick.
\<close>

datatype 'a tab_event = OpenTab string detail_tab | LeaveDetail | TabTick nat | TabAnswer nat "string + 'a" | ListLoaded | ListRefused

definition tab_tick :: "nat \<Rightarrow> 'a detail_desk \<Rightarrow> 'a detail_desk" where
  "tab_tick i d = (case own_poll (opened d ! i) of None \<Rightarrow> d
     | Some k \<Rightarrow> if k \<notin> set (live (desk_timers d)) then d
         else if at_tab d = None then d\<lparr>desk_timers := clear_interval (Some k) (desk_timers d)\<rparr>
         else set_waiting i True d)"

fun tab_step :: "'a detail_desk \<Rightarrow> 'a tab_event \<Rightarrow> 'a detail_desk" where
  "tab_step d (OpenTab box tab) = show_detail box tab d"
| "tab_step d LeaveDetail = leave_detail d"
| "tab_step d (TabTick i) = (if i < length (opened d) then tab_tick i d else d)"
| "tab_step d (TabAnswer i ans) = (if i < length (opened d) \<and> waiting (opened d ! i) then tab_answer i ans d else d)"
| "tab_step d ListLoaded = (if at_tab d = None then d\<lparr>desk_timers := rearm_refresh (desk_timers d)\<rparr> else d)"
| "tab_step d ListRefused = d\<lparr>desk_timers := rearm_refresh (desk_timers d)\<rparr>"

section \<open>Lemmas\<close>

text \<open>Who may have painted the \<open>i\<close>-th element.\<close>

definition rightful :: "tab_run list \<Rightarrow> nat \<Rightarrow> 'a tab_body \<Rightarrow> bool" where
  "rightful rs i b = (case b of Fresh tab \<Rightarrow> tab = of_tab (rs ! i)
     | Answered j tab ans \<Rightarrow> j < length rs \<and> tab = of_tab (rs ! j) \<and>
         (j = i \<or> tab = ProcessesTab \<or> tab = StatsTab \<and> of_tab (rs ! i) = StatsTab))"

definition shapes_ok :: "'a detail_desk \<Rightarrow> bool" where
  "shapes_ok d \<longleftrightarrow> length (elements d) = length (opened d) \<and> (\<forall>c. at_tab d = Some c \<longrightarrow> c < length (opened d)) \<and>
     (\<forall>i < length (opened d). rightful (opened d) i (elements d ! i))"

definition poll_ok :: "'a detail_desk \<Rightarrow> bool" where
  "poll_ok d \<longleftrightarrow> timers_inv (desk_timers d) \<and> (\<forall>i < length (opened d). \<forall>k. own_poll (opened d ! i) = Some k \<longrightarrow>
     k < next_id (desk_timers d) \<and> (k \<in> set (live (desk_timers d)) \<longrightarrow> at_tab d = Some i))"

lemma grid_of_stats: "rightful rs i b \<Longrightarrow> has_grid b \<Longrightarrow> of_tab (rs ! i) = StatsTab"
  by (auto simp: rightful_def has_grid_def split: tab_body.splits)

lemma waiting_frame [simp]:
  "elements (set_waiting i w d) = elements d" "at_tab (set_waiting i w d) = at_tab d" "desk_timers (set_waiting i w d) = desk_timers d"
  "length (opened (set_waiting i w d)) = length (opened d)"
  by (simp_all add: set_waiting_def)

lemma waiting_runs: "i < length (opened d) \<Longrightarrow> of_tab (opened (set_waiting i w d) ! j) = of_tab (opened d ! j)"
  "i < length (opened d) \<Longrightarrow> own_poll (opened (set_waiting i w d) ! j) = own_poll (opened d ! j)"
  by (cases "j = i"; simp add: set_waiting_def)+

lemma shapes_frame: "shapes_ok (set_waiting i w d) = shapes_ok d" if "i < length (opened d)"
  using that by (simp add: shapes_ok_def rightful_def waiting_runs split: tab_body.split)

lemma polls_frame: "poll_ok (set_waiting i w d) = poll_ok d" if "i < length (opened d)"
  using that by (simp add: poll_ok_def waiting_runs)

lemma shapes_timers: "shapes_ok (d\<lparr>desk_timers := tm\<rparr>) = shapes_ok d"
  by (simp add: shapes_ok_def)

lemma paint_frame [simp]: "opened (paint_answer i tab ans d) = opened d" "at_tab (paint_answer i tab ans d) = at_tab d"
  "desk_timers (paint_answer i tab ans d) = desk_timers d"
  by (simp_all add: paint_answer_def split: option.split)

lemma shapes_painted:
  assumes "shapes_ok d" and "i < length (opened d)"
  shows "shapes_ok (paint_answer i (of_tab (opened d ! i)) ans d)"
proof (cases "lands_in d i (of_tab (opened d ! i))")
  case (Some c)
  with assms have c: "c < length (opened d)"
    by (auto simp: lands_in_def shapes_ok_def split: detail_tab.splits option.splits if_splits)
  with assms have "rightful (opened d) c (elements d ! c)" by (simp add: shapes_ok_def)
  with Some assms(2) have "rightful (opened d) c (Answered i (of_tab (opened d ! i)) ans)"
    using grid_of_stats [of "opened d" c "elements d ! c"]
    by (auto simp: rightful_def lands_in_def split: detail_tab.splits option.splits if_splits)
  with assms(1) Some c show ?thesis by (auto simp: paint_answer_def shapes_ok_def nth_list_update)
qed (use assms in \<open>simp add: paint_answer_def\<close>)

lemma shapes_opened: "shapes_ok d \<Longrightarrow> shapes_ok (show_detail box tab d)"
  by (auto simp: shapes_ok_def show_detail_def managed_interval_def Let_def nth_append less_Suc_eq rightful_def split: tab_body.splits)

lemma tab_tick_cases: "tab_tick i d = d \<or> (\<exists>tm. tab_tick i d = d\<lparr>desk_timers := tm\<rparr>) \<or> tab_tick i d = set_waiting i True d"
  by (auto simp: tab_tick_def split: option.split)

lemma shapes_step: "shapes_ok d \<Longrightarrow> shapes_ok (tab_step d e)"
proof (cases e)
  case (TabTick i)
  assume "shapes_ok d"
  with TabTick tab_tick_cases [of i d] show ?thesis by (auto simp: shapes_timers shapes_frame)
next
  case (TabAnswer i ans)
  assume "shapes_ok d"
  with TabAnswer shapes_painted [of d i ans] show ?thesis
    by (simp add: tab_answer_def Let_def shapes_frame shapes_timers)
next
  case LeaveDetail
  assume "shapes_ok d"
  with LeaveDetail show ?thesis by (simp add: shapes_ok_def leave_detail_def)
qed (simp_all add: shapes_opened shapes_timers)

lemma timers_clear: "timers_inv tm \<Longrightarrow> timers_inv (clear_interval i tm)"
  by (auto simp: timers_inv_def split: option.splits)

lemma poll_clear: "poll_ok d \<Longrightarrow> poll_ok (d\<lparr>desk_timers := clear_interval i (desk_timers d)\<rparr>)"
  by (auto simp: poll_ok_def timers_clear)

lemma poll_rearm: "poll_ok d \<Longrightarrow> poll_ok (d\<lparr>desk_timers := rearm_refresh (desk_timers d)\<rparr>)"
  using timer_step_inv [of "desk_timers d" Rearm]
  by (fastforce simp: poll_ok_def rearm_refresh_def managed_interval_def)

lemma poll_opened:
  assumes "poll_ok d" shows "poll_ok (show_detail box tab d)"
proof -
  define tm where "tm = clear_all_intervals (clear_interval (refresh_timer (desk_timers d)) (desk_timers d))"
  have "timers_inv (clear_interval (refresh_timer (desk_timers d)) (desk_timers d))" using assms by (simp add: poll_ok_def timers_clear)
  then have none: "live tm = []" and tm: "timers_inv tm"
    using timer_step_inv [of _ ClearAll] by (simp_all add: tm_def clear_all_live)
  have "timers_inv (snd (managed_interval tm))" using timer_step_inv [OF tm, of Managed] by simp
  moreover have "next_id tm = next_id (desk_timers d)" by (simp add: tm_def)
  ultimately show ?thesis using assms none tm
    by (auto simp: poll_ok_def show_detail_def Let_def tm_def [symmetric] managed_interval_def nth_append less_Suc_eq split: if_splits)
qed

lemma poll_left: "poll_ok d \<Longrightarrow> poll_ok (leave_detail d)"
  using timer_step_inv [of "desk_timers d" ClearAll] by (simp add: poll_ok_def leave_detail_def clear_all_live)

lemma poll_step_ok: "poll_ok d \<Longrightarrow> poll_ok (tab_step d e)"
proof (cases e)
  case (TabTick i)
  assume "poll_ok d"
  with TabTick show ?thesis by (simp add: tab_tick_def poll_clear polls_frame split: option.split)
next
  case (TabAnswer i ans)
  assume "poll_ok d"
  moreover from this have "poll_ok (paint_answer i (of_tab (opened d ! i)) ans d)" by (simp add: poll_ok_def)
  ultimately show ?thesis using TabAnswer poll_clear [of "paint_answer i (of_tab (opened d ! i)) ans d"]
    by (simp add: tab_answer_def Let_def polls_frame)
qed (simp_all add: poll_opened poll_left poll_rearm)

lemma desk_run: "timers_inv tm \<Longrightarrow> shapes_ok (run_events tab_step (desk_of tm) es) \<and> poll_ok (run_events tab_step (desk_of tm) es)"
  by (rule run_events_invariant) (auto simp: shapes_step poll_step_ok, simp_all add: shapes_ok_def poll_ok_def desk_of_def)

text \<open>What is on screen was answered, and to that call.\<close>

definition answered_in :: "'a tab_event list \<Rightarrow> 'a tab_body \<Rightarrow> bool" where
  "answered_in es b = (case b of Fresh tab \<Rightarrow> True | Answered j tab ans \<Rightarrow> TabAnswer j ans \<in> set es)"

lemma answered_more: "list_all (answered_in es) bs \<Longrightarrow> list_all (answered_in (es @ [e])) bs"
  by (auto simp: list_all_iff answered_in_def split: tab_body.splits)

lemma list_all_update: "list_all P xs \<Longrightarrow> P x \<Longrightarrow> list_all P (xs[i := x])"
  by (auto simp: list_all_iff dest: set_update_subset_insert [THEN subsetD])

lemma elements_step: "elements (tab_step d e) = elements d \<or> (\<exists>tab. elements (tab_step d e) = elements d @ [Fresh tab]) \<or>
    (\<exists>i c tab ans. e = TabAnswer i ans \<and> elements (tab_step d e) = (elements d)[c := Answered i tab ans])"
proof (cases e)
  case (TabTick i)
  with tab_tick_cases [of i d] show ?thesis by auto
next
  case (TabAnswer i ans)
  then show ?thesis by (auto simp: tab_answer_def Let_def paint_answer_def split: option.split)
qed (simp_all add: show_detail_def leave_detail_def managed_interval_def Let_def)

lemma answered_run: "list_all (answered_in es) (elements (run_events tab_step (desk_of tm) es))"
proof (induction es rule: rev_induct)
  case (snoc e es)
  let ?d = "run_events tab_step (desk_of tm) es"
  have old: "list_all (answered_in (es @ [e])) (elements ?d)" using snoc by (rule answered_more)
  have run: "run_events tab_step (desk_of tm) (es @ [e]) = tab_step ?d e" by simp
  from elements_step [of ?d e] consider "elements (tab_step ?d e) = elements ?d"
    | tab where "elements (tab_step ?d e) = elements ?d @ [Fresh tab]"
    | i c tab ans where "e = TabAnswer i ans" and "elements (tab_step ?d e) = (elements ?d)[c := Answered i tab ans]" by blast
  then show ?case
  proof cases
    case 2
    have "answered_in (es @ [e]) (Fresh tab)" by (simp add: answered_in_def)
    with old 2 show ?thesis by (simp only: run list_all_append list.pred_inject simp_thms)
  next
    case 3
    have "answered_in (es @ [e]) (Answered i tab ans)" using 3(1) by (simp add: answered_in_def)
    with old show ?thesis unfolding run 3(2) by (rule list_all_update)
  qed (use old in \<open>simp only: run\<close>)
qed (simp add: desk_of_def)

section \<open>Properties\<close>

definition firing :: "'a detail_desk \<Rightarrow> nat \<Rightarrow> bool" where
  "firing d i \<longleftrightarrow> (case own_poll (opened d ! i) of None \<Rightarrow> False | Some k \<Rightarrow> k \<in> set (live (desk_timers d)))"

definition fits :: "'a tab_event list \<Rightarrow> 'a detail_desk \<Rightarrow> nat \<Rightarrow> bool" where
  "fits es d c \<longleftrightarrow> (case elements d ! c of Fresh tab \<Rightarrow> tab = of_tab (opened d ! c)
     | Answered j tab ans \<Rightarrow> TabAnswer j ans \<in> set es \<and> tab = of_tab (opened d ! j) \<and>
         (j = c \<or> tab = ProcessesTab \<or> tab = StatsTab \<and> of_tab (opened d ! c) = StatsTab))"

text \<open>
  C40: The tabs of the detail view share one element and keep apart. Whatever is opened, left, polled and answered,
  in any order: what the open tab shows is its own first content, an answer of the server to its own request, an answer to an
  earlier visit of the stats while the stats are open, or an answer to a visit of the processes; and the only
  interval of a tab that still fires is the one of the tab on screen.
\<close>

theorem tabs_share_one_element:
  "let d = run_events tab_step (desk_of timers_init) es in
     (case at_tab d of None \<Rightarrow> True | Some c \<Rightarrow> c < length (opened d) \<and> fits es d c) \<and>
     list_all (\<lambda>i. at_tab d = Some i) (filter (firing d) [0..<length (opened d)])"
proof -
  define d where "d = run_events tab_step (desk_of timers_init) es"
  have ok: "shapes_ok d" "poll_ok d" using desk_run [OF timers_init_inv, of es] by (simp_all add: d_def)
  have shown: "fits es d c" if "c < length (opened d)" for c
  proof -
    from that ok(1) have "rightful (opened d) c (elements d ! c)" and "elements d ! c \<in> set (elements d)"
      by (simp_all add: shapes_ok_def)
    moreover from this(2) answered_run [of es timers_init] have "answered_in es (elements d ! c)" by (simp add: d_def list_all_iff)
    ultimately show ?thesis by (auto simp: fits_def rightful_def answered_in_def split: tab_body.splits)
  qed
  have "at_tab d = Some i" if "i < length (opened d)" and "firing d i" for i
    using ok(2) that by (auto simp: poll_ok_def firing_def split: option.splits)
  then have fires: "list_all (\<lambda>i. at_tab d = Some i) (filter (firing d) [0..<length (opened d)])"
    by (force simp only: list_all_iff set_filter set_upt atLeastLessThan_iff mem_Collect_eq)
  have "(case at_tab d of None \<Rightarrow> True | Some c \<Rightarrow> c < length (opened d) \<and> fits es d c) \<and>
      list_all (\<lambda>i. at_tab d = Some i) (filter (firing d) [0..<length (opened d)])"
  proof (rule conjI [OF _ fires])
    show "case at_tab d of None \<Rightarrow> True | Some c \<Rightarrow> c < length (opened d) \<and> fits es d c"
      using ok(1) shown by (simp add: shapes_ok_def split: option.split)
  qed
  then show ?thesis unfolding Let_def d_def .
qed

text \<open>An answer to the tab on screen is shown, unless the grid of the stats is gone.\<close>

theorem open_tab_shows_answer:
  assumes "at_tab d = Some c" and "c < length (opened d)" and "length (elements d) = length (opened d)" and "waiting (opened d ! c)"
    and "of_tab (opened d ! c) = StatsTab \<Longrightarrow> has_grid (elements d ! c)"
  shows "elements (tab_step d (TabAnswer c ans)) ! c = Answered c (of_tab (opened d ! c)) ans"
  using assms by (cases "of_tab (opened d ! c)") (simp_all add: tab_answer_def Let_def paint_answer_def lands_in_def)

text \<open>A processes answer that comes late replaces the content of the tab the user has gone to.\<close>

theorem late_top_overwrites_tab:
  "let d = run_events tab_step (desk_of tm) [OpenTab box ProcessesTab, OpenTab box FilesTab, TabAnswer 0 ans] in
     at_tab d = Some 1 \<and> of_tab (opened d ! 1) = FilesTab \<and> elements d ! 1 = Answered 0 ProcessesTab ans"
  by (simp add: desk_of_def show_detail_def tab_request_def polls_tab_def managed_interval_def tab_answer_def paint_answer_def
      lands_in_def set_waiting_def Let_def)

text \<open>On the stats tab it takes the grid with it: from then on no answer to the stats is shown while the tab is open.\<close>

theorem late_top_ends_stats:
  assumes "at_tab d = Some c" and "of_tab (opened d ! c) = StatsTab" and "elements d ! c = Answered j ProcessesTab ans"
  shows "elements (run_events tab_step d (map (\<lambda>(tick, ans). if tick then TabTick c else TabAnswer c ans) es)) = elements d"
  using assms
proof (induction es arbitrary: d)
  case (Cons p es)
  obtain tick ans' where p: "p = (tick, ans')" by force
  define e where "e = (if tick then TabTick c else TabAnswer c ans')"
  have same: "elements (tab_step d e) = elements d \<and> at_tab (tab_step d e) = Some c \<and> of_tab (opened (tab_step d e) ! c) = StatsTab"
    using Cons.prems waiting_runs(1) [of c d]
    by (auto simp: e_def tab_answer_def paint_answer_def lands_in_def has_grid_def tab_tick_def Let_def set_waiting_def split: option.split)
  with Cons.IH [of "tab_step d e"] Cons.prems(3) show ?case by (simp add: p e_def [symmetric])
qed simp

text \<open>The stats of a container that was left are shown as those of the one on screen.\<close>

theorem late_stats_of_other_box:
  "let d = run_events tab_step (desk_of tm) [OpenTab ''a'' StatsTab, OpenTab ''b'' StatsTab, TabAnswer 1 mine, TabAnswer 0 late] in
     at_tab d = Some 1 \<and> of_box (opened d ! 1) = ''b'' \<and> elements d ! 1 = Answered 0 StatsTab late"
  by (simp add: desk_of_def show_detail_def tab_request_def polls_tab_def managed_interval_def tab_answer_def paint_answer_def
      lands_in_def has_grid_def set_waiting_def Let_def)

text \<open>
  A failure that comes after the user has gone back to the list clears the timer of the list: nothing refreshes it any more, and
  nothing says so.
\<close>

theorem late_failure_stops_list_poll:
  assumes "stops msg"
  shows "let before = run_events tab_step (desk_of timers_init) [OpenTab box StatsTab, LeaveDetail, ListLoaded];
      d = tab_step before (TabAnswer 0 (Inl msg)) in
     live (desk_timers before) \<noteq> [] \<and> live (desk_timers d) = [] \<and> at_tab d = None \<and> elements d = elements before"
  using assms by (simp add: desk_of_def show_detail_def tab_request_def polls_tab_def managed_interval_def tab_answer_def
      paint_answer_def lands_in_def set_waiting_def Let_def leave_detail_def timers_init_def clear_all_intervals_def rearm_refresh_def
      ends_poll_def clear_interval_def)

theorem late_failure_stops_list_poll_witness:
  "live (desk_timers (run_events tab_step (desk_of timers_init)
     [OpenTab ''c1'' StatsTab, LeaveDetail, ListLoaded, TabAnswer 0 (Inl ''No such container: not found'')])) = []"
proof -
  have "stops ''No such container: not found''" by code_simp
  from late_failure_stops_list_poll [OF this, of "''c1''"] show ?thesis unfolding Let_def run_events.simps by blast
qed

end
