(* ===== verification/TemplateDeploy.thy ===== *)
theory TemplateDeploy
  imports PageForms RunDialog Registry
begin

text \<open>
  Deploying from the catalogue, pages/templates.js 182-249: the review form of a stack with its answers and the jump to the
  Compose page that follows, and the run modal an app opens, from the card's click to what is posted.
\<close>

section \<open>The page\<close>

text \<open>
  \<open>showTemplates\<close>: both catalogues are asked for, and a failure of either is a result like any other, so what can throw is
  the painting of the answers (\<open>LoadError\<close> here), after the test of the page. A call on another page asks for nothing.
\<close>

type_synonym catalogues = "(string + stack_template list) \<times> (string + stack_template list)"

definition templates_step :: "catalogues list_page \<Rightarrow> catalogues page_event \<Rightarrow> catalogues list_page" where
  "templates_step p e = (case e of
      LoadCall \<Rightarrow> if cur_page p = ''templates'' then load_page p else p\<lparr>main_area := PageLoading\<rparr>
    | LoadError msg \<Rightarrow> if cur_page p = ''templates'' then page_step ''templates'' p (LoadError (''Failed to load templates: '' @ msg))
        else page_step ''templates'' p (Answered (Inl [], Inl []))
    | _ \<Rightarrow> page_step ''templates'' p e)"

text \<open>Its catalogues and its errors stay on its page, and each request it made is answered there.\<close>

theorem templates_page_keeps_to_itself:
  "let p = run_events templates_step (page_init q) es in
     (case main_area p of PageList x \<Rightarrow> cur_page p = ''templates'' | PageFailed msg \<Rightarrow> cur_page p = ''templates'' | _ \<Rightarrow> True)"
proof -
  let ?P = "\<lambda>p :: catalogues list_page. case main_area p of PageList x \<Rightarrow> cur_page p = ''templates'' | PageFailed msg \<Rightarrow> cur_page p = ''templates'' | _ \<Rightarrow> True"
  have "?P (run_events templates_step (page_init q) es)"
  proof (rule run_events_invariant [where P = ?P])
    fix p e
    assume "?P p"
    then show "?P (templates_step p e)"
      by (cases e) (auto simp: templates_step_def load_page_def Let_def split: page_view.splits)
  qed (simp add: page_init_def)
  then show ?thesis by (simp add: Let_def)
qed

section \<open>Apps\<close>

text \<open>
  \<open>_deployTemplate\<close>: the containers page, and 60 ms later the run modal, filled from the template; \<open>rnd\<close> is the random
  number of the name, below 10000, and \<open>parts\<close> what the catalogue says of command, ports, environment and volumes (of a port its host
  and container numbers: the protocol the catalogue names is not read).
\<close>

definition run_template :: "nat \<Rightarrow> stack_template \<Rightarrow> template \<Rightarrow> template" where
  "run_template rnd tm parts = parts\<lparr>t_image := tm_image tm, t_name := tm_id tm @ ''-'' @ show_nat rnd\<rparr>"

definition modal_delay :: int where
  "modal_delay = 60"

text \<open>
  \<open>pending_runs\<close> are the timers that have not fired, with their deadlines; \<open>runs\<close> every run modal opened since, closed ones included: a
  request of a closed one is still answered.
\<close>

record app_deploy =
  app_nav :: nav
  pending_runs :: "(int \<times> template) list"
  runs :: "run_dialog list"

datatype app_event = ClickApp int nat stack_template template | RunTimer int | InRun nat dialog_event | AppGoes string

definition overlay_up :: "app_deploy \<Rightarrow> bool" where
  "overlay_up s = list_ex dlg_open (runs s)"

fun app_step :: "app_deploy \<Rightarrow> app_event \<Rightarrow> app_deploy" where
  "app_step s (ClickApp now rnd tm parts) = (if is_allowed tm \<and> \<not> overlay_up s
     then s\<lparr>app_nav := show_page pages True ''containers'' (app_nav s),
       pending_runs := pending_runs s @ [(now + modal_delay, run_template rnd tm parts)]\<rparr> else s)"
| "app_step s (RunTimer now) = (case pending_runs s of [] \<Rightarrow> s
     | (at, tp) # rest \<Rightarrow> if now < at then s else (let s1 = s\<lparr>pending_runs := rest\<rparr> in
         case show_run_modal (overlay_up s) None (Some tp) [] of None \<Rightarrow> s1 | Some d \<Rightarrow> s1\<lparr>runs := runs s @ [d]\<rparr>))"
| "app_step s (InRun i e) = (if i < length (runs s) then s\<lparr>runs := (runs s)[i := dialog_step None (runs s ! i) e]\<rparr> else s)"
| "app_step s (AppGoes page) = s\<lparr>app_nav := show_page pages True page (app_nav s)\<rparr>"

definition run_posts :: "app_deploy \<Rightarrow> (string \<times> string option \<times> run_body) list" where
  "run_posts s = concat (map posts (runs s))"

text \<open>What the texts of a template look like for the form to keep them apart.\<close>

definition line_text :: "string \<Rightarrow> bool" where
  "line_text l \<longleftrightarrow> l \<noteq> [] \<and> CHR 0x0A \<notin> set l \<and> \<not> is_space (hd l) \<and> \<not> is_space (last l)"

definition env_lines :: "template \<Rightarrow> string list" where
  "env_lines tp = map (\<lambda>(k, v). k @ ''='' @ v) (t_env tp)"

definition mount_lines :: "template \<Rightarrow> string list" where
  "mount_lines tp = map (\<lambda>(hint, nm, mount). or_str (or_str hint nm) ''data'' @ '':'' @ mount) (t_volumes tp)"

definition template_ok :: "template \<Rightarrow> bool" where
  "template_ok tp \<longleftrightarrow> line_text (t_image tp) \<and> list_all line_text (env_lines tp) \<and> list_all line_text (mount_lines tp) \<and>
     list_all (\<lambda>(h, c). port_text h \<and> port_text c) (t_ports tp) \<and> distinct (map snd (t_ports tp))"

text \<open>What the catalogue asks for: the body a template stands for.\<close>

definition some_list :: "'a list \<Rightarrow> 'a list option" where
  "some_list xs = (if xs = [] then None else Some xs)"

definition catalogue_body :: "template \<Rightarrow> run_body" where
  "catalogue_body tp = \<lparr>b_ports = some_list (map (\<lambda>(h, c). (c, h)) (t_ports tp)), b_environment = some_list (env_lines tp),
     b_command = null_if_empty (t_command tp), b_volumes = some_list (mount_lines tp), b_restart = ''no'', b_network = None,
     b_labels = None, b_read_only = True, b_inherit_from = None, b_replace_id = None\<rparr>"

lemma join_ends: "xs \<noteq> [] \<Longrightarrow> \<forall>x \<in> set xs. x \<noteq> [] \<Longrightarrow> join sp xs \<noteq> [] \<and> hd (join sp xs) = hd (hd xs) \<and> last (join sp xs) = last (last xs)"
  by (induction sp xs rule: join.induct) auto

lemma trim_lines: "xs \<noteq> [] \<Longrightarrow> list_all line_text xs \<Longrightarrow> trim (join newline xs) = join newline xs \<and> join newline xs \<noteq> []"
  using join_ends [of xs newline] by (auto simp: list_all_iff line_text_def intro!: trim_id)

lemma split_lines: "xs \<noteq> [] \<Longrightarrow> list_all line_text xs \<Longrightarrow> split_on CHR 0x0A (join newline xs) = xs"
  using split_on_join [of xs "CHR 0x0A"] by (auto simp: list_all_iff line_text_def)

lemma nonempty_lines: "list_all line_text xs \<Longrightarrow> nonempty xs = xs"
  by (rule nonempty_id) (auto simp: list_all_iff line_text_def)

lemma parse_joined_lines: "list_all line_text xs \<Longrightarrow> parse_lines (join newline xs) = some_list xs"
  by (cases "xs = []") (simp_all add: parse_lines_def some_list_def lines_of_def trim_lines split_lines nonempty_lines)

lemma volumes_pass: "list_all line_text xs \<Longrightarrow> list_all (\<lambda>l. CHR '':'' \<in> set l) xs \<Longrightarrow>
    (if join newline xs = [] then None else preflight (join newline xs)) = None"
proof (cases "xs = []")
  case False
  assume "list_all line_text xs" and colon: "list_all (\<lambda>l. CHR '':'' \<in> set l) xs"
  moreover from this(1) have "map trim xs = xs" by (induction xs) (auto simp: line_text_def intro: trim_id)
  ultimately have "volume_lines (join newline xs) = xs" by (simp add: False volume_lines_def split_lines nonempty_lines)
  with colon find_enumerate_None [of "\<lambda>l. CHR '':'' \<notin> set l" 1 xs] show ?thesis by (simp add: preflight_def list_all_iff)
qed simp

lemma mount_colons: "list_all (\<lambda>l. CHR '':'' \<in> set l) (mount_lines tp)"
  by (auto simp: mount_lines_def list_all_iff)

lemma parse_template_ports: "list_all (\<lambda>(h, c). port_text h \<and> port_text c) ps \<Longrightarrow> distinct (map snd ps) \<Longrightarrow>
    parse_ports (join '', '' (map (\<lambda>(h, c). h @ '':'' @ c) ps)) = some_list (map (\<lambda>(h, c). (c, h)) ps)"
  using parse_ports_join [of ps] by (cases "ps = []") (auto simp: parse_ports_def some_list_def list_all_iff)

lemma template_body: "template_ok tp \<Longrightarrow> submit_run None (template_fields tp) = Inr (t_image tp, null_if_empty (t_name tp), catalogue_body tp)"
proof -
  assume ok: "template_ok tp"
  have img: "trim (t_image tp) = t_image tp \<and> t_image tp \<noteq> []"
    using ok by (auto simp: template_ok_def line_text_def intro: trim_id)
  have "submit_body None (template_fields tp) = catalogue_body tp"
    using ok parse_joined_lines [of "env_lines tp"] parse_joined_lines [of "mount_lines tp"] parse_template_ports [of "t_ports tp"]
    by (simp add: submit_body_def catalogue_body_def template_fields_def empty_fields_def template_ok_def env_lines_def mount_lines_def
        null_if_empty_def parse_labels_def)
  moreover have "f_volumes (template_fields tp) = join newline (mount_lines tp)"
    by (simp add: template_fields_def mount_lines_def)
  moreover have "f_image (template_fields tp) = t_image tp" "f_name (template_fields tp) = t_name tp" by (simp_all add: template_fields_def)
  moreover have "(if join newline (mount_lines tp) = [] then None else preflight (join newline (mount_lines tp))) = None"
    using volumes_pass [of "mount_lines tp"] mount_colons [of tp] ok by (simp add: template_ok_def)
  ultimately show ?thesis using img by (simp only: submit_run_def Let_def if_False option.case simp_thms)
qed

section \<open>Stacks\<close>

text \<open>
  \<open>_deployStackTemplate\<close>. \<open>sd_sent\<close> are the values of the submission that is out; \<open>deployed\<close> the requests so far, with the template and
  the values behind each; \<open>jumps\<close> the 300 ms timers that lead to the Compose page. The random number \<open>rnd\<close> is only in the value the
  name of the project starts with, which \<open>open_stack\<close> sets: the spec that later steps read is the same for every number.
\<close>

record stack_dialog =
  sd_tm :: stack_template
  sd_form :: form_modal
  sd_sent :: "(string \<times> fvalue) list"

record stack_deploy =
  sd_nav :: nav
  stack_dialogs :: "stack_dialog list"
  deployed :: "(stack_template \<times> (string \<times> fvalue) list \<times> string \<times> string) list"
  sd_toasts :: "toast list"
  jumps :: nat

definition stack_spec :: "stack_dialog \<Rightarrow> modal_spec" where
  "stack_spec g = spec_of (deploy_fields 0 (sd_tm g)) ''Deploy stack''"

definition open_stack :: "nat \<Rightarrow> stack_template \<Rightarrow> stack_dialog" where
  "open_stack rnd tm = \<lparr>sd_tm = tm, sd_form = open_modal (spec_of (deploy_fields rnd tm) ''Deploy stack''), sd_sent = []\<rparr>"

definition put_dialog :: "nat \<Rightarrow> stack_dialog \<Rightarrow> stack_deploy \<Rightarrow> stack_deploy" where
  "put_dialog i g s = s\<lparr>stack_dialogs := (stack_dialogs s)[i := g]\<rparr>"

text \<open>The submit handler of the form calls \<open>onSubmit\<close> with the values when the form is valid and no request is out.\<close>

definition submit_stack :: "nat \<Rightarrow> stack_deploy \<Rightarrow> stack_deploy" where
  "submit_stack i s = (let g = stack_dialogs s ! i; m = modal_step (stack_spec g) (sd_form g) (modal_event.Submit Promise); vs = get_values (fm_form m) in
     if calls m = calls (sd_form g) then put_dialog i (g\<lparr>sd_form := m\<rparr>) s
     else (put_dialog i (g\<lparr>sd_form := m, sd_sent := vs\<rparr>) s)\<lparr>deployed := deployed s @ [(sd_tm g, vs, deploy_stack (sd_tm g) vs)]\<rparr>)"

definition deployed_toast :: "stack_dialog \<Rightarrow> toast" where
  "deployed_toast g = (''Stack '' @ dquote @ str_value (sd_sent g) ''project_name'' @ dquote @ '' deployed '' @ em_dash @ '' opening Compose page'', Success)"

definition stack_answer :: "nat \<Rightarrow> string option + unit \<Rightarrow> stack_deploy \<Rightarrow> stack_deploy" where
  "stack_answer i ans s = (let g = stack_dialogs s ! i in
     case ans of Inl e \<Rightarrow> put_dialog i (g\<lparr>sd_form := modal_step (stack_spec g) (sd_form g) (modal_event.Rejected e)\<rparr>) s
     | Inr u \<Rightarrow> (put_dialog i (g\<lparr>sd_form := modal_step (stack_spec g) (sd_form g) modal_event.Resolved\<rparr>) s)
         \<lparr>sd_toasts := sd_toasts s @ [deployed_toast g], jumps := Suc (jumps s)\<rparr>)"

datatype stack_event = ClickStack nat stack_template | InStack nat modal_event | SubmitStack nat
  | StackAnswer nat "string option + unit" | JumpTimer | StackGoes string

fun stack_step :: "stack_deploy \<Rightarrow> stack_event \<Rightarrow> stack_deploy" where
  "stack_step s (ClickStack rnd tm) = (if is_allowed tm then s\<lparr>stack_dialogs := stack_dialogs s @ [open_stack rnd tm]\<rparr> else s)"
| "stack_step s (InStack i e) = (if i < length (stack_dialogs s) \<and> users_event e
     then put_dialog i ((stack_dialogs s ! i)\<lparr>sd_form := modal_step (stack_spec (stack_dialogs s ! i)) (sd_form (stack_dialogs s ! i)) e\<rparr>) s else s)"
| "stack_step s (SubmitStack i) = (if i < length (stack_dialogs s) then submit_stack i s else s)"
| "stack_step s (StackAnswer i ans) = (if i < length (stack_dialogs s) \<and> outstanding (sd_form (stack_dialogs s ! i)) \<noteq> 0
     then stack_answer i ans s else s)"
| "stack_step s JumpTimer = (if jumps s = 0 then s else s\<lparr>jumps := jumps s - 1, sd_nav := show_page pages True ''compose'' (sd_nav s)\<rparr>)"
| "stack_step s (StackGoes page) = s\<lparr>sd_nav := show_page pages True page (sd_nav s)\<rparr>"

definition stack_init :: "nav \<Rightarrow> stack_deploy" where
  "stack_init n = \<lparr>sd_nav = n, stack_dialogs = [], deployed = [], sd_toasts = [], jumps = 0\<rparr>"

text \<open>Every variable marked secret, and the name of the project, has a value.\<close>

definition secrets_filled :: "stack_template \<Rightarrow> (string \<times> fvalue) list \<Rightarrow> bool" where
  "secrets_filled tm vs \<longleftrightarrow> str_value vs ''project_name'' \<noteq> [] \<and>
     list_all (\<lambda>e. env_value vs (ek_key e) \<noteq> []) (filter ek_secret (tm_env tm))"

lemma validate_required: "validate fs kis = None \<Longrightarrow> f \<in> set fs \<Longrightarrow> field_required f \<Longrightarrow>
    \<exists>i. map_of kis (name f) = Some i \<and> input_value i \<noteq> []"
  by (induction fs kis rule: validate.induct) (auto simp: Let_def split: option.splits if_splits)

text \<open>The inputs of this form are all text inputs, so a value is what its input shows.\<close>

definition text_form :: "form \<Rightarrow> bool" where
  "text_form fm = list_all (\<lambda>(k, i). \<not> is_checkbox i) (by_name fm)"

lemma text_put: "list_all (\<lambda>(k, i). \<not> is_checkbox i) kis \<Longrightarrow> \<not> is_checkbox i \<Longrightarrow> list_all (\<lambda>(k, i). \<not> is_checkbox i) (alist_set k i kis)"
  by (auto simp: alist_set_def list_all_iff split: if_splits)

lemma text_form_made: "list_all (\<lambda>f. field_type f \<noteq> Checkbox) fs \<Longrightarrow> text_form (make_form fs)"
proof -
  have "list_all (\<lambda>(k, i). \<not> is_checkbox i) (fold (\<lambda>f acc. alist_set (name f) (make_input f) acc) fs acc)"
    if "list_all (\<lambda>f. field_type f \<noteq> Checkbox) fs" and "list_all (\<lambda>(k, i). \<not> is_checkbox i) acc" for acc
    using that by (induction fs arbitrary: acc) (auto simp: make_input_def text_put split: field_type.split)
  then show "list_all (\<lambda>f. field_type f \<noteq> Checkbox) fs \<Longrightarrow> text_form (make_form fs)" by (simp add: text_form_def make_form_def)
qed

lemma text_form_frame [simp]: "text_form (set_error e fm) = text_form fm" "text_form (clear_error fm) = text_form fm"
  by (simp_all add: text_form_def set_error_def clear_error_def)

lemma text_form_input: "text_form fm \<Longrightarrow> map_of (by_name fm) k = Some i \<Longrightarrow> \<not> is_checkbox i"
  by (auto simp: text_form_def list_all_iff dest: map_of_SomeD)

lemma text_form_step: "text_form (fm_form m) \<Longrightarrow> text_form (fm_form (modal_step sp m e))"
proof (cases e)
  case (TypeInto k v)
  assume "text_form (fm_form m)"
  with TypeInto text_form_input [of "fm_form m" k] show ?thesis
    by (auto simp: set_values_def text_form_def intro!: text_put split: option.split)
next
  case (Tick k b)
  assume "text_form (fm_form m)"
  with Tick text_form_input [of "fm_form m" k] show ?thesis
    by (auto simp: text_form_def intro!: text_put split: option.split)
qed (auto simp: form_submit_def submit_handler_def set_pending_def Let_def split: option.split submit_outcome.split)

lemma submitted_valid: "calls (modal_step sp m (modal_event.Submit Promise)) \<noteq> calls m \<Longrightarrow>
    validate (spec_fields sp) (by_name (fm_form (modal_step sp m (modal_event.Submit Promise)))) = None"
  by (auto simp: form_submit_def submit_handler_def set_pending_def clear_error_def set_error_def Let_def split: option.splits if_splits)

lemma text_value: "text_form fm \<Longrightarrow> map_of (by_name fm) k = Some i \<Longrightarrow> str_value (get_values fm) k = input_value i"
  by (simp add: str_value_def map_of_get_values value_of_def text_form_input)

lemma valid_secrets_filled:
  assumes "text_form fm" and "validate (deploy_fields rnd tm) (by_name fm) = None"
  shows "secrets_filled tm (get_values fm)"
proof -
  have filled: "str_value (get_values fm) (name f) \<noteq> []" if "f \<in> set (deploy_fields rnd tm)" and "field_required f" for f
    using validate_required [OF assms(2) that] text_value [OF assms(1)] by auto
  have "name (env_field e) = ''env_'' @ ek_key e" "field_required (env_field e) = ek_secret e" for e
    by (simp_all add: env_field_def plain_field_def)
  with filled [of "env_field _"] have "env_value (get_values fm) (ek_key e) \<noteq> []" if "e \<in> set (tm_env tm)" and "ek_secret e" for e
    using that by (simp add: env_value_def deploy_fields_def)
  moreover have "str_value (get_values fm) ''project_name'' \<noteq> []"
    using filled [of "hd (deploy_fields rnd tm)"] by (simp add: deploy_fields_def plain_field_def)
  ultimately show ?thesis by (simp add: secrets_filled_def list_all_iff)
qed

definition dialog_ok :: "stack_dialog \<Rightarrow> bool" where
  "dialog_ok g \<longleftrightarrow> is_allowed (sd_tm g) \<and> text_form (fm_form (sd_form g))"

definition request_ok :: "stack_template \<times> (string \<times> fvalue) list \<times> string \<times> string \<Rightarrow> bool" where
  "request_ok r = (case r of (tm, vs, req) \<Rightarrow> is_allowed tm \<and> secrets_filled tm vs \<and> req = deploy_stack tm vs)"

definition stack_inv :: "stack_deploy \<Rightarrow> bool" where
  "stack_inv s \<longleftrightarrow> list_all dialog_ok (stack_dialogs s) \<and> list_all request_ok (deployed s)"

lemma list_all_put: "list_all P xs \<Longrightarrow> P x \<Longrightarrow> list_all P (xs[i := x])"
  by (auto simp: list_all_iff dest: set_update_subset_insert [THEN subsetD])

lemma dialog_at: "list_all dialog_ok gs \<Longrightarrow> i < length gs \<Longrightarrow> dialog_ok (gs ! i)"
  by (simp add: list_all_length)

lemma dialog_ok_step: "dialog_ok g \<Longrightarrow> dialog_ok (g\<lparr>sd_form := modal_step sp (sd_form g) e\<rparr>)"
  "dialog_ok g \<Longrightarrow> dialog_ok (g\<lparr>sd_form := modal_step sp (sd_form g) e, sd_sent := vs\<rparr>)"
  by (simp_all add: dialog_ok_def text_form_step)

lemma open_stack_ok: "is_allowed tm \<Longrightarrow> dialog_ok (open_stack rnd tm)"
  by (auto simp: dialog_ok_def open_stack_def open_modal_def spec_of_def deploy_fields_def env_field_def plain_field_def list_all_iff
      intro!: text_form_made)

lemma put_inv: "stack_inv s \<Longrightarrow> dialog_ok g \<Longrightarrow> stack_inv (put_dialog i g s)"
  by (simp add: stack_inv_def put_dialog_def list_all_put)

lemma submit_inv:
  assumes "stack_inv s" and "i < length (stack_dialogs s)" shows "stack_inv (submit_stack i s)"
proof -
  let ?g = "stack_dialogs s ! i"
  let ?m = "modal_step (stack_spec ?g) (sd_form ?g) (modal_event.Submit Promise)"
  have g: "dialog_ok ?g" using assms dialog_at by (simp add: stack_inv_def)
  have put: "stack_inv (put_dialog i (?g\<lparr>sd_form := ?m, sd_sent := vs\<rparr>) s)" for vs by (intro put_inv dialog_ok_step assms g)
  have "request_ok (sd_tm ?g, get_values (fm_form ?m), deploy_stack (sd_tm ?g) (get_values (fm_form ?m)))" if "calls ?m \<noteq> calls (sd_form ?g)"
  proof -
    have "validate (deploy_fields 0 (sd_tm ?g)) (by_name (fm_form ?m)) = None"
      using submitted_valid [OF that] by (simp add: stack_spec_def spec_of_def)
    moreover have "text_form (fm_form ?m)" using g text_form_step by (simp only: dialog_ok_def)
    ultimately have "secrets_filled (sd_tm ?g) (get_values (fm_form ?m))" by (intro valid_secrets_filled)
    with g show ?thesis by (simp add: request_ok_def dialog_ok_def)
  qed
  with put [of "get_values (fm_form ?m)"] put_inv [OF assms(1) dialog_ok_step(1) [OF g]] show ?thesis
    by (simp add: submit_stack_def Let_def stack_inv_def put_dialog_def del: modal_step.simps)
qed

lemma stack_step_inv: "stack_inv s \<Longrightarrow> stack_inv (stack_step s e)"
proof (cases e)
  case (ClickStack rnd tm)
  assume "stack_inv s"
  with ClickStack open_stack_ok [of tm rnd] show ?thesis by (simp add: stack_inv_def)
next
  case (InStack i e')
  assume "stack_inv s"
  with InStack put_inv [OF _ dialog_ok_step(1) [OF dialog_at]] show ?thesis by (simp add: stack_inv_def del: modal_step.simps)
next
  case (StackAnswer i ans)
  assume inv: "stack_inv s"
  then have "i < length (stack_dialogs s) \<Longrightarrow> dialog_ok (stack_dialogs s ! i)" by (simp add: stack_inv_def dialog_at)
  with StackAnswer inv show ?thesis
    by (auto simp: stack_answer_def Let_def stack_inv_def put_dialog_def simp del: modal_step.simps intro!: list_all_put dialog_ok_step
        split: sum.split)
next
  case JumpTimer
  assume "stack_inv s"
  with JumpTimer show ?thesis by (simp add: stack_inv_def)
next
  case (StackGoes page)
  assume "stack_inv s"
  with StackGoes show ?thesis by (simp add: stack_inv_def)
qed (simp add: submit_inv)

section \<open>Properties\<close>

text \<open>
  C32: No stack is deployed without its secrets. Whatever forms are opened, typed into, submitted twice, cancelled and answered, every
  request was for a template the server allows, carries the file of that template with the values of one valid form, and every
  variable marked secret and the project name had a value in it.
\<close>

theorem stacks_deploy_with_secrets:
  "list_all (\<lambda>(tm, vs, url, file). is_allowed tm \<and> secrets_filled tm vs \<and> (url, file) = deploy_stack tm vs)
     (deployed (run_events stack_step (stack_init n) es))"
proof -
  have "stack_inv (run_events stack_step (stack_init n) es)"
  proof (rule run_events_invariant [where P = stack_inv])
    show "stack_inv (stack_init n)" by (simp add: stack_inv_def stack_init_def)
  qed (rule stack_step_inv)
  then show ?thesis by (simp add: stack_inv_def request_ok_def list_all_iff split_beta)
qed

text \<open>Events that press no Run button, and events that leave the fields and the buttons of dialog \<open>i\<close> alone.\<close>

definition no_run_press :: "app_event \<Rightarrow> bool" where
  "no_run_press e = (case e of InRun i RunClick \<Rightarrow> False | _ \<Rightarrow> True)"

definition leaves_form :: "nat \<Rightarrow> app_event \<Rightarrow> bool" where
  "leaves_form i e = (no_run_press e \<and> (case e of
      InRun j (EditFields f) \<Rightarrow> j \<noteq> i | InRun j (PickImage tg) \<Rightarrow> j \<noteq> i | InRun j CloseClick \<Rightarrow> j \<noteq> i | _ \<Rightarrow> True))"

lemma concat_posts_update: "i < length ds \<Longrightarrow> posts d = posts (ds ! i) \<Longrightarrow> concat (map posts (ds[i := d])) = concat (map posts ds)"
  by (simp add: map_update) (metis length_map list_update_id nth_map)

lemma quiet_posts: "no_run_press e \<Longrightarrow> run_posts (app_step s e) = run_posts s"
proof (cases e)
  case (InRun i de)
  assume "no_run_press e"
  with InRun have "posts (dialog_step None (runs s ! i) de) = posts (runs s ! i)"
    by (auto simp: dialog_step_posts pressed_post_def no_run_press_def split: dialog_event.splits)
  with InRun show ?thesis by (simp add: run_posts_def concat_posts_update)
next
  case (RunTimer now)
  then show ?thesis by (simp add: run_posts_def show_run_modal_def open_dialog_def Let_def split: list.split prod.split)
qed (simp_all add: run_posts_def)

lemma quiet_posts_run: "list_all no_run_press es \<Longrightarrow> run_posts (run_events app_step s es) = run_posts s"
  by (induction es arbitrary: s) (simp_all add: quiet_posts)

text \<open>Dialog \<open>i\<close>, the last one opened, is on the page as it was filled.\<close>

definition filled_run :: "nat \<Rightarrow> template \<Rightarrow> app_deploy \<Rightarrow> bool" where
  "filled_run i tp s \<longleftrightarrow> i < length (runs s) \<and> dlg_open (runs s ! i) \<and> dlg_fields (runs s ! i) = template_fields tp \<and>
     \<not> disabled (run_btn (runs s ! i)) \<and> awaiting (run_btn (runs s ! i)) = 0"

lemma filled_run_up: "filled_run i tp s \<Longrightarrow> overlay_up s"
  by (auto simp: filled_run_def overlay_up_def list_ex_length)

lemma filled_run_step: "filled_run i tp s \<Longrightarrow> leaves_form i e \<Longrightarrow> filled_run i tp (app_step s e)"
proof (cases e)
  case (InRun j de)
  assume "filled_run i tp s" and "leaves_form i e"
  with InRun show ?thesis
    by (cases de) (auto simp: filled_run_def leaves_form_def no_run_press_def nth_list_update split: option.split)
next
  case (RunTimer now)
  assume f: "filled_run i tp s"
  then have "overlay_up s" by (rule filled_run_up)
  with f RunTimer show ?thesis by (simp add: show_run_modal_def filled_run_def Let_def split: list.split prod.split)
qed (auto simp: filled_run_def)

lemma filled_run_run: "filled_run i tp s \<Longrightarrow> list_all (leaves_form i) es \<Longrightarrow> filled_run i tp (run_events app_step s es)"
  by (induction es arbitrary: s) (simp_all add: filled_run_step)

lemma filled_run_press:
  assumes "filled_run i tp s" and "Suc i = length (runs s)" and "submit_run None (template_fields tp) = Inr p"
  shows "run_posts (app_step s (InRun i RunClick)) = run_posts s @ [p]"
proof -
  obtain ds d where r: "runs s = ds @ [d]" "length ds = i" using assms(2) by (cases "runs s" rule: rev_cases) auto
  from r(2) have i: "i = length ds" by simp
  have "dlg_open d" "dlg_fields d = template_fields tp" "\<not> disabled (run_btn d)"
    using assms(1) unfolding filled_run_def r(1) i by simp_all
  then have "posts (dialog_step None d RunClick) = posts d @ [p]"
    unfolding dialog_step_posts using assms(3) by (simp add: pressed_post_def)
  then show ?thesis unfolding app_step.simps run_posts_def r(1) i by (simp del: dialog_step.simps)
qed

text \<open>No modal is opened while the last one is up, so it stays the last.\<close>

lemma filled_run_last: "filled_run i tp s \<Longrightarrow> length (runs (app_step s e)) = length (runs s)"
proof (cases e)
  case (RunTimer now)
  assume f: "filled_run i tp s"
  then have "overlay_up s" by (rule filled_run_up)
  with RunTimer show ?thesis by (simp add: show_run_modal_def Let_def split: list.split prod.split)
qed simp_all

lemma filled_run_lasts: "filled_run i tp s \<Longrightarrow> list_all (leaves_form i) es \<Longrightarrow> length (runs (run_events app_step s es)) = length (runs s)"
  by (induction es arbitrary: s) (simp_all add: filled_run_step filled_run_last)

text \<open>
  C24: An app runs as the catalogue says. With no modal open and no other app's timer pending, the click opens the containers page; the run
  modal comes with the timer, not before 60 ms have passed; whatever happens afterwards, nothing is posted until a Run button is pressed; and
  what the form posts, when Run is pressed after any events that leave it alone (pages opened, lists and answers arriving), is the image, a
  name and the body the template stands for, once. The template's texts must survive a form of lines: the image, every variable and every
  mount is one line without outer blanks, port numbers have no comma, colon or blank, and no container port is named twice.
\<close>

theorem app_runs_as_catalogued:
  assumes "is_allowed tm" and "template_ok (run_template rnd tm parts)" and "\<not> overlay_up s" and "pending_runs s = []"
    and "list_all no_run_press before" and "list_all (leaves_form (length (runs s))) es"
  shows "let s0 = app_step s (ClickApp now rnd tm parts); s1 = app_step s0 (RunTimer later); s2 = run_events app_step s1 es;
       s3 = app_step s2 (InRun (length (runs s)) RunClick) in
     current_page (app_nav s0) = ''containers'' \<and> run_posts (run_events app_step s0 before) = run_posts s \<and>
     (if later < now + 60 then runs s1 = runs s
      else length (runs s1) = Suc (length (runs s)) \<and> overlay_up s2 \<and> run_posts s2 = run_posts s \<and>
        run_posts s3 = run_posts s @ [(tm_image tm, Some (tm_id tm @ ''-'' @ show_nat rnd), catalogue_body parts)])"
proof -
  let ?tp = "run_template rnd tm parts" and ?i = "length (runs s)"
  let ?a = "app_step s (ClickApp now rnd tm parts)"
  let ?b = "app_step ?a (RunTimer later)" and ?c = "run_events app_step (app_step ?a (RunTimer later)) es"
  have "catalogue_body ?tp = catalogue_body parts" "t_image ?tp = tm_image tm" "t_name ?tp = tm_id tm @ ''-'' @ show_nat rnd"
    by (simp_all add: catalogue_body_def run_template_def env_lines_def mount_lines_def)
  with template_body [OF assms(2)]
  have body: "submit_run None (template_fields ?tp) = Inr (tm_image tm, Some (tm_id tm @ ''-'' @ show_nat rnd), catalogue_body parts)"
    by (simp add: null_if_empty_def)
  have nav: "current_page (app_nav ?a) = ''containers''"
    using assms(1,3) show_page_internal [of "''containers''" True "app_nav s"] by (simp add: landing_pages_def enter_page_def)
  have none: "run_posts (run_events app_step ?a before) = run_posts s"
    using quiet_posts_run [OF assms(5)] quiet_posts [of "ClickApp now rnd tm parts" s] by (simp add: no_run_press_def)
  have early: "runs ?b = runs s" if "later < now + 60"
    using assms(1,3,4) that by (simp add: modal_delay_def)
  have due: "length (runs ?b) = Suc ?i \<and> filled_run ?i ?tp ?b \<and> run_posts ?b = run_posts s" if "\<not> later < now + 60"
    using assms(1,3,4) that
    by (simp add: modal_delay_def overlay_up_def show_run_modal_def open_dialog_def prefill_def filled_run_def run_posts_def make_action_btn_def Let_def)
  have late: "length (runs ?b) = Suc ?i \<and> overlay_up ?c \<and> run_posts ?c = run_posts s \<and>
      run_posts (app_step ?c (InRun ?i RunClick)) = run_posts s @ [(tm_image tm, Some (tm_id tm @ ''-'' @ show_nat rnd), catalogue_body parts)]"
    if "\<not> later < now + 60"
  proof -
    have filled: "filled_run ?i ?tp ?c" "Suc ?i = length (runs ?c)"
      using due [OF that] filled_run_run [OF _ assms(6), of ?tp ?b] filled_run_lasts [OF _ assms(6), of ?tp ?b]
      by (simp_all only: simp_thms)
    have "list_all no_run_press es" using assms(6) by (auto simp: list_all_iff leaves_form_def)
    then have "run_posts ?c = run_posts s" using due [OF that] quiet_posts_run [of es ?b] by (simp only: simp_thms)
    moreover have "overlay_up ?c" by (rule filled_run_up [OF filled(1)])
    ultimately show ?thesis using due [OF that] filled_run_press [OF filled body] by presburger
  qed
  show ?thesis unfolding Let_def using nav none early late by presburger
qed

text \<open>The jump that follows a deployment takes the user from wherever they have gone in the meantime.\<close>

theorem late_jump_to_compose:
  assumes "is_allowed tm" and "tm_env tm = []"
  shows "let s = run_events stack_step (stack_init n) [ClickStack 7 tm, SubmitStack 0, StackAnswer 0 (Inr ()), StackGoes ''settings''] in
     length (deployed s) = 1 \<and> current_page (sd_nav s) = ''settings'' \<and> current_page (sd_nav (stack_step s JumpTimer)) = ''compose''"
proof -
  have pg: "show_page pages True ''settings'' k = enter_page True ''settings'' k" "show_page pages True ''compose'' k = enter_page True ''compose'' k" for k
    by (rule show_page_internal, simp add: landing_pages_def)+
  show ?thesis using assms
    by (simp add: pg stack_init_def open_stack_def submit_stack_def stack_answer_def put_dialog_def stack_spec_def spec_of_def
        deploy_fields_def plain_field_def open_modal_def make_form_def make_input_def alist_set_def form_submit_def submit_handler_def
        set_pending_def clear_error_def set_error_def enter_page_def Let_def)
qed

theorem app_runs_as_catalogued_witness:
  "run_posts (run_events app_step \<lparr>app_nav = \<lparr>current_page = ''templates'', nav_timers = timers_init, main_ws = False, term_host_shown = False,
       last_page = None, links = [], refresh_in_flight = False, last_containers = False, loads = [], windows = []\<rparr>,
       pending_runs = [], runs = []\<rparr>
     [ClickApp 1000 42 \<lparr>tm_id = ''nginx'', tm_name = ''Nginx'', tm_description = [], tm_category = ''web'', tm_image = ''nginx:alpine'', tm_images = [],
        tm_yaml = [], tm_env = [], tm_ports = [], is_allowed = True, reject_reason = []\<rparr>
        \<lparr>t_image = [], t_name = [], t_command = [], t_ports = [(''8080'', ''80'')], t_env = [(''A'', ''b'')], t_volumes = []\<rparr>,
      RunTimer 1060, AppGoes ''images'', InRun 0 RunClick]) =
   [(''nginx:alpine'', Some (''nginx-'' @ show_nat 42), catalogue_body
        \<lparr>t_image = [], t_name = [], t_command = [], t_ports = [(''8080'', ''80'')], t_env = [(''A'', ''b'')], t_volumes = []\<rparr>)]"
proof -
  let ?tm = "\<lparr>tm_id = ''nginx'', tm_name = ''Nginx'', tm_description = [], tm_category = ''web'', tm_image = ''nginx:alpine'', tm_images = [],
        tm_yaml = [], tm_env = [], tm_ports = [], is_allowed = True, reject_reason = []\<rparr>"
  let ?parts = "\<lparr>t_image = [], t_name = [], t_command = [], t_ports = [(''8080'', ''80'')], t_env = [(''A'', ''b'')], t_volumes = []\<rparr>"
  let ?s = "\<lparr>app_nav = \<lparr>current_page = ''templates'', nav_timers = timers_init, main_ws = False, term_host_shown = False,
       last_page = None, links = [], refresh_in_flight = False, last_containers = False, loads = [], windows = []\<rparr>,
       pending_runs = [], runs = []\<rparr>"
  have allowed: "is_allowed ?tm" by simp
  have ok: "template_ok (run_template 42 ?tm ?parts)"
    by (simp add: template_ok_def run_template_def line_text_def env_lines_def mount_lines_def port_text_def is_space_def)
  have idle: "\<not> overlay_up ?s" "pending_runs ?s = []" "run_posts ?s = []" "length (runs ?s) = 0"
    by (simp_all add: overlay_up_def run_posts_def)
  have due: "\<not> (1060 :: int) < 1000 + 60" by simp
  have quiet: "list_all no_run_press []" "list_all (leaves_form (length (runs ?s))) [AppGoes ''images'']"
    by (simp_all add: leaves_form_def no_run_press_def)
  from app_runs_as_catalogued [OF allowed ok idle(1,2) quiet, of 1000 1060]
  have "run_posts (app_step (run_events app_step (app_step (app_step ?s (ClickApp 1000 42 ?tm ?parts)) (RunTimer 1060)) [AppGoes ''images''])
        (InRun 0 RunClick)) = [(tm_image ?tm, Some (tm_id ?tm @ ''-'' @ show_nat 42), catalogue_body ?parts)]"
    unfolding Let_def idle(3,4) if_not_P [OF due] append_Nil by blast
  then show ?thesis by (simp only: run_events.simps stack_template.simps append_Cons append_Nil)
qed

end
