(* ===== verification/AsyncModals.thy ===== *)
theory AsyncModals
  imports PageForms DialogViews Downloads
begin

text \<open>
  The modals that open before or after their data: the inspect modal of a volume (pages/volumes.js), the aggregated logs of a
  stack (pages/compose.js), and the inspect modal of an image (pages/images.js), which opens when its answer comes.
\<close>

section \<open>The inspect modal of a volume\<close>

text \<open>
  \<open>_showVolumeInspectModal\<close>: the overlay is up at once, \<open>vm_raw\<close> is \<open>_raw\<close>, the answer as it came, and \<open>vm_shown\<close> the content of the body. \<open>exported\<close>
  are the files saved, \<open>browsed\<close> the volumes whose browser was opened.
\<close>

datatype volume_click = BrowseFiles | ExportJson | CloseInspect

datatype volume_body = VolumeLoading | VolumeRows volume_detail | VolumeError string

record volume_modal =
  vm_name :: string
  vm_up :: bool
  vm_due :: bool
  vm_raw :: "volume_detail option"
  vm_shown :: volume_body
  exported :: "(string \<times> volume_detail) list"
  browsed :: "string list"

definition open_volume_modal :: "string \<Rightarrow> volume_modal" where
  "open_volume_modal n = \<lparr>vm_name = n, vm_up = True, vm_due = True, vm_raw = None, vm_shown = VolumeLoading, exported = [], browsed = []\<rparr>"

definition inspect_url :: "string \<Rightarrow> string" where
  "inspect_url n = volume_url n @ ''/inspect''"

text \<open>The events: a button, a click beside the box, and the answer, which fills the body whether or not it is still in the document.\<close>

datatype volume_event = VolumeClick volume_click | BesideVolume | VolumeAnswer "string + volume_detail"

definition press_volume :: "volume_click \<Rightarrow> volume_modal \<Rightarrow> volume_modal" where
  "press_volume c m = (case c of
      BrowseFiles \<Rightarrow> m\<lparr>vm_up := False, browsed := browsed m @ [vm_name m]\<rparr>
    | ExportJson \<Rightarrow> (case vm_raw m of None \<Rightarrow> m | Some d \<Rightarrow> m\<lparr>exported := exported m @ [(''volume-'' @ vm_name m @ ''.json'', d)]\<rparr>)
    | CloseInspect \<Rightarrow> m\<lparr>vm_up := False\<rparr>)"

fun volume_step :: "volume_modal \<Rightarrow> volume_event \<Rightarrow> volume_modal" where
  "volume_step m (VolumeClick c) = (if vm_up m then press_volume c m else m)"
| "volume_step m BesideVolume = m\<lparr>vm_up := False\<rparr>"
| "volume_step m (VolumeAnswer ans) = (if \<not> vm_due m then m else (case ans of
      Inl msg \<Rightarrow> m\<lparr>vm_due := False, vm_shown := VolumeError (Volumes.label ''common.error'' @ '': '' @ msg)\<rparr>
    | Inr d \<Rightarrow> m\<lparr>vm_due := False, vm_raw := Some d, vm_shown := VolumeRows d\<rparr>))"

text \<open>The elements. A row that throws would end in the error branch.\<close>

definition volume_title :: "string \<Rightarrow> string" where
  "volume_title n = I18n.t skiff_strings ''volumes.modal.inspect_title'' (Some [(''name'', n)])"

definition volume_body_node :: "(string \<Rightarrow> bool) \<Rightarrow> volume_body \<Rightarrow> volume_click node" where
  "volume_body_node valid b = (case b of
      VolumeLoading \<Rightarrow> mk_text ''div'' [] (Volumes.label ''common.loading'')
    | VolumeError msg \<Rightarrow> mk ''div'' [] [mk_text ''p'' [] msg]
    | VolumeRows d \<Rightarrow> (case res_map (\<lambda>(l, v). kv_row valid l v) (volume_entries d) of
        Inr rs \<Rightarrow> mk ''div'' [] rs
      | Inl e \<Rightarrow> mk ''div'' [] [mk_text ''p'' [] (Volumes.label ''common.error'')]))"

definition volume_modal_node :: "(string \<Rightarrow> bool) \<Rightarrow> volume_modal \<Rightarrow> volume_click node list" where
  "volume_modal_node valid m = (if \<not> vm_up m then [] else [modal_nodes (volume_title (vm_name m)) (Some (volume_body_node valid (vm_shown m)))
     (Some [make_btn ''Browse files'' BrowseFiles ''btn primary small'', make_btn ''Export JSON'' ExportJson ''btn small'',
       make_btn (Volumes.label ''common.close'') CloseInspect ''btn'']) (Some CloseInspect)])"

section \<open>The aggregated logs of a stack\<close>

text \<open>\<open>_showComposeAggregateLogs\<close>: the viewer's text; lines of the server are text, never markup.\<close>

record logs_modal =
  lm_up :: bool
  lm_due :: bool
  lm_text :: string

datatype logs_event = CloseLogs | LogsAnswer "string + string list"

definition open_logs_modal :: logs_modal where
  "open_logs_modal = \<lparr>lm_up = True, lm_due = True, lm_text = ''Loading'' @ ellipsis\<rparr>"

definition stack_logs_url :: "string \<Rightarrow> string" where
  "stack_logs_url n = stack_url n ''/logs?tail=500''"

fun logs_step :: "logs_modal \<Rightarrow> logs_event \<Rightarrow> logs_modal" where
  "logs_step m CloseLogs = m\<lparr>lm_up := False\<rparr>"
| "logs_step m (LogsAnswer ans) = (if lm_due m then m\<lparr>lm_due := False, lm_text := aggregate_logs ans\<rparr> else m)"

definition logs_modal_node :: "string \<Rightarrow> logs_modal \<Rightarrow> unit node list" where
  "logs_modal_node project m = (if lm_up m then [modal_nodes (''Aggregated logs: '' @ project) (Some (mk_text ''pre'' [] (lm_text m)))
     (Some [make_btn ''Close'' () ''btn'']) (Some ())] else [])"

section \<open>The inspect modal of an image\<close>

text \<open>
  \<open>showImageInspect\<close> awaits the answer first: \<open>inspects\<close> are the clicks that wait, \<open>image_modals\<close> the overlays up, each with its image
  and tag, in the order they opened.
\<close>

record image_desk =
  desk_page :: string
  inspects :: "(string \<times> string) list"
  image_modals :: "(string \<times> string) list"
  inspect_toasts :: "toast list"

datatype inspect_event = InspectImage string string | InspectAnswer nat "string + unit" | CloseImage nat | DeskGoes string

fun inspect_step :: "image_desk \<Rightarrow> inspect_event \<Rightarrow> image_desk" where
  "inspect_step s (InspectImage i tg) = s\<lparr>inspects := inspects s @ [(i, tg)]\<rparr>"
| "inspect_step s (InspectAnswer k ans) = (if k < length (inspects s) then
     (let s1 = s\<lparr>inspects := FileBrowser.without k (inspects s)\<rparr> in case ans of
        Inl msg \<Rightarrow> s1\<lparr>inspect_toasts := inspect_toasts s @ [(msg, Error)]\<rparr>
      | Inr u \<Rightarrow> s1\<lparr>image_modals := image_modals s @ [inspects s ! k]\<rparr>) else s)"
| "inspect_step s (CloseImage k) = s\<lparr>image_modals := FileBrowser.without k (image_modals s)\<rparr>"
| "inspect_step s (DeskGoes p) = s\<lparr>desk_page := p\<rparr>"

section \<open>Properties\<close>

lemma plain_row: "kv_row valid l (KvPrim v) = Inr n \<Longrightarrow> actions n = [] \<and> raws n = []" "kv_row valid l (KvObj j) = Inr n \<Longrightarrow> actions n = [] \<and> raws n = []"
  by (auto simp: kv_row_def new_elem_def)

lemma plain_rows: "res_map (\<lambda>(l, v). kv_row valid l v) es = Inr rs \<Longrightarrow> list_all (\<lambda>(l, v). (\<exists>w. v = KvPrim w) \<or> (\<exists>j. v = KvObj j)) es \<Longrightarrow>
    actions_of rs = [] \<and> raws_of rs = []"
  by (induction es arbitrary: rs) (auto simp: res_bind_Inr_iff dest: plain_row)

lemma volume_entries_plain: "list_all (\<lambda>(l, v). (\<exists>w. v = KvPrim w) \<or> (\<exists>j. v = KvObj j)) (volume_entries d)"
  by (simp add: volume_entries_def usage_value_def obj_value_def)

lemma volume_body_plain: "actions (volume_body_node valid b) = [] \<and> raws (volume_body_node valid b) = []"
  by (auto simp: volume_body_node_def dest: plain_rows [OF _ volume_entries_plain] split: volume_body.split sum.split)

lemma modal_nodes_parts: "actions (modal_nodes ttl (Some b) (Some bs) (Some h)) = h # actions b @ actions_of bs"
  "raws (modal_nodes ttl (Some b) (Some bs) (Some h)) = raws b @ raws_of bs"
  by (simp_all add: modal_nodes_def new_elem_def)

text \<open>
  The modal of a volume offers its three buttons and the click beside it whatever its body shows, and parses nothing.
\<close>

theorem volume_modal_offers:
  "actions_of (volume_modal_node valid m) = (if vm_up m then [CloseInspect, BrowseFiles, ExportJson, CloseInspect] else []) \<and>
   raws_of (volume_modal_node valid m) = []"
  by (simp add: volume_modal_node_def modal_nodes_parts volume_body_plain)

definition volume_modal_ok :: "volume_event list \<Rightarrow> string \<Rightarrow> volume_modal \<Rightarrow> bool" where
  "volume_modal_ok es n m \<longleftrightarrow> vm_name m = n \<and> list_all (\<lambda>(f, d). f = ''volume-'' @ n @ ''.json'' \<and> vm_raw m = Some d) (exported m) \<and>
     (case vm_shown m of VolumeLoading \<Rightarrow> vm_due m \<and> vm_raw m = None
       | VolumeRows d \<Rightarrow> \<not> vm_due m \<and> vm_raw m = Some d \<and> VolumeAnswer (Inr d) \<in> set es
       | VolumeError msg \<Rightarrow> \<not> vm_due m \<and> vm_raw m = None)"

lemma volume_modal_ok_step: "volume_modal_ok es n m \<Longrightarrow> volume_modal_ok (es @ [e]) n (volume_step m e)"
proof (cases e)
  case (VolumeClick c)
  assume "volume_modal_ok es n m"
  with VolumeClick show ?thesis
    by (cases c) (auto simp: volume_modal_ok_def press_volume_def split: volume_body.splits option.splits)
next
  case (VolumeAnswer ans)
  assume "volume_modal_ok es n m"
  with VolumeAnswer show ?thesis
    by (cases "vm_shown m"; cases "exported m") (auto simp: volume_modal_ok_def split: sum.splits)
qed (auto simp: volume_modal_ok_def split: volume_body.splits)

text \<open>
  What the modal shows and saves is the server's answer: whatever is clicked and whenever the answer comes, the body shows
  "Loading" exactly until it has come, and a file is saved only with that answer.
\<close>

theorem volume_modal_truthful:
  "volume_modal_ok es n (run_events volume_step (open_volume_modal n) es)"
proof (induction es rule: rev_induct)
  case (snoc e es)
  from volume_modal_ok_step [OF this, of e] show ?case by simp
qed (simp add: volume_modal_ok_def open_volume_modal_def)

text \<open>The logs of a stack are text.\<close>

theorem stack_logs_are_text: "raws_of (logs_modal_node n (run_events logs_step open_logs_modal es)) = []"
  by (simp add: logs_modal_node_def modal_nodes_parts)

text \<open>Two clicks on an image open two modals, and they open over whatever page the user has gone to.\<close>

theorem late_inspects_open:
  "let s = run_events inspect_step \<lparr>desk_page = ''images'', inspects = [], image_modals = [], inspect_toasts = []\<rparr>
      [InspectImage i tg, InspectImage i tg, DeskGoes ''settings'', InspectAnswer 0 (Inr ()), InspectAnswer 0 (Inr ())] in
   desk_page s = ''settings'' \<and> image_modals s = [(i, tg), (i, tg)]"
  by (simp add: FileBrowser.without_def Let_def)

end
