(* ===== verification/Spec2Isabelle.thy ===== *)
theory Spec2Isabelle
  imports I18n Widgets StatusBanner Notifications Palette Registry Session Terminal Logs Forms Undo Containers RunModal Detail
    CspStyle HubSearch Wizard ListPage Images Volumes Networks Templates Compose SystemPage Settings Dashboard ThemeTour
    Startup FileBrowser DetailViews RunDialog Downloads ShortcutsHelp StyleObserver PageViews
    BulkActions CtxMenu UnreachablePanel TermGeometry ContainerViews LoginCard SessionEnd PageForms SystemViews CatalogueViews DialogViews DetailTabs TemplateDeploy AsyncModals
begin

text \<open>
  The browser client of SKIFF, a web console for container engines (the JavaScript under
  src/skiff/static). A page loads ui.js (a library of element factories, forms, tables and the page
  registry), strings.en.js (the texts), the modules of core/ and app.js, which holds the session, the
  container pages and the start-up code; terminal-frame.js runs inside an iframe of its own. The client
  talks to the server through \<open>apiFetch\<close> and two kinds of WebSocket. The development models the logic of these
  files: what state each part keeps, what every call, click, timer and message does to it, and what follows.

  Conventions. A component is a record with one definition per operation; several are run as machines, by
  \<open>run_events step s es\<close> over a datatype of events (clicks, answers, timers, socket events), so that a
  property quantifies over every interleaving. Time is milliseconds, a pending \<open>setTimeout\<close> its deadline. A
  call that may throw returns a sum, \<open>Inl\<close> the error. Strings are byte lists: a character beyond ASCII is its
  UTF-8 encoding. JavaScript numbers are \<open>int\<close> or \<open>nat\<close>: those modelled are integers far below 2^53. The
  DOM is a tree of nodes (Dom) where its content matters, and a few flags elsewhere; fixed styles are left out.

  Theories and the code they model:
  - Prelude: strings as the code uses them (split, join, trim, toLowerCase, parseInt, encodeURIComponent)
    with their laws; Json: JSON values; SingleFlight, Store, BoundedLog, Backoff: the contracts as locales (at
    most one operation in flight, a keyed store, a bounded log, a budget of retries), interpreted below;
  - Dom, Widgets, Forms: \<open>UI.el\<close> and the factories of ui.js, forms and form modals; Forms shows that a modal
    submits at most once at a time and never hides a failure, Widgets that inspect panels hold no markup;
  - I18n: strings.en.js and \<open>t\<close>: substitution scans a template once, and which keys resolve;
  - StatusBanner, Notifications, Palette, Registry: core/statusBanner.js, core/notifications.js,
    core/palette.js, core/sidebar.js with the registry of ui.js and \<open>showPage\<close>;
  - Actions, Session: guards, intervals and the visibility handler; token, timeouts, \<open>apiFetch\<close>, docker status;
  - Terminal: terminal-frame.js as an inductive step relation, and the host that caches its iframes; Logs:
    the log viewer, its search and its socket; Undo: the undo bars;
  - Startup: the start-up code of app.js: the answer of /api/config, the landing page, the sign-in;
  - Containers, RunModal, Detail: the container list, the fields and checks of the run and clone modal, the
    header of the detail view with its editors and polls;
  - RunDialog, DetailViews, FileBrowser: the run modal as a machine over its clicks and answers; the inspect
    sections, the resource form and the process and diff tabs; the file browser of a container or a volume:
    the listing on screen is the one of the path in the bar;
  - Downloads: the files that leave the console, and which object URLs stay; ShortcutsHelp: the help overlay beside the
    tour; StyleObserver: the observer that keeps style attributes out of the document; PageViews: the elements of
    the resource pages, which parse nothing the server sends as markup;
  - ContainerViews, UnreachablePanel, SystemViews, CatalogueViews, DialogViews: the elements the container list, the
    inspect, process, diff and file tabs, the panels of an unreachable engine, the system page, the templates, the
    dashboard, the run modal, the pull panel and the help overlay put on screen, with the clicks they offer: the
    list and the file browser offer exactly the moves of their machines, and the run modal read back by the
    identifiers of its inputs is the state of RunDialog;
  - BulkActions, CtxMenu, PageForms: the four bulk actions and their reports, the menu of a right click, the forms
    the pages build (network, volume, scale, commit, tag and pull) with their one dialog at a time;
  - LoginCard, SessionEnd, TermGeometry: the sign-in card under pages that poll and are refused, until a page is
    opened (a sign-in opens one once its configuration is answered), the log-out with what outlives it, and where the terminal's overlay stands while its slot moves;
  - DetailTabs: the tabs of the detail view as one machine over a shared element and the timers; TemplateDeploy: the
    deployments of an app and of a stack, from the card to what is posted; AsyncModals: the modals that open before or
    after their data;
  - CspStyle: \<open>setStyle\<close> over a shared sheet, which refines styles per element, and the migrator of style
    attributes; HubSearch: the Docker Hub search, its tag filter and the markup of its rows;
  - Wizard: pages/wizard.js, the first-run setup as one machine over its clicks, ticks, polls and answers: its
    window closes on screen, its requests are well-typed, its token is copied before it is used;
  - ListPage: what the resource pages share (the skeleton of a loader, queries, replies with an undo token);
    Images, Volumes, Networks, Templates, Compose: the page of that name in pages/; in Volumes a deletion that
    cascades is a machine whose removals are answered before the volume's own request is sent, or not;
  - SystemPage, Settings, Dashboard: the other pages; SystemPage follows the token through its rotation, Settings shows that a secret knob never reaches the
    page, Dashboard that its alert comes with the third failure in a row;
  - ThemeTour: core/theme-init.js, core/theme.js, core/tour.js and core/docs.js.
  This theory adds the properties that join components.

  Bounds. There is no fuel: every loop is structural or has a measure. The limits are the code's own (50
  notifications, 10,000 log lines, 5 and 10 reconnects, 30 palette rows, 20 tags).

  What the model takes as parameters: the browser's answers (which attribute names \<open>setAttribute\<close> accepts,
  clipboard and storage failures, the printing of doubles), the server's answers (events or arguments), the
  user's answers to \<open>confirm\<close>, the times a browser prints. Not modelled: fixed styles and the flow of the page, the
  drawing of the terminal (xterm), the bytes of files a browser reads or saves, the vendored libraries, and the
  Python server.
\<close>

section \<open>The navigation tables agree\<close>

lemma number_nav_pages: "number_nav = None # map Some landing_pages"
  by code_simp

lemma landing_dispatch: "list_all (\<lambda>p. (p, loader_of p) \<in> set dispatch \<and> landing (Some p) = p) landing_pages"
  by code_simp

lemma sidebar_order: "map (\<lambda>p. (page_id p, external p)) (get_pages pages []) = map (\<lambda>i. (i, False)) landing_pages @ [(''api-docs'', True)]"
  by code_simp

lemma sidebar_link_at:
  assumes "i < 9" and "render_sidebar pages [] = Inr ls"
  shows "\<exists>el kids. ls ! i = Elem el kids \<and> attributes el = [(''data-page'', landing_pages ! i)] \<and>
    elem.listeners el = [(''click'', landing_pages ! i)]"
proof -
  have n: "length landing_pages = 9" by (simp add: landing_pages_def)
  have len: "length (get_pages pages []) = 10" using arg_cong [OF sidebar_order, of length] n by simp
  let ?p = "get_pages pages [] ! i"
  have "(page_id ?p, external ?p) = (landing_pages ! i, False)"
    using arg_cong [OF sidebar_order, of "\<lambda>xs. xs ! i"] assms(1) len n by (simp add: nth_append)
  moreover have "ls ! i = sidebar_link (i, ?p)"
    using assms len by (auto simp: render_sidebar_def Let_def nth_enumerate_eq split: if_splits)
  ultimately show ?thesis by (simp add: sidebar_link_def Let_def new_elem_def)
qed

text \<open>
  C21: the keyboard, the sidebar and the loaders agree: an unmodified digit d pressed outside an input opens
  the page of the d-th link of the sidebar (the link that a click sends to the same page), running that page's
  own loader, and a reload lands on it again. The sidebar is the full one: the list of the digits is its own
  (palette.js), so that under a persona whose sidebar hides a page every page keeps its digit.
\<close>

theorem digit_opens_its_page:
  assumes "1 \<le> d" and "d \<le> 9" and "key e = show_nat d"
    and "\<not> editable e" and "plain e" and "\<not> shift_key e" and "render_sidebar pages [] = Inr ls"
  shows "\<exists>p el kids. on_keydown mac page has_search e = Some (NavTo p) \<and>
    ls ! (d - 1) = Elem el kids \<and> attributes el = [(''data-page'', p)] \<and> elem.listeners el = [(''click'', p)] \<and>
    current_page (show_page pages storage p n) = p \<and>
    (p, last (loads (show_page pages storage p n))) \<in> set dispatch \<and> landing (Some p) = p"
proof -
  let ?p = "landing_pages ! (d - 1)"
  have "length landing_pages = 9" by (simp add: landing_pages_def)
  then have in_pages: "?p \<in> set landing_pages" using assms(1,2) by simp
  have "the (number_nav ! d) = ?p"
    using assms(1,2) \<open>length landing_pages = 9\<close> by (simp add: number_nav_pages nth_Cons')
  then have key: "on_keydown mac page has_search e = Some (NavTo ?p)"
    using assms(1-6) digit_nav [of e d] by simp
  have "d - 1 < 9" using assms(1,2) by simp
  from sidebar_link_at [OF this assms(7)] key
  show ?thesis using in_pages landing_dispatch show_page_internal [OF in_pages]
    by (simp add: list_all_iff) (simp add: enter_page_def)
qed

theorem digit_opens_its_page_witness:
  "on_keydown True ''images'' False \<lparr>key = show_nat 9, meta_key = False, ctrl_key = False, shift_key = False,
     alt_key = False, target_tag = ''BODY'', content_editable = False\<rparr> = Some (NavTo ''settings'')"
proof -
  have "get_pages pages [] \<noteq> []" using sidebar_order by auto
  then have "render_sidebar pages [] = Inr (map sidebar_link (enumerate 0 (get_pages pages [])))"
    by (simp add: render_sidebar_def Let_def)
  moreover have "landing_pages ! 8 = ''settings''" by (simp add: landing_pages_def)
  ultimately show ?thesis
    using digit_opens_its_page [of 9 "\<lparr>key = show_nat 9, meta_key = False, ctrl_key = False, shift_key = False,
       alt_key = False, target_tag = ''BODY'', content_editable = False\<rparr>" _ True "''images''" False]
      sidebar_link_at [of 8]
    by (fastforce simp: editable_def plain_def)
qed

text \<open>
  The palette can jump to every page of the sidebar but one: with or without the container list, its
  navigation commands are exactly those of the pages the loaders know, except settings.
\<close>

theorem palette_misses_settings:
  "{p. ShowPage p \<in> run ` set (build_items containers)} = set landing_pages - {''settings''}"
proof -
  define rest where "rest = (case containers of None \<Rightarrow> [] | Some cs \<Rightarrow> concat (map container_items cs))"
  have none: "ShowPage p \<notin> run ` set rest" for p
    by (auto simp: rest_def container_items_def Let_def split: if_splits option.splits)
  have "run ` set (build_items containers) = {RunNewContainer} \<union> ShowPage ` snd ` set nav_items \<union> run ` set rest"
    by (simp add: build_items_def rest_def nav_items_def)
  then have "{p. ShowPage p \<in> run ` set (build_items containers)} = snd ` set nav_items"
    using none by auto
  also have "\<dots> = set landing_pages - {''settings''}" by (simp add: nav_items_def landing_pages_def) auto
  finally show ?thesis .
qed

section \<open>The terminal and the session\<close>

lemma surface_shows_lockout:
  assumes "0 < n" and "tr ''banner.ws_auth_lockout'' \<noteq> []"
  shows "get (status_banner (surface_ws_lockout tr now (''ws_auth_lockout:'' @ show_nat n) s)) ''ws_auth_lockout'' \<noteq> None"
proof -
  have "split_on CHR '':'' (''ws_auth_lockout'' @ CHR '':'' # show_nat n) = ''ws_auth_lockout'' # split_on CHR '':'' (show_nat n)"
    by (rule split_on_append_sep) simp
  moreover have "split_on CHR '':'' (show_nat n) = [show_nat n]"
    by (rule split_on_no_sep) (auto dest: show_nat_digits simp: is_digit_def)
  ultimately have "split_on CHR '':'' (''ws_auth_lockout:'' @ show_nat n) ! 1 = show_nat n" by simp
  then show ?thesis using assms
    by (simp add: surface_ws_lockout_def lockout_banner_def show_banner_def banner_set_def
        severity_of_def get_def map_of_alist_set)
qed

text \<open>
  A lockout of the terminal's socket is never shown as one. The server closes with the reason
  \<open>ws_auth_lockout:<seconds>\<close>, which read directly raises the countdown banner; but the frame posts only
  that the session expired, and the reason the host passes on for that message changes no banner.
\<close>

theorem terminal_lockout_unseen:
  assumes "\<not> user_closed f" and "0 < n" and "tr ''banner.ws_auth_lockout'' \<noteq> []"
  shows "let reason = ''ws_auth_lockout:'' @ show_nat n; m = last (posted (on_close SESSION_EXPIRED_CODE reason f)) in
    get (status_banner (surface_ws_lockout tr now reason s)) ''ws_auth_lockout'' \<noteq> None \<and>
    m = TerminalExpired \<and>
    (\<exists>passed. snd (on_frame_message origin origin m) = Some passed \<and> surface_ws_lockout tr now passed s = s)"
  using assms surface_shows_lockout [of n tr now s]
  by (simp add: Let_def on_close_def SESSION_EXPIRED_CODE_def post_def on_frame_message_def
      surface_ws_lockout_def)

theorem terminal_lockout_unseen_witness:
  "surface_ws_lockout (\<lambda>k. k) 0 ''session-expired'' (session_init [] None) = session_init [] None"
  using terminal_lockout_unseen [of frame_init 30 "\<lambda>k. k" 0 "session_init [] None" "''o''"]
  by (simp add: frame_init_def Let_def on_close_def SESSION_EXPIRED_CODE_def post_def on_frame_message_def)

end
